theory Spec2Isabelle
  imports Complex_Main "HOL-Library.Extended_Nat" "HOL-Library.AList" "HOL-Library.Multiset"
begin

section \<open>Data model\<close>

text \<open>
  The script is the reply of the service to \<open>generateStory\<close>, which returns it as parsed,
  unchecked. Its shape is that of \<open>scriptSchema\<close>: \<open>title\<close> and \<open>scene_elements\<close> are
  required; of an element only \<open>type\<close> is required, and \<open>content\<close>, \<open>character\<close> and
  \<open>elements\<close> may each be missing, whatever the type; a dialogue part has its \<open>type\<close> and
  its \<open>content\<close>. A field that is missing reads \<open>undefined\<close> and is \<open>None\<close> here.
  A position in \<open>scene_elements\<close> is a \<^typ>\<open>nat\<close>; a number that is no position of the
  array (negative, fractional, too large) reads \<open>undefined\<close> in the source, as every
  \<open>n\<close> beyond the end does here.
\<close>

datatype part_type = Parenthetical | Dialogue

datatype DialoguePart = DialoguePart (part_type: part_type) (part_content: string)

datatype element_type = scene_heading | action | dialogue_block | transition

record SceneElement =
  type :: element_type
  content :: "string option"
  character :: "string option"
  elements :: "DialoguePart list option"

record Script =
  title :: string
  scene_elements :: "SceneElement list"

text \<open>What a \<open>throw\<close> carries: a \<open>TypeError\<close> of the runtime, or \<open>new Error(message)\<close>.\<close>

datatype error = TypeError | Error string

text \<open>
  \<open>e instanceof Error ? e.message : String(e)\<close>. The message of a \<open>TypeError\<close> is the
  text of the runtime, for which one text stands here.
\<close>

definition error_message :: "error \<Rightarrow> string" where
  "error_message e =
     (case e of Error msg \<Rightarrow> msg | TypeError \<Rightarrow> ''Cannot read properties of undefined'')"

text \<open>
  The object types of the source, with the field names of the source. Where two types
  have a field of the same name the field is written with the name of its type, as in
  \<open>GeneratedImage.sceneIndex\<close>. A variable of the source that has the name of a field
  is written otherwise: \<open>scene\<close> for the parameter \<open>sceneIndex\<close> of
  \<open>getDialogueForScene\<close>, \<open>nm\<close> for \<open>name\<close>, \<open>n\<close> for a total. The \<open>source_file\<close> of a
  script, which no stage reads, is left out.
\<close>

record TextFile =
  name :: string
  content :: string

record StoryElements =
  characters :: string
  story :: string
  today :: string

record AnalyzedCharacter =
  name :: string
  gender :: string
  race :: "string option"
  voiceDescription :: "string option"
  otherDescriptors :: "string option"

record ImageData =
  base64 :: string
  mimeType :: string

record CharacterImage = ImageData +
  fileName :: string

record GeneratedCharacterPortrait = ImageData +
  prompt :: string

text \<open>
  An entry of \<open>allAvailableCharacterImages\<close>, of which the pipeline reads \<open>name\<close>,
  \<open>base64\<close> and \<open>mimeType\<close>. An object used as a dictionary is an association list in
  the order in which \<open>Object.keys\<close> enumerates it.
\<close>

record ReferenceImage = ImageData +
  name :: string

type_synonym references = "(string \<times> ReferenceImage) list"

record CohesivePrompt =
  sceneIndex :: nat
  prompt :: string
  characters :: "string list"

record GeneratedImage =
  sceneIndex :: nat
  imageUrl :: string
  base64 :: string
  prompt :: string

record ImageGenResult =
  imageBase64 :: "string option"
  finalPrompt :: string
  wasRewritten :: bool

record DialogueInput =
  character :: string
  originalDialogue :: string
  isDuplicate :: bool

record HS3000Line =
  character :: string
  dialogue :: string

record DialogueMatch =
  character :: string
  dialogue :: string
  elementIndex :: nat

section \<open>Strings\<close>

text \<open>
  A JavaScript string is modelled as a \<^typ>\<open>string\<close>, one \<^typ>\<open>char\<close> per code unit;
  \<open>length\<close> is \<open>.length\<close> and \<open>s ! i\<close> is \<open>s[i]\<close>. Case conversion is modelled on the
  ASCII letters, the text the pipeline handles; other code units are left as they are.
  The functions of this development that compare code units only
  (\<open>levenshteinDistance\<close>) are polymorphic in the code-unit type.
\<close>

definition upper_letters :: string where
  "upper_letters = ''ABCDEFGHIJKLMNOPQRSTUVWXYZ''"

definition lower_letters :: string where
  "lower_letters = ''abcdefghijklmnopqrstuvwxyz''"

definition digits :: string where
  "digits = ''0123456789''"

definition lower_char :: "char \<Rightarrow> char" where
  "lower_char c = (case map_of (zip upper_letters lower_letters) c of Some d \<Rightarrow> d | None \<Rightarrow> c)"

definition upper_char :: "char \<Rightarrow> char" where
  "upper_char c = (case map_of (zip lower_letters upper_letters) c of Some d \<Rightarrow> d | None \<Rightarrow> c)"

definition toLowerCase :: "string \<Rightarrow> string" where
  "toLowerCase s = map lower_char s"

definition toUpperCase :: "string \<Rightarrow> string" where
  "toUpperCase s = map upper_char s"

text \<open>\<open>s.trim()\<close>, on the white space of the ASCII range and the no-break space.\<close>

definition white_space :: string where
  "white_space = [CHR 0x09, CHR 0x0A, CHR 0x0B, CHR 0x0C, CHR 0x0D, CHR 0x20, CHR 0xA0]"

definition trim :: "string \<Rightarrow> string" where
  "trim s = rev (dropWhile (\<lambda>c. c \<in> set white_space) (rev (dropWhile (\<lambda>c. c \<in> set white_space) s)))"

text \<open>\<open>s.includes(t)\<close>: \<open>t\<close> occurs in \<open>s\<close> as a contiguous run of code units.\<close>

fun starts_with :: "'a list \<Rightarrow> 'a list \<Rightarrow> bool" where
  "starts_with s [] = True"
| "starts_with [] (y # t) = False"
| "starts_with (x # s) (y # t) = (x = y \<and> starts_with s t)"

fun string_includes :: "'a list \<Rightarrow> 'a list \<Rightarrow> bool" where
  "string_includes [] t = (t = [])"
| "string_includes (x # s) t = (starts_with (x # s) t \<or> string_includes s t)"

section \<open>Edit-distance matcher: \<open>levenshteinDistance\<close> (src/App.tsx)\<close>

text \<open>
  The source allocates a \<open>(bn + 1) \<times> (an + 1)\<close> table \<open>matrix[j][i]\<close> filled with
  \<open>null\<close>, writes row \<open>0\<close> and column \<open>0\<close>, then fills the remaining cells row by row and
  returns \<open>matrix[bn][an]\<close>. The table is a list of rows; the two initialising loops and the
  nested filling loops are folds over their index ranges. No cell is read before it has
  been written, so the initial \<open>null\<close> is represented by \<open>0\<close>.
\<close>

definition cell :: "nat list list \<Rightarrow> nat \<Rightarrow> nat \<Rightarrow> nat" where
  "cell matrix j i = matrix ! j ! i"

definition set_cell :: "nat list list \<Rightarrow> nat \<Rightarrow> nat \<Rightarrow> nat \<Rightarrow> nat list list" where
  "set_cell matrix j i v = matrix[j := (matrix ! j)[i := v]]"

definition substitutionCost :: "'a list \<Rightarrow> 'a list \<Rightarrow> nat \<Rightarrow> nat \<Rightarrow> nat" where
  "substitutionCost a b i j = (if a ! (i - 1) = b ! (j - 1) then 0 else 1)"

definition fill_cell :: "'a list \<Rightarrow> 'a list \<Rightarrow> nat \<Rightarrow> nat \<Rightarrow> nat list list \<Rightarrow> nat list list" where
  "fill_cell a b j i matrix =
     set_cell matrix j i
       (min (min (cell matrix j (i - 1) + 1) (cell matrix (j - 1) i + 1))
            (cell matrix (j - 1) (i - 1) + substitutionCost a b i j))"

definition fill_row :: "'a list \<Rightarrow> 'a list \<Rightarrow> nat \<Rightarrow> nat list list \<Rightarrow> nat list list" where
  "fill_row a b j matrix = fold (fill_cell a b j) [1..<Suc (length a)] matrix"

definition levenshteinDistance :: "'a list \<Rightarrow> 'a list \<Rightarrow> nat" where
  "levenshteinDistance a b =
     (let an = length a; bn = length b in
      if an = 0 then bn
      else if bn = 0 then an
      else
        let matrix0 = replicate (bn + 1) (replicate (an + 1) 0);
            matrix1 = fold (\<lambda>i m. set_cell m 0 i i) [0..<Suc an] matrix0;
            matrix2 = fold (\<lambda>j m. set_cell m j 0 j) [0..<Suc bn] matrix1;
            matrix3 = fold (fill_row a b) [1..<Suc bn] matrix2
        in cell matrix3 bn an)"

subsection \<open>What the distance is measured against\<close>

text \<open>
  One single-character edit: an insertion, a deletion or a substitution of one code unit
  at any position of the string. \<open>(edit1 ^^ n) a b\<close> says that \<open>n\<close> such edits turn \<open>a\<close>
  into \<open>b\<close>.
\<close>

inductive edit1 :: "'a list \<Rightarrow> 'a list \<Rightarrow> bool" where
  insertion: "edit1 xs (c # xs)"
| deletion: "edit1 (c # xs) xs"
| substitution: "c \<noteq> d \<Longrightarrow> edit1 (c # xs) (d # xs)"
| later: "edit1 xs ys \<Longrightarrow> edit1 (c # xs) (c # ys)"

code_pred edit1 .

text \<open>The textbook recurrence, read from the front of the strings; used in the proofs only.\<close>

fun lev :: "'a list \<Rightarrow> 'a list \<Rightarrow> nat" where
  "lev [] ys = length ys"
| "lev xs [] = length xs"
| "lev (x # xs) (y # ys) =
     min (min (lev xs (y # ys) + 1) (lev (x # xs) ys + 1))
         (lev xs ys + (if x = y then 0 else 1))"

definition prefix_distance :: "'a list \<Rightarrow> 'a list \<Rightarrow> nat \<Rightarrow> nat \<Rightarrow> nat" where
  "prefix_distance a b i j = lev (rev (take i a)) (rev (take j b))"

text \<open>
  The loop invariant of the table: it has its shape, and every cell selected by \<open>K\<close> holds
  the distance between the two prefixes it stands for.
\<close>

definition filled :: "'a list \<Rightarrow> 'a list \<Rightarrow> (nat \<Rightarrow> nat \<Rightarrow> bool) \<Rightarrow> nat list list \<Rightarrow> bool" where
  "filled a b K m \<longleftrightarrow>
     length m = Suc (length b) \<and> (\<forall>j \<le> length b. length (m ! j) = Suc (length a)) \<and>
     (\<forall>j i. j \<le> length b \<longrightarrow> i \<le> length a \<longrightarrow> K j i \<longrightarrow> cell m j i = prefix_distance a b i j)"

section \<open>Character reference resolver (src/App.tsx, \<open>handleGenerate\<close>, lines 394-431)\<close>

text \<open>\<open>name.toLowerCase().replace(/[^a-z0-9]/g, '')\<close>\<close>

definition normalizeForMatch :: "string \<Rightarrow> string" where
  "normalizeForMatch nm = filter (\<lambda>c. c \<in> set (lower_letters @ digits)) (toLowerCase nm)"

text \<open>
  The inner loop over \<open>Object.keys(allAvailableCharacterImages)\<close>, carrying
  \<open>(bestMatchKey, minDistance)\<close>, which start as \<open>(null, Infinity)\<close>.
\<close>

definition consider_key :: "string \<Rightarrow> string \<Rightarrow> string option \<times> enat \<Rightarrow> string option \<times> enat" where
  "consider_key normalizedCharName key best =
     (let normalizedKey = normalizeForMatch key;
          distance = levenshteinDistance normalizedCharName normalizedKey
      in if enat distance < snd best then (Some key, enat distance) else best)"

definition best_match :: "string \<Rightarrow> string list \<Rightarrow> string option \<times> enat" where
  "best_match normalizedCharName keys = fold (consider_key normalizedCharName) keys (None, \<infinity>)"

text \<open>
  The acceptance test \<open>bestMatchKey && minDistance / Math.max(...) < 0.5\<close>. The quotient of
  two string lengths is below one half exactly when twice the distance is below the
  divisor, which is at least the length of the non-empty normalised name. A key that is
  the empty string is falsy.
\<close>

definition accepted :: "string \<Rightarrow> string option \<times> enat \<Rightarrow> (string \<times> nat) option" where
  "accepted normalizedCharName best =
     (case best of
        (Some bestMatchKey, enat minDistance) \<Rightarrow>
          if bestMatchKey \<noteq> [] \<and>
             2 * minDistance < max (length normalizedCharName) (length (normalizeForMatch bestMatchKey))
          then Some (bestMatchKey, minDistance) else None
      | _ \<Rightarrow> None)"

text \<open>
  One pass of the loop over \<open>charactersInPrompt\<close>: the key whose image is pushed onto
  \<open>characterImagesForGen\<close> together with the distance logged, or \<open>None\<close> when the pass
  pushes nothing. The first branch is the \<open>continue\<close>.
\<close>

definition resolve_key :: "references \<Rightarrow> string \<Rightarrow> (string \<times> nat) option" where
  "resolve_key allAvailableCharacterImages charName =
     (let normalizedCharName = normalizeForMatch charName in
      if normalizedCharName = [] \<or> length (map fst allAvailableCharacterImages) = 0 then None
      else accepted normalizedCharName
             (best_match normalizedCharName (map fst allAvailableCharacterImages)))"

definition resolve_character :: "references \<Rightarrow> string \<Rightarrow> ReferenceImage option" where
  "resolve_character allAvailableCharacterImages charName =
     (case resolve_key allAvailableCharacterImages charName of
        None \<Rightarrow> None
      | Some (bestMatchKey, minDistance) \<Rightarrow> map_of allAvailableCharacterImages bestMatchKey)"

text \<open>\<open>characterImagesForGen\<close> after the loop over \<open>charactersInPrompt\<close>.\<close>

definition characterImagesForGen :: "references \<Rightarrow> string list \<Rightarrow> ReferenceImage list" where
  "characterImagesForGen allAvailableCharacterImages charactersInPrompt =
     List.map_filter (resolve_character allAvailableCharacterImages) charactersInPrompt"

subsection \<open>The terms in which the resolver is stated\<close>

text \<open>The distance of the normalised name to the normalised key at a position.\<close>

definition key_distance :: "string \<Rightarrow> string list \<Rightarrow> nat \<Rightarrow> nat" where
  "key_distance q keys j =
     levenshteinDistance (normalizeForMatch q) (normalizeForMatch (keys ! j))"

text \<open>
  \<open>first_nearest q keys i\<close>: the key at position \<open>i\<close> has the least distance to the name,
  and every key before it is strictly farther.
\<close>

definition first_nearest :: "string \<Rightarrow> string list \<Rightarrow> nat \<Rightarrow> bool" where
  "first_nearest q keys i \<longleftrightarrow>
     i < length keys \<and> (\<forall>j < length keys. key_distance q keys i \<le> key_distance q keys j) \<and>
     (\<forall>j < i. key_distance q keys i < key_distance q keys j)"

text \<open>The reference set of the examples.\<close>

definition example_references :: references where
  "example_references =
     [(''jane'', \<lparr>ImageData.base64 = ''anVuZQ=='', mimeType = ''image/png'', ReferenceImage.name = ''jane''\<rparr>),
      (''john'', \<lparr>ImageData.base64 = ''am9obg=='', mimeType = ''image/jpeg'', ReferenceImage.name = ''john''\<rparr>)]"

section \<open>The script and the dialogue associator (src/App.tsx, \<open>getDialogueForScene\<close>)\<close>

text \<open>\<open>dBlock.elements.find(e => e.type === 'dialogue')?.content\<close>\<close>

definition spoken :: "DialoguePart list \<Rightarrow> string option" where
  "spoken elems = map_option part_content (find (\<lambda>e. part_type e = Dialogue) elems)"

text \<open>
  The body shared by the two loops, at element \<open>el\<close> of position \<open>j\<close>: \<open>break\<close> at a scene
  heading, \<open>return\<close> at a dialogue block whose \<open>spoken\<close> is truthy, go on otherwise. At a
  dialogue block without \<open>elements\<close> the call \<open>dBlock.elements.find\<close> throws; at one
  whose \<open>spoken\<close> is truthy and that has no \<open>character\<close>, \<open>dBlock.character.toUpperCase\<close>
  throws.
\<close>

datatype probe = Boundary | Match DialogueMatch | Skip

definition probe_element :: "SceneElement \<Rightarrow> nat \<Rightarrow> error + probe" where
  "probe_element el j =
     (if SceneElement.type el = scene_heading then Inr Boundary
      else if SceneElement.type el = dialogue_block then
        (case elements el of
           None \<Rightarrow> Inl TypeError
         | Some elems \<Rightarrow>
             (case spoken elems of
                Some text \<Rightarrow>
                  if text \<noteq> [] then
                    (case SceneElement.character el of
                       None \<Rightarrow> Inl TypeError
                     | Some speaker \<Rightarrow>
                         Inr (Match \<lparr>DialogueMatch.character = toUpperCase speaker,
                                     DialogueMatch.dialogue = text, elementIndex = j\<rparr>))
                  else Inr Skip
              | None \<Rightarrow> Inr Skip))
      else Inr Skip)"

text \<open>\<open>for (let j = sceneIndex + 1; j < script.scene_elements.length; j++)\<close>, entered at \<open>j\<close>.\<close>

function forward_scan :: "Script \<Rightarrow> nat \<Rightarrow> error + DialogueMatch option" where
  "forward_scan script j =
     (if j < length (scene_elements script) then
        (case probe_element (scene_elements script ! j) j of
           Inl e \<Rightarrow> Inl e
         | Inr Boundary \<Rightarrow> Inr None
         | Inr (Match m) \<Rightarrow> Inr (Some m)
         | Inr Skip \<Rightarrow> forward_scan script (j + 1))
      else Inr None)"
  by pat_completeness auto
termination
  by (relation "measure (\<lambda>(script, j). length (scene_elements script) - j)") auto

text \<open>
  \<open>for (let j = sceneIndex - 1; j >= 0; j--)\<close>; the argument is \<open>j + 1\<close>. Reading
  \<open>el.type\<close> of a position beyond the end throws.
\<close>

fun backward_scan :: "Script \<Rightarrow> nat \<Rightarrow> error + DialogueMatch option" where
  "backward_scan script 0 = Inr None"
| "backward_scan script (Suc j) =
     (if j < length (scene_elements script) then
        (case probe_element (scene_elements script ! j) j of
           Inl e \<Rightarrow> Inl e
         | Inr Boundary \<Rightarrow> Inr None
         | Inr (Match m) \<Rightarrow> Inr (Some m)
         | Inr Skip \<Rightarrow> backward_scan script j)
      else Inl TypeError)"

definition getDialogueForScene :: "nat \<Rightarrow> Script \<Rightarrow> error + DialogueMatch option" where
  "getDialogueForScene scene script =
     (case forward_scan script (scene + 1) of
        Inl e \<Rightarrow> Inl e
      | Inr (Some m) \<Rightarrow> Inr (Some m)
      | Inr None \<Rightarrow> backward_scan script scene)"

text \<open>The predicates in which the association is stated.\<close>

definition is_scene_heading :: "SceneElement \<Rightarrow> bool" where
  "is_scene_heading el \<longleftrightarrow> SceneElement.type el = scene_heading"

text \<open>The text of the first dialogue-typed part of an element, when it has one that is not empty.\<close>

definition spoken_text :: "SceneElement \<Rightarrow> string option" where
  "spoken_text el =
     (case elements el of
        Some elems \<Rightarrow>
          (case spoken elems of Some text \<Rightarrow> (if text \<noteq> [] then Some text else None) | None \<Rightarrow> None)
      | None \<Rightarrow> None)"

text \<open>
  A dialogue block the source returns at: its first dialogue-typed part has a text, and
  it has a \<open>character\<close>.
\<close>

definition speaks :: "SceneElement \<Rightarrow> bool" where
  "speaks el \<longleftrightarrow>
     SceneElement.type el = dialogue_block \<and> spoken_text el \<noteq> None \<and> SceneElement.character el \<noteq> None"

text \<open>
  A dialogue block the source throws at: it has no \<open>elements\<close>, or its first
  dialogue-typed part has a text and it has no \<open>character\<close>.
\<close>

definition unreadable :: "SceneElement \<Rightarrow> bool" where
  "unreadable el \<longleftrightarrow>
     SceneElement.type el = dialogue_block \<and>
     (elements el = None \<or> spoken_text el \<noteq> None \<and> SceneElement.character el = None)"

definition match_at :: "Script \<Rightarrow> nat \<Rightarrow> DialogueMatch" where
  "match_at script j =
     \<lparr>DialogueMatch.character =
        toUpperCase (case SceneElement.character (scene_elements script ! j) of Some speaker \<Rightarrow> speaker | None \<Rightarrow> []),
      DialogueMatch.dialogue =
        (case spoken_text (scene_elements script ! j) of Some text \<Rightarrow> text | None \<Rightarrow> []),
      elementIndex = j\<rparr>"

subsection \<open>The association as the specification words it\<close>

text \<open>
  The first dialogue block that contains a dialogue-typed part ends the scan in either
  direction, whatever the text of that part; a scene heading ends it without a match.
  The specification takes every dialogue block to have its \<open>character\<close> and its
  \<open>elements\<close>; a block without \<open>elements\<close> contains no part, and the name of a block
  without \<open>character\<close> is taken to be empty.
\<close>

definition specified_probe :: "SceneElement \<Rightarrow> nat \<Rightarrow> probe" where
  "specified_probe el j =
     (if SceneElement.type el = scene_heading then Boundary
      else if SceneElement.type el = dialogue_block then
        (case elements el of
           Some elems \<Rightarrow>
             (case spoken elems of
                Some text \<Rightarrow>
                  Match \<lparr>DialogueMatch.character =
                           toUpperCase (case SceneElement.character el of Some speaker \<Rightarrow> speaker | None \<Rightarrow> []),
                         DialogueMatch.dialogue = text, elementIndex = j\<rparr>
              | None \<Rightarrow> Skip)
         | None \<Rightarrow> Skip)
      else Skip)"

fun specified_scan :: "(nat \<times> SceneElement) list \<Rightarrow> DialogueMatch option" where
  "specified_scan [] = None"
| "specified_scan ((j, el) # rest) =
     (case specified_probe el j of
        Boundary \<Rightarrow> None
      | Match m \<Rightarrow> Some m
      | Skip \<Rightarrow> specified_scan rest)"

definition specified_association :: "nat \<Rightarrow> Script \<Rightarrow> DialogueMatch option" where
  "specified_association scene script =
     (let indexed = zip [0..<length (scene_elements script)] (scene_elements script) in
      case specified_scan (drop (scene + 1) indexed) of
        Some m \<Rightarrow> Some m
      | None \<Rightarrow> specified_scan (rev (take scene indexed)))"

text \<open>
  The elements of the examples: a heading, an action or a transition with its \<open>content\<close>,
  a dialogue block with its \<open>character\<close> and its \<open>elements\<close>.
\<close>

definition heading_of :: "string \<Rightarrow> SceneElement" where
  "heading_of c =
     \<lparr>SceneElement.type = scene_heading, SceneElement.content = Some c,
      SceneElement.character = None, elements = None\<rparr>"

definition action_of :: "string \<Rightarrow> SceneElement" where
  "action_of c =
     \<lparr>SceneElement.type = action, SceneElement.content = Some c,
      SceneElement.character = None, elements = None\<rparr>"

definition block_of :: "string \<Rightarrow> DialoguePart list \<Rightarrow> SceneElement" where
  "block_of speaker elems =
     \<lparr>SceneElement.type = dialogue_block, SceneElement.content = None,
      SceneElement.character = Some speaker, elements = Some elems\<rparr>"

text \<open>The scripts of the examples.\<close>

definition example_script :: Script where
  "example_script =
     \<lparr>title = ''Example'',
      scene_elements =
        [action_of ''She enters.'',
         block_of ''Ann'' [DialoguePart Parenthetical ''(softly)'', DialoguePart Dialogue ''Hello. Anyone?''],
         heading_of ''INT. HALL'',
         action_of ''He waits.'']\<rparr>"

definition silent_script :: Script where
  "silent_script =
     \<lparr>title = ''Silent'',
      scene_elements =
        [action_of ''She enters.'',
         block_of ''Ann'' [DialoguePart Dialogue []],
         block_of ''Bob'' [DialoguePart Dialogue ''Hi.'']]\<rparr>"

text \<open>
  A script whose dialogue block has no \<open>elements\<close>, and one whose dialogue block has no
  \<open>character\<close>; both have the shape of \<open>scriptSchema\<close>.
\<close>

definition no_elements_script :: Script where
  "no_elements_script =
     \<lparr>title = ''No elements'',
      scene_elements =
        [action_of ''She enters.'',
         \<lparr>SceneElement.type = dialogue_block, SceneElement.content = None,
          SceneElement.character = Some ''Ann'', elements = None\<rparr>]\<rparr>"

definition no_character_script :: Script where
  "no_character_script =
     \<lparr>title = ''No character'',
      scene_elements =
        [action_of ''She enters.'',
         \<lparr>SceneElement.type = dialogue_block, SceneElement.content = None,
          SceneElement.character = None, elements = Some [DialoguePart Dialogue ''Hello.'']\<rparr>]\<rparr>"

section \<open>The generative service wrappers (src/services/geminiService.ts)\<close>

text \<open>
  The generative service is outside the program. A request to it ends in one of two
  ways: the promise rejects with an error of some message, or it resolves. For the four
  text requests the reply that resolves is the parsed JSON payload, \<open>None\<close> when
  \<open>response.text\<close> is empty; a reply that \<open>JSON.parse\<close> refuses is a rejection with
  the message of the parser, since the source parses inside the same \<open>try\<close>. The
  payload has the shape of the \<open>responseSchema\<close> sent with the request, and no more is
  taken of it: the source does not check it. A list that the payload lacks is the empty
  list (\<open>parsed.characters || []\<close>). The reply to each request is a parameter of the
  run.
\<close>

datatype 'a reply = Rejects string | Resolves 'a

definition authentication_failed :: string where
  "authentication_failed =
     ''Authentication failed. Please ensure your API key is correct and has the necessary permissions. The server returned a PERMISSION_DENIED error.''"

definition is_authentication_failure :: "string \<Rightarrow> bool" where
  "is_authentication_failure errorMessage \<longleftrightarrow>
     string_includes errorMessage ''PERMISSION_DENIED'' \<or>
     string_includes errorMessage ''API key not valid''"

text \<open>The \<open>catch\<close> block that the four text requests and the image request end with.\<close>

definition rethrow :: "string \<Rightarrow> string \<Rightarrow> error" where
  "rethrow details errorMessage =
     (if is_authentication_failure errorMessage then Error authentication_failed
      else Error (details @ errorMessage))"

definition analyzeStoryInputs :: "StoryElements option reply \<Rightarrow> TextFile list \<Rightarrow> error + StoryElements" where
  "analyzeStoryInputs response files =
     (if length files = 0 then
        Inl (Error ''No text or JSON files were provided to analyze for story elements.'')
      else
        case response of
          Rejects errorMessage \<Rightarrow>
            Inl (rethrow ''Could not analyze uploaded files. The model may have returned an invalid response or the content was insufficient. Details: '' errorMessage)
        | Resolves None \<Rightarrow>
            Inl (rethrow ''Could not analyze uploaded files. The model may have returned an invalid response or the content was insufficient. Details: ''
                   ''The model did not return an analysis.'')
        | Resolves (Some resultJson) \<Rightarrow> Inr resultJson)"

definition generateStory :: "Script option reply \<Rightarrow> error + Script" where
  "generateStory response =
     (case response of
        Rejects errorMessage \<Rightarrow> Inl (rethrow ''Failed to generate script. Details: '' errorMessage)
      | Resolves None \<Rightarrow>
          Inl (rethrow ''Failed to generate script. Details: '' ''The model did not return a script.'')
      | Resolves (Some script) \<Rightarrow> Inr script)"

definition analyzeCharacterDescriptions ::
  "AnalyzedCharacter list option reply \<Rightarrow> error + AnalyzedCharacter list" where
  "analyzeCharacterDescriptions response =
     (case response of
        Rejects errorMessage \<Rightarrow>
          Inl (rethrow ''Could not analyze character descriptions. Details: '' errorMessage)
      | Resolves None \<Rightarrow>
          Inl (rethrow ''Could not analyze character descriptions. Details: ''
                 ''The model did not return any character analysis.'')
      | Resolves (Some parsed) \<Rightarrow> Inr parsed)"

definition generateCohesiveImagePrompts ::
  "CohesivePrompt list option reply \<Rightarrow> error + CohesivePrompt list" where
  "generateCohesiveImagePrompts response =
     (case response of
        Rejects errorMessage \<Rightarrow>
          Inl (rethrow ''Failed to generate cohesive image prompts. Details: '' errorMessage)
      | Resolves None \<Rightarrow>
          Inl (rethrow ''Failed to generate cohesive image prompts. Details: ''
                 ''The model did not return cohesive prompts.'')
      | Resolves (Some parsed) \<Rightarrow> Inr parsed)"

subsection \<open>\<open>generateImage\<close>\<close>

text \<open>
  The parts of an image request and of a candidate of its response. Of a candidate the
  source reads \<open>candidate.content.parts\<close>, which is \<open>None\<close> here when the candidate has
  no \<open>content\<close> or the content no \<open>parts\<close>, and the \<open>blocked\<close> flags of
  \<open>candidate.safetyRatings\<close>. The image service is a function of the parts sent.
\<close>

datatype Part = Text string | InlineData string string

record Candidate =
  content_parts :: "Part list option"
  safetyRatings :: "bool list"

type_synonym image_service = "Part list \<Rightarrow> Candidate list reply"

fun join :: "string \<Rightarrow> string list \<Rightarrow> string" where
  "join separator [] = []"
| "join separator [x] = x"
| "join separator (x # y # ys) = x @ separator @ join separator (y # ys)"

text \<open>The loop over \<open>candidate.content.parts\<close>: the first inline data that is not empty.\<close>

fun first_inline_data :: "Part list \<Rightarrow> string option" where
  "first_inline_data [] = None"
| "first_inline_data (InlineData d m # ps) = (if d \<noteq> [] then Some d else first_inline_data ps)"
| "first_inline_data (Text t # ps) = first_inline_data ps"

text \<open>
  \<open>finalPrompt\<close>: \<open>Style: \<close>, then \<open>style || 'cinematic, photorealistic'\<close>, a full stop and a
  space, then the prompt.
\<close>

definition final_prompt :: "string \<Rightarrow> string \<Rightarrow> string" where
  "final_prompt style imagePrompt =
     ''Style: '' @ (if style \<noteq> [] then style else ''cinematic, photorealistic'') @ ''. '' @ imagePrompt"

text \<open>
  The \<open>parts\<close> of the request: the prompt; then, when there are character images, the
  instruction that names them and the images; then, when \<open>previousImageBase64\<close> is
  truthy, the instruction of continuity and that image.
\<close>

definition request_parts :: "string \<Rightarrow> ReferenceImage list \<Rightarrow> string option \<Rightarrow> Part list" where
  "request_parts final characterImages previousImageBase64 =
     [Text final]
     @ (if length characterImages > 0 then
          Text (''\<newline>\<newline>[INSTRUCTIONS] Use the following provided images as a strong visual reference for the characters named: ''
                @ join '', '' (map ReferenceImage.name characterImages) @ ''. Maintain their appearance.'')
          # map (\<lambda>img. InlineData (ImageData.base64 img) (mimeType img)) characterImages
        else [])
     @ (case previousImageBase64 of
          Some previous \<Rightarrow>
            if previous \<noteq> [] then
              [Text ''\<newline>\<newline>[INSTRUCTIONS] Use the following image as a reference for visual continuity from the previous scene.'',
               InlineData previous ''image/png'']
            else []
        | None \<Rightarrow> [])"

text \<open>
  \<open>generateImage\<close> makes one request, with the parts built from its arguments, and
  answers from the reply to it. \<open>attempt\<close> is the \<open>try\<close> block, in which the rejection of
  the request and the reading of a candidate without parts throw; the rest is the
  \<open>catch\<close> block.
\<close>

definition generateImage ::
  "image_service \<Rightarrow> string \<Rightarrow> ReferenceImage list \<Rightarrow> string option \<Rightarrow> string \<Rightarrow> error + ImageGenResult" where
  "generateImage service imagePrompt characterImages previousImageBase64 style =
     (let final = final_prompt style imagePrompt;
          attempt =
            (case service (request_parts final characterImages previousImageBase64) of
               Resolves candidates \<Rightarrow>
                 (case candidates of
                    candidate # others \<Rightarrow>
                      (case content_parts candidate of
                         Some ps \<Rightarrow>
                           Inr \<lparr>imageBase64 = first_inline_data ps, finalPrompt = final,
                                wasRewritten = (True \<in> set (safetyRatings candidate))\<rparr>
                       | None \<Rightarrow> Inl TypeError)
                  | [] \<Rightarrow> Inr \<lparr>imageBase64 = None, finalPrompt = final, wasRewritten = True\<rparr>)
             | Rejects msg \<Rightarrow> Inl (Error msg))
      in case attempt of
           Inr result \<Rightarrow> Inr result
         | Inl thrown \<Rightarrow>
             (let errorMessage = error_message thrown in
              if string_includes errorMessage ''SAFETY'' then
                Inr \<lparr>imageBase64 = None, finalPrompt = final, wasRewritten = True\<rparr>
              else Inl (rethrow ''Failed to generate image. Details: '' errorMessage)))"

subsection \<open>\<open>generateHS3000Dialogue\<close>\<close>

text \<open>\<open>i.originalDialogue.split(/[.!?]/)[0] + "."\<close>\<close>

definition first_sentence :: "string \<Rightarrow> string" where
  "first_sentence original = takeWhile (\<lambda>c. c \<notin> set ''.!?'') original @ ''.''"

definition generateHS3000Dialogue :: "HS3000Line list option reply \<Rightarrow> DialogueInput list \<Rightarrow> HS3000Line list" where
  "generateHS3000Dialogue response inputs =
     (case response of
        Resolves (Some parsed) \<Rightarrow> parsed
      | _ \<Rightarrow>
          map (\<lambda>i. \<lparr>HS3000Line.character = DialogueInput.character i,
                     HS3000Line.dialogue = first_sentence (originalDialogue i)\<rparr>) inputs)"

section \<open>The pipeline orchestrator (src/App.tsx, \<open>handleGenerate\<close>)\<close>

subsection \<open>The report\<close>

text \<open>
  The source builds the report as one string, by appending. The report is modelled as the
  list of the pieces appended, one constructor for each \<open>report += ...\<close> of the source
  with the values interpolated into it; every piece is a non-empty text, and the empty
  string is the empty list.
\<close>

record ImageLog =
  imageNumber :: nat
  imageCount :: nat
  sceneIndex :: nat
  sourceAction :: string
  cohesivePrompt :: string
  characterImagesUsed :: "(string \<times> string \<times> nat) list"
  previousSceneUsed :: bool
  finalPromptSent :: string
  rewrittenForSafety :: bool
  generationSucceeded :: bool

datatype report_entry =
    ReportHeader
  | GenerationDate string
  | DefaultPromptNote
  | SourceFiles "string list"
  | NoContextFiles
  | StyleFileNote string
  | StylePromptEntry string
  | UploadedCharacters "string list"
  | StoryAnalysis StoryElements string
  | ScriptGenerationPrompt StoryElements "string list" string
  | ScriptGenerated
  | CharacterAnalysisHeader
  | CharacterAnalysisResult "AnalyzedCharacter list"
  | PortraitGenerationHeader
  | PortraitEntry nat string string bool
  | PortraitFailed nat string string
  | SceneLogHeader
  | SceneLimitNote nat
  | ImageEntry ImageLog
  | ImageFailed nat nat nat string
  | DialogueGenerated "HS3000Line list"
  | GenerationFailed string

subsection \<open>Objects used as dictionaries\<close>

text \<open>
  \<open>characterImages\<close>, \<open>newPortraits\<close> and \<open>allAvailableCharacterImages\<close> are plain objects.
  Such an object is the list of its own properties, in the order in which \<open>Object.keys\<close>
  and \<open>Object.entries\<close> enumerate them: the keys that are array indices first, in
  ascending order, then the other keys in the order in which they were created. An array
  index is the decimal numeral, without leading zero, of a number below \<open>2^32 - 1\<close>.
\<close>

definition digit_value :: "char \<Rightarrow> nat" where
  "digit_value c = length (takeWhile (\<lambda>d. d \<noteq> c) digits)"

text \<open>The order of two numerals of the same length, and of two numerals without leading zero.\<close>

fun digits_less :: "string \<Rightarrow> string \<Rightarrow> bool" where
  "digits_less (c # cs) (d # ds) \<longleftrightarrow> digit_value c < digit_value d \<or> c = d \<and> digits_less cs ds"
| "digits_less cs ds \<longleftrightarrow> False"

definition index_less :: "string \<Rightarrow> string \<Rightarrow> bool" where
  "index_less a b \<longleftrightarrow> length a < length b \<or> length a = length b \<and> digits_less a b"

definition is_array_index :: "string \<Rightarrow> bool" where
  "is_array_index key \<longleftrightarrow>
     key \<noteq> [] \<and> list_all (\<lambda>c. c \<in> set digits) key \<and> (key = ''0'' \<or> hd key \<noteq> CHR ''0'') \<and>
     index_less key ''4294967295''"

text \<open>
  Reading \<open>obj[key]\<close> finds the own property of that key or else the property that the
  object inherits from \<open>Object.prototype\<close>; every value stored and every value inherited
  is truthy.
\<close>

definition Object_prototype_keys :: "string list" where
  "Object_prototype_keys =
     [''constructor'', ''__proto__'', ''hasOwnProperty'', ''isPrototypeOf'', ''propertyIsEnumerable'',
      ''toLocaleString'', ''toString'', ''valueOf'', ''__defineGetter__'', ''__defineSetter__'',
      ''__lookupGetter__'', ''__lookupSetter__'']"

definition has_property :: "(string \<times> 'v) list \<Rightarrow> string \<Rightarrow> bool" where
  "has_property obj key \<longleftrightarrow> key \<in> set (map fst obj) \<or> key \<in> set Object_prototype_keys"

text \<open>The place of a new array index among the keys: after the array indices below it.\<close>

fun insert_index :: "string \<Rightarrow> 'v \<Rightarrow> (string \<times> 'v) list \<Rightarrow> (string \<times> 'v) list" where
  "insert_index key v [] = [(key, v)]"
| "insert_index key v (kw # rest) =
     (if is_array_index (fst kw) \<and> index_less (fst kw) key
      then kw # insert_index key v rest
      else (key, v) # kw # rest)"

text \<open>
  \<open>obj[key] = value\<close>, for a value that is an object: the value of a key that the object
  has is replaced in its place; a new key is created as a property. The key \<open>__proto__\<close>
  is the accessor of \<open>Object.prototype\<close>: the assignment changes the prototype of the
  object and gives it no property.
\<close>

definition assign :: "string \<Rightarrow> 'v \<Rightarrow> (string \<times> 'v) list \<Rightarrow> (string \<times> 'v) list" where
  "assign key v obj =
     (if key = ''__proto__'' then obj
      else if key \<in> set (map fst obj) then AList.update key v obj
      else if is_array_index key then insert_index key v obj
      else obj @ [(key, v)])"

subsection \<open>Character portraits\<close>

text \<open>\<open>[char.race, char.gender, char.voiceDescription, char.otherDescriptors].filter(Boolean)\<close>\<close>

definition truthy_strings :: "string option list \<Rightarrow> string list" where
  "truthy_strings xs = concat (map (\<lambda>x. case x of Some s \<Rightarrow> (if s \<noteq> [] then [s] else []) | None \<Rightarrow> []) xs)"

definition portraitPrompt :: "AnalyzedCharacter \<Rightarrow> string" where
  "portraitPrompt char =
     ''Photorealistic, cinematic, full body portrait of a character named '' @ AnalyzedCharacter.name char
     @ ''. Description: ''
     @ join '', '' (truthy_strings [race char, Some (gender char), voiceDescription char, otherDescriptors char])
     @ ''.''"

text \<open>
  The body of one portrait request, the \<open>i\<close>-th of \<open>n\<close>, from its reply to its end, on
  \<open>newPortraits\<close> and on the pieces that the stage appends to the report. Every \<open>throw\<close>
  of the request is caught here.
\<close>

definition portrait_iteration ::
  "string \<Rightarrow> (nat \<Rightarrow> image_service) \<Rightarrow> nat \<Rightarrow> nat \<times> AnalyzedCharacter \<Rightarrow>
   (string \<times> GeneratedCharacterPortrait) list \<times> report_entry list \<Rightarrow>
   (string \<times> GeneratedCharacterPortrait) list \<times> report_entry list" where
  "portrait_iteration finalStylePrompt service n ic acc =
     (let i = fst ic; char = snd ic; newPortraits = fst acc; report = snd acc in
      case generateImage (service i) (portraitPrompt char) [] None finalStylePrompt of
        Inr imageGenResult \<Rightarrow>
          (case imageBase64 imageGenResult of
             Some b \<Rightarrow>
               if b \<noteq> [] then
                 (assign (AnalyzedCharacter.name char)
                    \<lparr>ImageData.base64 = b, mimeType = ''image/png'',
                     GeneratedCharacterPortrait.prompt = finalPrompt imageGenResult\<rparr> newPortraits,
                  report @ [PortraitEntry (i + 1) (AnalyzedCharacter.name char) (finalPrompt imageGenResult) True])
               else
                 (newPortraits,
                  report @ [PortraitEntry (i + 1) (AnalyzedCharacter.name char) (finalPrompt imageGenResult) False])
           | None \<Rightarrow>
               (newPortraits,
                report @ [PortraitEntry (i + 1) (AnalyzedCharacter.name char) (finalPrompt imageGenResult) False]))
      | Inl e \<Rightarrow>
          (newPortraits, report @ [PortraitFailed (i + 1) (AnalyzedCharacter.name char) (error_message e)]))"

text \<open>
  \<open>charactersToGenerate.map(async ...)\<close> and \<open>Promise.all\<close>: the requests are issued
  together, in the order of the characters, and the body of each runs when its reply
  arrives, from the reply to its end without suspension. \<open>arrival i\<close> is the time at
  which the reply to request \<open>i\<close> arrives; the bodies run in the order of these times,
  those of replies that arrive together in the order of the requests.
\<close>

definition generate_portraits ::
  "string \<Rightarrow> (nat \<Rightarrow> image_service) \<Rightarrow> (nat \<Rightarrow> nat) \<Rightarrow> AnalyzedCharacter list \<Rightarrow>
   (string \<times> GeneratedCharacterPortrait) list \<times> report_entry list" where
  "generate_portraits finalStylePrompt service arrival charactersToGenerate =
     fold (portrait_iteration finalStylePrompt service (length charactersToGenerate))
       (sort_key (\<lambda>ic. arrival (fst ic)) (zip [0..<length charactersToGenerate] charactersToGenerate))
       ([], [])"

text \<open>\<open>allAvailableCharacterImages\<close>: the uploaded images, then the new portraits.\<close>

definition all_available ::
  "(string \<times> CharacterImage) list \<Rightarrow> (string \<times> GeneratedCharacterPortrait) list \<Rightarrow> references" where
  "all_available uploaded newPortraits =
     fold (\<lambda>kv all. assign (toLowerCase (fst kv))
             \<lparr>ImageData.base64 = ImageData.base64 (snd kv), mimeType = mimeType (snd kv),
              ReferenceImage.name = fst kv\<rparr> all)
       newPortraits
       (fold (\<lambda>kv all. assign (toLowerCase (fst kv))
                \<lparr>ImageData.base64 = ImageData.base64 (snd kv), mimeType = mimeType (snd kv),
                 ReferenceImage.name = fst kv\<rparr> all)
          uploaded [])"

subsection \<open>The continuity chain: scene images\<close>

text \<open>
  The state of the loop over \<open>cohesivePrompts\<close>: \<open>previousImageBase64\<close>,
  \<open>finalGeneratedImages\<close> and the pieces appended to the report. \<open>requests\<close> is not a
  variable of the source: it records the arguments of each call of \<open>generateImage\<close>, in
  the order of the calls.
\<close>

record ImageCall =
  imagePromptText :: string
  characterImagesSent :: "ReferenceImage list"
  continuityReference :: "string option"

record ChainState =
  previousImageBase64 :: "string option"
  finalGeneratedImages :: "GeneratedImage list"
  imageReports :: "report_entry list"
  requests :: "ImageCall list"

definition characterImagesUsedLog :: "references \<Rightarrow> string list \<Rightarrow> (string \<times> string \<times> nat) list" where
  "characterImagesUsedLog allAvailableCharacterImages charactersInPrompt =
     List.map_filter
       (\<lambda>charName.
          case resolve_key allAvailableCharacterImages charName of
            None \<Rightarrow> None
          | Some (bestMatchKey, minDistance) \<Rightarrow>
              map_option (\<lambda>matchedImage. (ReferenceImage.name matchedImage, charName, minDistance))
                (map_of allAvailableCharacterImages bestMatchKey))
       charactersInPrompt"

text \<open>\<open>el.content || ''\<close>\<close>

definition content_or_empty :: "SceneElement \<Rightarrow> string" where
  "content_or_empty el = (case SceneElement.content el of Some s \<Rightarrow> s | None \<Rightarrow> [])"

text \<open>
  One pass of the loop, the \<open>i\<close>-th of \<open>n\<close>. When \<open>sceneIndex\<close> is no position of the
  script, \<open>actionElement\<close> is \<open>undefined\<close> and \<open>actionElement.content\<close> throws inside the
  \<open>try\<close>, before any request. Every \<open>throw\<close> is caught in the pass.
\<close>

definition scene_iteration ::
  "Script \<Rightarrow> references \<Rightarrow> string \<Rightarrow> (nat \<Rightarrow> image_service) \<Rightarrow> nat \<Rightarrow> nat \<times> CohesivePrompt \<Rightarrow>
   ChainState \<Rightarrow> ChainState" where
  "scene_iteration script allAvailableCharacterImages finalStylePrompt service n ip st =
     (let i = fst ip; cp = snd ip in
      if CohesivePrompt.sceneIndex cp < length (scene_elements script) then
        let actionContent = content_or_empty (scene_elements script ! CohesivePrompt.sceneIndex cp);
            forGen = characterImagesForGen allAvailableCharacterImages (CohesivePrompt.characters cp);
            call = \<lparr>imagePromptText = CohesivePrompt.prompt cp, characterImagesSent = forGen,
                    continuityReference = previousImageBase64 st\<rparr>
        in case generateImage (service i) (CohesivePrompt.prompt cp) forGen (previousImageBase64 st)
                  finalStylePrompt of
             Inr imageGenResult \<Rightarrow>
               (let succeeded = (case imageBase64 imageGenResult of Some b \<Rightarrow> b \<noteq> [] | None \<Rightarrow> False);
                    imageReport = ImageEntry
                      \<lparr>imageNumber = i + 1, imageCount = n,
                       ImageLog.sceneIndex = CohesivePrompt.sceneIndex cp,
                       sourceAction = actionContent, cohesivePrompt = CohesivePrompt.prompt cp,
                       characterImagesUsed =
                         characterImagesUsedLog allAvailableCharacterImages (CohesivePrompt.characters cp),
                       previousSceneUsed =
                         (case previousImageBase64 st of Some p \<Rightarrow> p \<noteq> [] | None \<Rightarrow> False),
                       finalPromptSent = finalPrompt imageGenResult,
                       rewrittenForSafety = wasRewritten imageGenResult,
                       generationSucceeded = succeeded\<rparr>
                in case imageBase64 imageGenResult of
                     Some b \<Rightarrow>
                       if b \<noteq> [] then
                         st\<lparr>previousImageBase64 := Some b,
                            finalGeneratedImages := finalGeneratedImages st @
                              [\<lparr>GeneratedImage.sceneIndex = CohesivePrompt.sceneIndex cp,
                                imageUrl = ''data:image/png;base64,'' @ b,
                                GeneratedImage.base64 = b,
                                GeneratedImage.prompt = finalPrompt imageGenResult\<rparr>],
                            imageReports := imageReports st @ [imageReport],
                            requests := requests st @ [call]\<rparr>
                       else st\<lparr>imageReports := imageReports st @ [imageReport],
                               requests := requests st @ [call]\<rparr>
                   | None \<Rightarrow> st\<lparr>imageReports := imageReports st @ [imageReport],
                                 requests := requests st @ [call]\<rparr>)
           | Inl e \<Rightarrow>
               st\<lparr>imageReports := imageReports st @
                     [ImageFailed (i + 1) n (CohesivePrompt.sceneIndex cp) (error_message e)],
                  requests := requests st @ [call]\<rparr>
      else
        st\<lparr>imageReports := imageReports st @
              [ImageFailed (i + 1) n (CohesivePrompt.sceneIndex cp) (error_message TypeError)]\<rparr>)"

definition generate_scene_images ::
  "Script \<Rightarrow> references \<Rightarrow> string \<Rightarrow> (nat \<Rightarrow> image_service) \<Rightarrow> CohesivePrompt list \<Rightarrow> ChainState" where
  "generate_scene_images script allAvailableCharacterImages finalStylePrompt service cohesivePrompts =
     fold (scene_iteration script allAvailableCharacterImages finalStylePrompt service (length cohesivePrompts))
       (zip [0..<length cohesivePrompts] cohesivePrompts)
       \<lparr>previousImageBase64 = None, finalGeneratedImages = [], imageReports = [], requests = []\<rparr>"

subsection \<open>Dialogue inputs\<close>

text \<open>
  The loop over \<open>finalGeneratedImages\<close> that builds \<open>dialogueInputs\<close>, carrying
  \<open>seenDialogueIndices\<close>.
\<close>

fun collect_dialogue ::
  "Script \<Rightarrow> GeneratedImage list \<Rightarrow> DialogueInput list \<times> nat set \<Rightarrow>
   error + DialogueInput list \<times> nat set" where
  "collect_dialogue script [] acc = Inr acc"
| "collect_dialogue script (img # imgs) (dialogueInputs, seenDialogueIndices) =
     (case getDialogueForScene (GeneratedImage.sceneIndex img) script of
        Inl e \<Rightarrow> Inl e
      | Inr None \<Rightarrow> collect_dialogue script imgs (dialogueInputs, seenDialogueIndices)
      | Inr (Some diag) \<Rightarrow>
          collect_dialogue script imgs
            (dialogueInputs @
               [\<lparr>DialogueInput.character = DialogueMatch.character diag,
                 originalDialogue = DialogueMatch.dialogue diag,
                 isDuplicate = (elementIndex diag \<in> seenDialogueIndices)\<rparr>],
             insert (elementIndex diag) seenDialogueIndices))"

subsection \<open>\<open>handleGenerate\<close>\<close>

text \<open>
  The run reads the four inputs held in the state of the component and the replies of the
  generative service. The text requests are made once each; the image requests are
  numbered within their stage, and the replies to the portrait requests arrive at the
  times \<open>portrait_arrival\<close>. The prompt texts of the text requests are interpolated
  from values of the run and go to the service only; they are not modelled, except for
  the scenes sent with the request for cohesive prompts.
\<close>

record Inputs =
  textFiles :: "TextFile list"
  characterImages :: "(string \<times> CharacterImage) list"
  stylePrompt :: string
  storyPrompt :: string

record Services =
  currentDate :: string
  analysis_reply :: "StoryElements option reply"
  script_reply :: "Script option reply"
  characters_reply :: "AnalyzedCharacter list option reply"
  portrait_service :: "nat \<Rightarrow> image_service"
  portrait_arrival :: "nat \<Rightarrow> nat"
  prompts_service :: "(nat \<times> string) list \<Rightarrow> CohesivePrompt list option reply"
  scene_service :: "nat \<Rightarrow> image_service"
  dialogue_service :: "DialogueInput list \<Rightarrow> HS3000Line list option reply"

text \<open>The state of the component that the run writes (the status message apart).\<close>

record AppState =
  error :: "string option"
  scriptData :: "Script option"
  generatedImages :: "GeneratedImage list"
  generatedCharacterPortraits :: "(string \<times> GeneratedCharacterPortrait) list"
  generationReport :: "report_entry list"
  generationComplete :: bool
  isReadyForDownload :: bool
  isGenerating :: bool
  hs3000Lines :: "HS3000Line list"

text \<open>The state after the resets that open \<open>handleGenerate\<close>.\<close>

definition initial_state :: AppState where
  "initial_state =
     \<lparr>error = None, scriptData = None, generatedImages = [], generatedCharacterPortraits = [],
      generationReport = [], generationComplete = False, isReadyForDownload = False,
      isGenerating = True, hs3000Lines = []\<rparr>"

text \<open>
  The \<open>try\<close> block, from its end to its beginning. A stage returns \<open>Inl (e, st)\<close> when
  \<open>e\<close> is thrown with the state at \<open>st\<close>; the local \<open>report\<close> is then out of reach.
\<close>

definition dialogue_stage ::
  "Services \<Rightarrow> Script \<Rightarrow> AppState \<Rightarrow> report_entry list \<Rightarrow> ChainState \<Rightarrow> error \<times> AppState + AppState" where
  "dialogue_stage sv script st report chain =
     (let st1 = st\<lparr>generatedImages := generatedImages st @ finalGeneratedImages chain\<rparr>;
          report1 = report @ imageReports chain
      in case collect_dialogue script (finalGeneratedImages chain) ([], {}) of
           Inl e \<Rightarrow> Inl (e, st1)
         | Inr collected \<Rightarrow>
             (let dialogueInputs = fst collected in
              if length dialogueInputs > 0 then
                (let lines = generateHS3000Dialogue (dialogue_service sv dialogueInputs) dialogueInputs
                 in Inr (st1\<lparr>hs3000Lines := lines,
                             generationReport := report1 @ [DialogueGenerated lines],
                             generationComplete := True\<rparr>))
              else Inr (st1\<lparr>generationReport := report1, generationComplete := True\<rparr>)))"

text \<open>The filter \<open>el.type === 'action' && el.content\<close>, on the elements with their positions.\<close>

definition scenesWithAction :: "Script \<Rightarrow> (nat \<times> SceneElement) list" where
  "scenesWithAction script =
     filter (\<lambda>ie. SceneElement.type (snd ie) = action \<and>
                  (case SceneElement.content (snd ie) of Some s \<Rightarrow> s \<noteq> [] | None \<Rightarrow> False))
       (zip [0..<length (scene_elements script)] (scene_elements script))"

definition scenesToGenerate :: "Script \<Rightarrow> (nat \<times> SceneElement) list" where
  "scenesToGenerate script = take 20 (scenesWithAction script)"

text \<open>\<open>[...new Set(xs)]\<close>: the values of \<open>xs\<close> in the order of their first occurrences.\<close>

definition uniq :: "'a list \<Rightarrow> 'a list" where
  "uniq xs = rev (remdups (rev xs))"

text \<open>
  \<open>charactersInScriptDialogue\<close>: the names of the dialogue blocks of the script, which go
  into the prompt of the request for cohesive prompts. At a dialogue block without
  \<open>character\<close>, \<open>character.toUpperCase\<close> throws.
\<close>

definition charactersInScriptDialogue :: "Script \<Rightarrow> error + string list" where
  "charactersInScriptDialogue script =
     (let blocks = filter (\<lambda>el. SceneElement.type el = dialogue_block) (scene_elements script) in
      if list_ex (\<lambda>el. SceneElement.character el = None) blocks then Inl TypeError
      else Inr (uniq (map (\<lambda>el. case SceneElement.character el of
                                     Some speaker \<Rightarrow> trim (toUpperCase speaker) | None \<Rightarrow> [])
                        blocks)))"

definition scenes_stage ::
  "Services \<Rightarrow> Inputs \<Rightarrow> Script \<Rightarrow> (string \<times> GeneratedCharacterPortrait) list \<Rightarrow> string \<Rightarrow>
   AppState \<Rightarrow> report_entry list \<Rightarrow> error \<times> AppState + AppState" where
  "scenes_stage sv inp script newPortraits finalStylePrompt st report =
     (let allAvailableCharacterImages = all_available (characterImages inp) newPortraits;
          report1 = report @ [SceneLogHeader]
                    @ (if length (scenesWithAction script) > 20
                       then [SceneLimitNote (length (scenesWithAction script))] else [])
      in case charactersInScriptDialogue script of
           Inl e \<Rightarrow> Inl (e, st)
         | Inr names \<Rightarrow>
             (case generateCohesiveImagePrompts
                     (prompts_service sv
                        (map (\<lambda>s. (fst s, content_or_empty (snd s))) (scenesToGenerate script))) of
                Inl e \<Rightarrow> Inl (e, st)
              | Inr cohesivePrompts \<Rightarrow>
                  dialogue_stage sv script st report1
                    (generate_scene_images script allAvailableCharacterImages finalStylePrompt
                       (scene_service sv) cohesivePrompts)))"

text \<open>\<open>analyzedCharacters.filter(char => !characterImages[char.name.toLowerCase().trim()])\<close>\<close>

definition charactersToGenerate :: "Inputs \<Rightarrow> AnalyzedCharacter list \<Rightarrow> AnalyzedCharacter list" where
  "charactersToGenerate inp analyzedCharacters =
     filter (\<lambda>char. \<not> has_property (characterImages inp) (trim (toLowerCase (AnalyzedCharacter.name char))))
       analyzedCharacters"

definition portraits_stage ::
  "Services \<Rightarrow> Inputs \<Rightarrow> Script \<Rightarrow> string \<Rightarrow> AppState \<Rightarrow> report_entry list \<Rightarrow>
   AnalyzedCharacter list \<Rightarrow> error \<times> AppState + AppState" where
  "portraits_stage sv inp script finalStylePrompt st report analyzedCharacters =
     (let generated = generate_portraits finalStylePrompt (portrait_service sv) (portrait_arrival sv)
                        (charactersToGenerate inp analyzedCharacters)
      in scenes_stage sv inp script (fst generated) finalStylePrompt
           (st\<lparr>generatedCharacterPortraits := fst generated\<rparr>)
           (report @ [CharacterAnalysisResult analyzedCharacters, PortraitGenerationHeader]
              @ snd generated))"

definition characters_stage ::
  "Services \<Rightarrow> Inputs \<Rightarrow> Script \<Rightarrow> string \<Rightarrow> AppState \<Rightarrow> report_entry list \<Rightarrow>
   error \<times> AppState + AppState" where
  "characters_stage sv inp script finalStylePrompt st report =
     (case analyzeCharacterDescriptions (characters_reply sv) of
        Inl e \<Rightarrow> Inl (e, st)
      | Inr analyzedCharacters \<Rightarrow>
          portraits_stage sv inp script finalStylePrompt st (report @ [CharacterAnalysisHeader])
            analyzedCharacters)"

definition script_stage ::
  "Services \<Rightarrow> Inputs \<Rightarrow> string \<Rightarrow> AppState \<Rightarrow> report_entry list \<Rightarrow> error \<times> AppState + AppState" where
  "script_stage sv inp finalStylePrompt st report =
     (case generateStory (script_reply sv) of
        Inl e \<Rightarrow> Inl (e, st)
      | Inr script \<Rightarrow>
          characters_stage sv inp script finalStylePrompt (st\<lparr>scriptData := Some script\<rparr>)
            (report @ [ScriptGenerated]))"

definition story_elements_stage :: "Services \<Rightarrow> Inputs \<Rightarrow> error + StoryElements" where
  "story_elements_stage sv inp =
     (if length (textFiles inp) > 0 then analyzeStoryInputs (analysis_reply sv) (textFiles inp)
      else Inr \<lparr>StoryElements.characters = ''To be determined by the writer based on the story prompt.'',
                story = ''To be determined by the writer based on the story prompt.'',
                today = ''To be determined by the writer based on the story prompt.''\<rparr>)"

definition final_style_prompt :: "Inputs \<Rightarrow> string" where
  "final_style_prompt inp =
     (case find (\<lambda>f. toLowerCase (TextFile.name f) = ''style.txt'') (textFiles inp) of
        Some styleFile \<Rightarrow> content styleFile
      | None \<Rightarrow> stylePrompt inp)"

definition try_block :: "Services \<Rightarrow> Inputs \<Rightarrow> AppState \<Rightarrow> report_entry list \<Rightarrow> error \<times> AppState + AppState" where
  "try_block sv inp st report =
     (let noInputs = (length (textFiles inp) = 0 \<and> storyPrompt inp = [] \<and> length (characterImages inp) = 0);
          finalStoryPrompt =
            (if noInputs then ''A lone astronaut discovers a strange, glowing artifact on a desolate moon.''
             else storyPrompt inp);
          report1 = report @ (if noInputs then [DefaultPromptNote] else [])
                    @ (if length (textFiles inp) > 0 then [SourceFiles (map TextFile.name (textFiles inp))]
                       else [NoContextFiles])
      in case story_elements_stage sv inp of
           Inl e \<Rightarrow> Inl (e, st)
         | Inr storyElements \<Rightarrow>
             (let styleFile = find (\<lambda>f. toLowerCase (TextFile.name f) = ''style.txt'') (textFiles inp);
                  uploadedCharacterNames = map fst (characterImages inp);
                  report2 = report1
                    @ (case styleFile of Some f \<Rightarrow> [StyleFileNote (content f)]
                       | None \<Rightarrow> (if stylePrompt inp \<noteq> [] then [StylePromptEntry (stylePrompt inp)] else []))
                    @ (if length uploadedCharacterNames > 0 then [UploadedCharacters uploadedCharacterNames] else [])
                    @ [StoryAnalysis storyElements finalStoryPrompt,
                       ScriptGenerationPrompt storyElements uploadedCharacterNames finalStoryPrompt]
              in script_stage sv inp (final_style_prompt inp) st report2))"

text \<open>
  The whole of \<open>handleGenerate\<close>: the resets, the \<open>try\<close> block, the \<open>catch\<close> block, which
  appends to the report held in the state of the component, and \<open>finally\<close>.
\<close>

definition handleGenerate :: "Services \<Rightarrow> Inputs \<Rightarrow> AppState" where
  "handleGenerate sv inp =
     (case try_block sv inp initial_state [ReportHeader, GenerationDate (currentDate sv)] of
        Inr st \<Rightarrow> st\<lparr>isGenerating := False, isReadyForDownload := True\<rparr>
      | Inl thrown \<Rightarrow>
          (let errorMessage = error_message (fst thrown); st = snd thrown in
           st\<lparr>error := Some errorMessage,
              generationReport := generationReport st @ [GenerationFailed errorMessage],
              isGenerating := False, isReadyForDownload := True\<rparr>))"

section \<open>The presentation player (src/unnamed/part_000, \<open>PresentationPlayer\<close>)\<close>

text \<open>
  An item of the storyboard: its \<open>sceneIndex\<close> and the rest of it (an image or an audio),
  then with the \<open>sceneElement\<close> added; \<open>script.scene_elements[item.sceneIndex]\<close> is
  \<open>undefined\<close> beyond the end of the script. \<open>Array.prototype.sort\<close> is stable and the
  comparison \<open>a.sceneIndex - b.sceneIndex\<close> orders by \<open>sceneIndex\<close>; the stable sort by a
  key is \<^const>\<open>sort_key\<close>.
\<close>

record 'a StoryboardInput =
  sceneIndex :: nat
  item :: 'a

record 'a StoryboardItem = "'a StoryboardInput" +
  sceneElement :: "SceneElement option"

definition element_at :: "Script \<Rightarrow> nat \<Rightarrow> SceneElement option" where
  "element_at script i =
     (if i < length (scene_elements script) then Some (scene_elements script ! i) else None)"

definition storyboardItems :: "'a StoryboardInput list \<Rightarrow> Script \<Rightarrow> 'a StoryboardItem list" where
  "storyboardItems initialItems script =
     sort_key StoryboardInput.sceneIndex
       (map (\<lambda>it. \<lparr>StoryboardInput.sceneIndex = StoryboardInput.sceneIndex it, item = item it,
                    sceneElement = element_at script (StoryboardInput.sceneIndex it)\<rparr>)
          initialItems)"

section \<open>Terms and examples of the statements on the pipeline\<close>

subsection \<open>The terms in which the duplicate flags are stated\<close>

text \<open>The associations of the generated images that have one, in the order of the images.\<close>

definition associations :: "Script \<Rightarrow> GeneratedImage list \<Rightarrow> DialogueMatch list" where
  "associations script images =
     List.map_filter
       (\<lambda>img. case getDialogueForScene (GeneratedImage.sceneIndex img) script of
                 Inr (Some diag) \<Rightarrow> Some diag
               | _ \<Rightarrow> None)
       images"

text \<open>A script whose two actions are nearest to the same dialogue block.\<close>

definition twice_script :: Script where
  "twice_script =
     \<lparr>title = ''Twice'',
      scene_elements =
        [action_of ''She enters.'',
         block_of ''Ann'' [DialoguePart Dialogue ''Hello.''],
         action_of ''She leaves.'']\<rparr>"


text \<open>The inputs that a list of associations gives from a set of seen positions.\<close>

fun flagged :: "nat set \<Rightarrow> DialogueMatch list \<Rightarrow> DialogueInput list" where
  "flagged seen [] = []"
| "flagged seen (diag # diags) =
     \<lparr>DialogueInput.character = DialogueMatch.character diag,
      originalDialogue = DialogueMatch.dialogue diag,
      isDuplicate = (elementIndex diag \<in> seen)\<rparr>
     # flagged (insert (elementIndex diag) seen) diags"

subsection \<open>The terms in which the continuity chain is stated\<close>

text \<open>The state of the loop after its first \<open>k\<close> passes.\<close>

definition chain_after ::
  "Script \<Rightarrow> references \<Rightarrow> string \<Rightarrow> (nat \<Rightarrow> image_service) \<Rightarrow> CohesivePrompt list \<Rightarrow> nat \<Rightarrow> ChainState" where
  "chain_after script allAvailableCharacterImages finalStylePrompt service cohesivePrompts k =
     fold (scene_iteration script allAvailableCharacterImages finalStylePrompt service (length cohesivePrompts))
       (take k (zip [0..<length cohesivePrompts] cohesivePrompts))
       \<lparr>previousImageBase64 = None, finalGeneratedImages = [], imageReports = [], requests = []\<rparr>"

text \<open>The image of the most recent successful generation, if there is one.\<close>

definition last_image :: "GeneratedImage list \<Rightarrow> string option" where
  "last_image images = (if images = [] then None else Some (GeneratedImage.base64 (last images)))"

text \<open>Pass \<open>k\<close> of the loop appended an image.\<close>

definition succeeded ::
  "Script \<Rightarrow> references \<Rightarrow> string \<Rightarrow> (nat \<Rightarrow> image_service) \<Rightarrow> CohesivePrompt list \<Rightarrow> nat \<Rightarrow> bool" where
  "succeeded script allAvailableCharacterImages finalStylePrompt service cohesivePrompts k \<longleftrightarrow>
     length (finalGeneratedImages
        (chain_after script allAvailableCharacterImages finalStylePrompt service cohesivePrompts (Suc k)))
     > length (finalGeneratedImages
        (chain_after script allAvailableCharacterImages finalStylePrompt service cohesivePrompts k))"

text \<open>The call of \<open>generateImage\<close> that a pass makes from a state of the loop.\<close>

definition image_call :: "references \<Rightarrow> CohesivePrompt \<Rightarrow> ChainState \<Rightarrow> ImageCall" where
  "image_call allAvailableCharacterImages cp st =
     \<lparr>imagePromptText = CohesivePrompt.prompt cp,
      characterImagesSent = characterImagesForGen allAvailableCharacterImages (CohesivePrompt.characters cp),
      continuityReference = previousImageBase64 st\<rparr>"

text \<open>The images that the parts of a request carry, each with its MIME type, in their order.\<close>

definition inline_images :: "Part list \<Rightarrow> (string \<times> string) list" where
  "inline_images ps = concat (map (\<lambda>p. case p of InlineData d m \<Rightarrow> [(d, m)] | Text t \<Rightarrow> []) ps)"

text \<open>
  The image that a reply of the image service carries: the first inline data that is not
  empty among the parts of its first candidate.
\<close>

definition returned_image :: "Candidate list reply \<Rightarrow> string option" where
  "returned_image response =
     (case response of
        Resolves candidates \<Rightarrow>
          (case candidates of
             candidate # others \<Rightarrow>
               (case content_parts candidate of Some ps \<Rightarrow> first_inline_data ps | None \<Rightarrow> None)
           | [] \<Rightarrow> None)
      | Rejects msg \<Rightarrow> None)"

text \<open>A script of three actions, its cohesive prompts in order and out of order.\<close>

definition three_scene_script :: Script where
  "three_scene_script =
     \<lparr>title = ''Three'',
      scene_elements =
        [action_of ''She enters.'', action_of ''She sits.'', action_of ''She leaves.'']\<rparr>"

definition three_prompts :: "CohesivePrompt list" where
  "three_prompts =
     [\<lparr>CohesivePrompt.sceneIndex = 0, CohesivePrompt.prompt = ''A door opens.'', characters = []\<rparr>,
      \<lparr>CohesivePrompt.sceneIndex = 1, CohesivePrompt.prompt = ''A chair.'', characters = []\<rparr>,
      \<lparr>CohesivePrompt.sceneIndex = 2, CohesivePrompt.prompt = ''A door closes.'', characters = []\<rparr>]"

definition swapped_prompts :: "CohesivePrompt list" where
  "swapped_prompts =
     [\<lparr>CohesivePrompt.sceneIndex = 2, CohesivePrompt.prompt = ''A door closes.'', characters = []\<rparr>,
      \<lparr>CohesivePrompt.sceneIndex = 0, CohesivePrompt.prompt = ''A door opens.'', characters = []\<rparr>]"

text \<open>An image service whose request number 1 fails, and one that never fails.\<close>

definition failing_second :: "nat \<Rightarrow> image_service" where
  "failing_second i sent =
     (if i = 1 then Rejects ''503 Service Unavailable''
      else Resolves [\<lparr>content_parts = Some [InlineData (if i = 0 then ''AAAA'' else ''CCCC'') ''image/png''],
                      safetyRatings = []\<rparr>])"

definition never_failing :: "nat \<Rightarrow> image_service" where
  "never_failing i sent =
     Resolves [\<lparr>content_parts = Some [InlineData (if i = 0 then ''AAAA'' else ''CCCC'') ''image/png''],
                safetyRatings = []\<rparr>]"

text \<open>
  An image service that looks at what it is sent: it answers request 0 when the parts
  carry no image, fails at request 1, and answers request 2 only when the one image that
  the parts carry is the image with which it answered request 0.
\<close>

definition continuity_checking :: "nat \<Rightarrow> image_service" where
  "continuity_checking i sent =
     (if i = 0 \<and> inline_images sent = [] then
        Resolves [\<lparr>content_parts = Some [InlineData ''AAAA'' ''image/png''], safetyRatings = []\<rparr>]
      else if i = 2 \<and> inline_images sent = [(''AAAA'', ''image/png'')] then
        Resolves [\<lparr>content_parts = Some [InlineData ''CCCC'' ''image/png''], safetyRatings = []\<rparr>]
      else Rejects ''503 Service Unavailable'')"

subsection \<open>The terms in which the runs are stated\<close>

text \<open>The values of the stages of a run that the statements name.\<close>

definition run_portraits :: "Services \<Rightarrow> Inputs \<Rightarrow> AnalyzedCharacter list \<Rightarrow> (string \<times> GeneratedCharacterPortrait) list" where
  "run_portraits sv inp analyzedCharacters =
     fst (generate_portraits (final_style_prompt inp) (portrait_service sv) (portrait_arrival sv)
            (charactersToGenerate inp analyzedCharacters))"

definition run_prompts :: "Services \<Rightarrow> Script \<Rightarrow> error + CohesivePrompt list" where
  "run_prompts sv script =
     generateCohesiveImagePrompts
       (prompts_service sv (map (\<lambda>s. (fst s, content_or_empty (snd s))) (scenesToGenerate script)))"

definition run_chain ::
  "Services \<Rightarrow> Inputs \<Rightarrow> Script \<Rightarrow> AnalyzedCharacter list \<Rightarrow> CohesivePrompt list \<Rightarrow> ChainState" where
  "run_chain sv inp script analyzedCharacters cohesivePrompts =
     generate_scene_images script
       (all_available (characterImages inp) (run_portraits sv inp analyzedCharacters))
       (final_style_prompt inp) (scene_service sv) cohesivePrompts"

text \<open>The state in which a run ends when \<open>e\<close> is thrown with the state at \<open>st\<close>.\<close>

definition failed_state :: "error \<Rightarrow> AppState \<Rightarrow> AppState" where
  "failed_state e st =
     st\<lparr>error := Some (error_message e),
        generationReport := generationReport st @ [GenerationFailed (error_message e)],
        isGenerating := False, isReadyForDownload := True\<rparr>"

text \<open>The lines of a run whose images are \<open>images\<close>.\<close>

definition run_lines :: "Services \<Rightarrow> Script \<Rightarrow> GeneratedImage list \<Rightarrow> HS3000Line list" where
  "run_lines sv script images =
     (let dialogueInputs = flagged {} (associations script images) in
      if length dialogueInputs > 0
      then generateHS3000Dialogue (dialogue_service sv dialogueInputs) dialogueInputs else [])"

text \<open>The inputs and the replies of the runs of the examples.\<close>

definition example_inputs :: Inputs where
  "example_inputs = \<lparr>textFiles = [], characterImages = [], stylePrompt = [], storyPrompt = ''A heist.''\<rparr>"

definition example_characters :: "AnalyzedCharacter list" where
  "example_characters =
     [\<lparr>AnalyzedCharacter.name = ''Ann'', gender = ''female'', race = None, voiceDescription = None,
       otherDescriptors = Some ''tall''\<rparr>]"

text \<open>A run whose request for cohesive prompts fails, after the portrait of Ann.\<close>

definition prompts_failing :: Services where
  "prompts_failing =
     \<lparr>currentDate = ''2026-01-01T00:00:00.000Z'',
      analysis_reply = Resolves None,
      script_reply = Resolves (Some twice_script),
      characters_reply = Resolves (Some example_characters),
      portrait_service = never_failing,
      portrait_arrival = (\<lambda>i. i),
      prompts_service = (\<lambda>scenes. Rejects ''500 Internal Server Error''),
      scene_service = never_failing,
      dialogue_service = (\<lambda>inputs. Resolves None)\<rparr>"

text \<open>
  A run in which the service refuses the key at the portrait request and at the dialogue
  request.
\<close>

definition key_refused :: Services where
  "key_refused =
     \<lparr>currentDate = ''2026-01-01T00:00:00.000Z'',
      analysis_reply = Resolves None,
      script_reply = Resolves (Some twice_script),
      characters_reply = Resolves (Some example_characters),
      portrait_service = (\<lambda>i sent. Rejects ''403 PERMISSION_DENIED''),
      portrait_arrival = (\<lambda>i. i),
      prompts_service = (\<lambda>scenes. Resolves (Some
         [\<lparr>CohesivePrompt.sceneIndex = 0, CohesivePrompt.prompt = ''A door opens.'', characters = [''Ann'']\<rparr>,
          \<lparr>CohesivePrompt.sceneIndex = 2, CohesivePrompt.prompt = ''A door closes.'', characters = []\<rparr>])),
      scene_service = never_failing,
      dialogue_service = (\<lambda>inputs. Rejects ''403 PERMISSION_DENIED'')\<rparr>"


text \<open>A run whose script request fails.\<close>

definition script_failing :: Services where
  "script_failing =
     \<lparr>currentDate = ''2026-01-01T00:00:00.000Z'',
      analysis_reply = Resolves None,
      script_reply = Rejects ''500 Internal Server Error'',
      characters_reply = Resolves (Some example_characters),
      portrait_service = never_failing,
      portrait_arrival = (\<lambda>i. i),
      prompts_service = (\<lambda>scenes. Resolves (Some [])),
      scene_service = never_failing,
      dialogue_service = (\<lambda>inputs. Resolves None)\<rparr>"

text \<open>
  A run whose script has a dialogue block without \<open>elements\<close>, after the action of
  position 0.
\<close>

definition elements_missing :: Services where
  "elements_missing =
     \<lparr>currentDate = ''2026-01-01T00:00:00.000Z'',
      analysis_reply = Resolves None,
      script_reply = Resolves (Some no_elements_script),
      characters_reply = Resolves (Some example_characters),
      portrait_service = never_failing,
      portrait_arrival = (\<lambda>i. i),
      prompts_service = (\<lambda>scenes. Resolves (Some
         [\<lparr>CohesivePrompt.sceneIndex = 0, CohesivePrompt.prompt = ''A door opens.'', characters = []\<rparr>])),
      scene_service = never_failing,
      dialogue_service = (\<lambda>inputs. Resolves None)\<rparr>"

text \<open>Three items out of order, two of them of the same scene.\<close>

definition example_items :: "string StoryboardInput list" where
  "example_items =
     [\<lparr>StoryboardInput.sceneIndex = 2, item = ''c''\<rparr>,
      \<lparr>StoryboardInput.sceneIndex = 0, item = ''a''\<rparr>,
      \<lparr>StoryboardInput.sceneIndex = 2, item = ''d''\<rparr>]"

section \<open>The edit-distance table computes the edit distance\<close>

lemma fold_upt_invariant:
  assumes "P lo s" and "lo \<le> hi"
    and "\<And>k t. lo \<le> k \<Longrightarrow> k < hi \<Longrightarrow> P k t \<Longrightarrow> P (Suc k) (f k t)"
  shows "P hi (fold f [lo..<hi] s)"
  using assms(2,3)
proof (induction hi)
  case 0
  with assms(1) show ?case by simp
next
  case (Suc hi)
  show ?case
  proof (cases "lo = Suc hi")
    case True
    with assms(1) show ?thesis by simp
  next
    case False
    with Suc.prems(1) have le: "lo \<le> hi" by simp
    have "P hi (fold f [lo..<hi] s)"
      using le Suc.prems(2) by (intro Suc.IH) auto
    with le Suc.prems(2) [of hi] show ?thesis by simp
  qed
qed

lemma lev_Nil2 [simp]: "lev xs [] = length xs"
  by (cases xs) simp_all

lemma prefix_distance_0 [simp]:
  "j \<le> length b \<Longrightarrow> prefix_distance a b 0 j = j"
  "i \<le> length a \<Longrightarrow> prefix_distance a b i 0 = i"
  by (simp_all add: prefix_distance_def)

lemma prefix_distance_Suc:
  assumes "i < length a" "j < length b"
  shows "prefix_distance a b (Suc i) (Suc j) =
           min (min (prefix_distance a b i (Suc j) + 1) (prefix_distance a b (Suc i) j + 1))
               (prefix_distance a b i j + (if a ! i = b ! j then 0 else 1))"
  using assms by (simp add: prefix_distance_def take_Suc_conv_app_nth)

lemma filled_weaken:
  assumes "filled a b K m"
    and "\<And>j i. j \<le> length b \<Longrightarrow> i \<le> length a \<Longrightarrow> K' j i \<Longrightarrow> K j i"
  shows "filled a b K' m"
  using assms unfolding filled_def by blast

lemma filled_set_cell:
  assumes "filled a b K m" "j \<le> length b" "i \<le> length a" "v = prefix_distance a b i j"
  shows "filled a b (\<lambda>j' i'. K j' i' \<or> (j' = j \<and> i' = i)) (set_cell m j i v)"
proof -
  from assms(1) have len: "length m = Suc (length b)"
    and rows: "\<And>j. j \<le> length b \<Longrightarrow> length (m ! j) = Suc (length a)"
    and vals: "\<And>j i. j \<le> length b \<Longrightarrow> i \<le> length a \<Longrightarrow> K j i \<Longrightarrow> cell m j i = prefix_distance a b i j"
    unfolding filled_def by auto
  have get: "cell (set_cell m j i v) j' i' = (if j' = j \<and> i' = i then v else cell m j' i')"
    if "j' \<le> length b" "i' \<le> length a" for j' i'
    using that assms(2,3) len rows [of j]
    by (auto simp: cell_def set_cell_def nth_list_update)
  have rows': "length (set_cell m j i v ! j') = Suc (length a)" if "j' \<le> length b" for j'
    using that assms(2) len rows [of j] rows [of j']
    by (auto simp: set_cell_def nth_list_update)
  show ?thesis
    unfolding filled_def
    using len rows' get vals assms(4) by (auto simp: set_cell_def)
qed

lemma filled_first_row:
  "filled a b (\<lambda>j i. j = 0)
     (fold (\<lambda>i m. set_cell m 0 i i) [0..<Suc (length a)] (replicate (length b + 1) (replicate (length a + 1) 0)))"
proof -
  let ?P = "\<lambda>k m. filled a b (\<lambda>j i. j = 0 \<and> i < k) m"
  have "?P (Suc (length a)) (fold (\<lambda>i m. set_cell m 0 i i) [0..<Suc (length a)]
          (replicate (length b + 1) (replicate (length a + 1) 0)))"
  proof (rule fold_upt_invariant [where P = ?P])
    show "?P 0 (replicate (length b + 1) (replicate (length a + 1) 0))"
      by (auto simp: filled_def nth_Cons')
  next
    fix k t assume "k < Suc (length a)" "?P k t"
    then have "filled a b (\<lambda>j' i'. (j' = 0 \<and> i' < k) \<or> (j' = 0 \<and> i' = k)) (set_cell t 0 k k)"
      by (intro filled_set_cell) simp_all
    then show "?P (Suc k) (set_cell t 0 k k)"
      by (rule filled_weaken) auto
  qed simp
  then show ?thesis by (rule filled_weaken) auto
qed

lemma filled_first_column:
  assumes "filled a b (\<lambda>j i. j = 0) m"
  shows "filled a b (\<lambda>j i. j = 0 \<or> i = 0) (fold (\<lambda>j m. set_cell m j 0 j) [0..<Suc (length b)] m)"
proof -
  let ?P = "\<lambda>k m. filled a b (\<lambda>j i. j = 0 \<or> (i = 0 \<and> j < k)) m"
  have "?P (Suc (length b)) (fold (\<lambda>j m. set_cell m j 0 j) [0..<Suc (length b)] m)"
  proof (rule fold_upt_invariant [where P = ?P])
    show "?P 0 m" using assms by (rule filled_weaken) auto
  next
    fix k t assume "k < Suc (length b)" "?P k t"
    then have "filled a b (\<lambda>j' i'. (j' = 0 \<or> (i' = 0 \<and> j' < k)) \<or> (j' = k \<and> i' = 0)) (set_cell t k 0 k)"
      by (intro filled_set_cell) simp_all
    then show "?P (Suc k) (set_cell t k 0 k)"
      by (rule filled_weaken) auto
  qed simp
  then show ?thesis by (rule filled_weaken) auto
qed

lemma filled_fill_cell:
  assumes "filled a b (\<lambda>j' i'. j' = 0 \<or> i' = 0 \<or> j' < j \<or> (j' = j \<and> i' < i)) m"
    and "1 \<le> j" "j \<le> length b" "1 \<le> i" "i \<le> length a"
  shows "filled a b (\<lambda>j' i'. j' = 0 \<or> i' = 0 \<or> j' < j \<or> (j' = j \<and> i' < Suc i)) (fill_cell a b j i m)"
proof -
  let ?K = "\<lambda>j' i'. j' = 0 \<or> i' = 0 \<or> j' < j \<or> (j' = j \<and> i' < i)"
  from assms(1) have vals: "\<And>j' i'. j' \<le> length b \<Longrightarrow> i' \<le> length a \<Longrightarrow> ?K j' i' \<Longrightarrow>
      cell m j' i' = prefix_distance a b i' j'"
    unfolding filled_def by blast
  obtain j0 i0 where ji: "j = Suc j0" "i = Suc i0"
    using assms(2,4) by (cases j; cases i) auto
  have c1: "cell m j (i - 1) = prefix_distance a b i0 (Suc j0)"
    using vals [of j "i - 1"] assms ji by simp
  have c2: "cell m (j - 1) i = prefix_distance a b (Suc i0) j0"
    using vals [of "j - 1" i] assms ji by simp
  have c3: "cell m (j - 1) (i - 1) = prefix_distance a b i0 j0"
    using vals [of "j - 1" "i - 1"] assms ji by simp
  have v: "min (min (cell m j (i - 1) + 1) (cell m (j - 1) i + 1))
             (cell m (j - 1) (i - 1) + substitutionCost a b i j) = prefix_distance a b i j"
    using assms ji unfolding c1 c2 c3
    by (simp add: prefix_distance_Suc substitutionCost_def)
  have "filled a b (\<lambda>j' i'. ?K j' i' \<or> (j' = j \<and> i' = i)) (fill_cell a b j i m)"
    using filled_set_cell [OF assms(1) assms(3) assms(5) v]
    by (simp add: fill_cell_def)
  then show ?thesis by (rule filled_weaken) auto
qed

lemma filled_fill_row:
  assumes "filled a b (\<lambda>j' i'. j' = 0 \<or> i' = 0 \<or> j' < j) m" "1 \<le> j" "j \<le> length b"
  shows "filled a b (\<lambda>j' i'. j' = 0 \<or> i' = 0 \<or> j' < Suc j) (fill_row a b j m)"
proof -
  let ?P = "\<lambda>k m. filled a b (\<lambda>j' i'. j' = 0 \<or> i' = 0 \<or> j' < j \<or> (j' = j \<and> i' < k)) m"
  have "?P (Suc (length a)) (fold (fill_cell a b j) [1..<Suc (length a)] m)"
  proof (rule fold_upt_invariant [where P = ?P])
    show "?P 1 m" using assms(1) by (rule filled_weaken) auto
  next
    fix k t assume "1 \<le> k" "k < Suc (length a)" "?P k t"
    then show "?P (Suc k) (fill_cell a b j k t)"
      using assms(2,3) by (intro filled_fill_cell) simp_all
  qed simp
  then show ?thesis unfolding fill_row_def by (rule filled_weaken) auto
qed

lemma filled_all_rows:
  assumes "filled a b (\<lambda>j i. j = 0 \<or> i = 0) m"
  shows "filled a b (\<lambda>j i. True) (fold (fill_row a b) [1..<Suc (length b)] m)"
proof -
  let ?P = "\<lambda>k m. filled a b (\<lambda>j' i'. j' = 0 \<or> i' = 0 \<or> j' < k) m"
  have "?P (Suc (length b)) (fold (fill_row a b) [1..<Suc (length b)] m)"
  proof (rule fold_upt_invariant [where P = ?P])
    show "?P 1 m" using assms by (rule filled_weaken) auto
  next
    fix k t assume "1 \<le> k" "k < Suc (length b)" "?P k t"
    then show "?P (Suc k) (fill_row a b k t)"
      by (intro filled_fill_row) simp_all
  qed simp
  then show ?thesis by (rule filled_weaken) auto
qed

lemma levenshteinDistance_lev: "levenshteinDistance a b = lev (rev a) (rev b)"
proof (cases "a = [] \<or> b = []")
  case True
  then show ?thesis by (auto simp: levenshteinDistance_def Let_def)
next
  case False
  have "filled a b (\<lambda>j i. True)
          (fold (fill_row a b) [1..<Suc (length b)]
            (fold (\<lambda>j m. set_cell m j 0 j) [0..<Suc (length b)]
              (fold (\<lambda>i m. set_cell m 0 i i) [0..<Suc (length a)]
                (replicate (length b + 1) (replicate (length a + 1) 0)))))"
    by (intro filled_all_rows filled_first_column filled_first_row)
  then have "cell (fold (fill_row a b) [1..<Suc (length b)]
            (fold (\<lambda>j m. set_cell m j 0 j) [0..<Suc (length b)]
              (fold (\<lambda>i m. set_cell m 0 i i) [0..<Suc (length a)]
                (replicate (length b + 1) (replicate (length a + 1) 0))))) (length b) (length a)
          = prefix_distance a b (length a) (length b)"
    unfolding filled_def by blast
  with False show ?thesis
    by (simp add: levenshteinDistance_def Let_def prefix_distance_def)
qed


lemma lev_commute: "lev xs ys = lev ys xs"
  by (induction xs ys rule: lev.induct) (simp_all add: min.commute eq_commute)

lemma lev_same [simp]: "lev xs xs = 0"
  by (induction xs) simp_all

lemma lev_Cons_le: "lev (x # xs) ys \<le> Suc (lev xs ys)"
  by (cases ys) simp_all

lemma lev_Cons2_le: "lev xs (y # ys) \<le> Suc (lev xs ys)"
  by (cases xs) simp_all

lemma lev_drop_head_le: "lev xs ys \<le> Suc (lev (x # xs) ys)"
proof (induction ys)
  case Nil
  show ?case by simp
next
  case (Cons y ys)
  have "lev xs (y # ys) \<le> Suc (lev xs ys)" by (rule lev_Cons2_le)
  with Cons show ?case by (simp add: min_def)
qed

lemma lev_replace_head_le: "lev (x # xs) ys \<le> Suc (lev (x' # xs) ys)"
proof (induction ys)
  case Nil
  show ?case by simp
next
  case (Cons y ys)
  then show ?case by (simp add: min_def)
qed

lemma lev_same_head_le:
  assumes "\<And>zs. lev xs zs \<le> Suc (lev ys zs)"
  shows "lev (c # xs) zs \<le> Suc (lev (c # ys) zs)"
proof (induction zs)
  case Nil
  from assms [of "[]"] show ?case by simp
next
  case (Cons z zs)
  with assms [of "z # zs"] assms [of zs] show ?case by (simp add: min_def)
qed

lemma edit1_lev_le: "edit1 xs ys \<Longrightarrow> lev xs zs \<le> Suc (lev ys zs)"
proof (induction arbitrary: zs rule: edit1.induct)
  case (insertion xs c)
  show ?case by (rule lev_drop_head_le)
next
  case (deletion c xs)
  show ?case by (rule lev_Cons_le)
next
  case (substitution c d xs)
  show ?case by (rule lev_replace_head_le)
next
  case (later xs ys c)
  then show ?case by (intro lev_same_head_le)
qed

lemma edits_lev_le: "(edit1 ^^ n) xs ys \<Longrightarrow> lev xs ys \<le> n"
proof (induction n arbitrary: xs)
  case 0
  then show ?case by simp
next
  case (Suc n)
  from relpowp_Suc_D2 [OF Suc.prems] obtain zs where "edit1 xs zs" "(edit1 ^^ n) zs ys"
    by blast
  with Suc.IH [of zs] edit1_lev_le [of xs zs ys] show ?case by simp
qed

lemma edits_later: "(edit1 ^^ n) xs ys \<Longrightarrow> (edit1 ^^ n) (c # xs) (c # ys)"
proof (induction n arbitrary: ys)
  case 0
  then show ?case by simp
next
  case (Suc n)
  from Suc.prems obtain zs where "(edit1 ^^ n) xs zs" "edit1 zs ys"
    by auto
  with Suc.IH [of zs] show ?case by (auto intro: edit1.later)
qed

lemma lev_edits: "(edit1 ^^ lev xs ys) xs ys"
proof (induction xs ys rule: lev.induct)
  case (1 ys)
  show ?case
  proof (induction ys)
    case Nil
    show ?case by simp
  next
    case (Cons y ys)
    have "edit1 ys (y # ys)" by (rule edit1.insertion)
    with Cons show ?case by auto
  qed
next
  case (2 v va)
  show ?case
  proof (induction "v # va" arbitrary: v va)
    case (Cons v va)
    have step: "edit1 (v # va) va" by (rule edit1.deletion)
    have "(edit1 ^^ length va) va []"
    proof (cases va)
      case Nil
      then show ?thesis by simp
    next
      case (Cons w wa)
      with Cons.hyps have "(edit1 ^^ lev (w # wa) []) (w # wa) []" by simp
      with Cons show ?thesis by simp
    qed
    with step have "(edit1 ^^ Suc (length va)) (v # va) []"
      by (rule relpowp_Suc_I2)
    then show ?case by simp
  qed
next
  case (3 x xs y ys)
  let ?d = "lev xs (y # ys) + 1" and ?i = "lev (x # xs) ys + 1"
    and ?s = "lev xs ys + (if x = y then 0 else 1)"
  have del: "(edit1 ^^ ?d) (x # xs) (y # ys)"
    using relpowp_Suc_I2 [OF edit1.deletion [of x xs] "3.IH"(1)] by simp
  have ins: "(edit1 ^^ ?i) (x # xs) (y # ys)"
    using relpowp_Suc_I [OF "3.IH"(2) edit1.insertion [of ys y]] by simp
  have sub: "(edit1 ^^ ?s) (x # xs) (y # ys)"
  proof (cases "x = y")
    case True
    with edits_later [OF "3.IH"(3), of x] show ?thesis by simp
  next
    case False
    then have "edit1 (x # ys) (y # ys)" by (rule edit1.substitution)
    with edits_later [OF "3.IH"(3), of x] have "(edit1 ^^ Suc (lev xs ys)) (x # xs) (y # ys)"
      by (rule relpowp_Suc_I)
    with False show ?thesis by simp
  qed
  have "lev (x # xs) (y # ys) = ?d \<or> lev (x # xs) (y # ys) = ?i \<or> lev (x # xs) (y # ys) = ?s"
    by (simp add: min_def)
  with del ins sub show ?case by metis
qed

lemma edit1_snoc_insert: "edit1 xs (xs @ [c])"
  by (induction xs) (auto intro: edit1.intros)

lemma edit1_snoc_delete: "edit1 (xs @ [c]) xs"
  by (induction xs) (auto intro: edit1.intros)

lemma edit1_snoc_subst: "c \<noteq> d \<Longrightarrow> edit1 (xs @ [c]) (xs @ [d])"
  by (induction xs) (auto intro: edit1.intros)

lemma edit1_append: "edit1 xs ys \<Longrightarrow> edit1 (xs @ zs) (ys @ zs)"
  by (induction rule: edit1.induct) (auto intro: edit1.intros)

lemma edit1_rev: "edit1 xs ys \<Longrightarrow> edit1 (rev xs) (rev ys)"
  by (induction rule: edit1.induct)
    (auto intro: edit1_snoc_insert edit1_snoc_delete edit1_snoc_subst edit1_append)

lemma edits_rev: "(edit1 ^^ n) xs ys \<Longrightarrow> (edit1 ^^ n) (rev xs) (rev ys)"
proof (induction n arbitrary: ys)
  case 0
  then show ?case by simp
next
  case (Suc n)
  from Suc.prems obtain zs where "(edit1 ^^ n) xs zs" "edit1 zs ys"
    by auto
  with Suc.IH [of zs] show ?case by (auto intro: edit1_rev)
qed

lemma levenshteinDistance_edits: "(edit1 ^^ levenshteinDistance a b) a b"
  using edits_rev [OF lev_edits [of "rev a" "rev b"]] by (simp add: levenshteinDistance_lev)

lemma levenshteinDistance_least: "(edit1 ^^ n) a b \<Longrightarrow> levenshteinDistance a b \<le> n"
  using edits_lev_le [OF edits_rev, of n a b] by (simp add: levenshteinDistance_lev)

text \<open>
  Claim C7. For all strings \<open>a\<close> and \<open>b\<close>, \<open>levenshteinDistance a b\<close> is the minimum number
  of single-character insertions, deletions or substitutions that turn \<open>a\<close> into \<open>b\<close>:
  that many edits turn \<open>a\<close> into \<open>b\<close>, and no smaller number of edits does. The distance
  is symmetric, it is \<open>0\<close> from a string to itself, it satisfies the triangle inequality,
  and it is \<open>3\<close> from kitten to sitting.
\<close>

theorem levenshteinDistance_minimal_edits:
  "(edit1 ^^ levenshteinDistance a b) a b
   \<and> (\<forall>n. (edit1 ^^ n) a b \<longrightarrow> levenshteinDistance a b \<le> n)
   \<and> levenshteinDistance a b = levenshteinDistance b a
   \<and> levenshteinDistance a a = 0
   \<and> levenshteinDistance a c \<le> levenshteinDistance a b + levenshteinDistance b c
   \<and> levenshteinDistance ''kitten'' ''sitting'' = 3"
proof -
  have sym: "levenshteinDistance a b = levenshteinDistance b a"
    by (simp add: levenshteinDistance_lev lev_commute)
  have refl: "levenshteinDistance a a = 0"
    by (simp add: levenshteinDistance_lev)
  have "(edit1 ^^ (levenshteinDistance a b + levenshteinDistance b c)) a c"
    using levenshteinDistance_edits [of a b] levenshteinDistance_edits [of b c]
    by (auto simp: relpowp_add)
  then have tri: "levenshteinDistance a c \<le> levenshteinDistance a b + levenshteinDistance b c"
    by (rule levenshteinDistance_least)
  have ex: "levenshteinDistance ''kitten'' ''sitting'' = 3"
    by code_simp
  from levenshteinDistance_edits levenshteinDistance_least sym refl tri ex
  show ?thesis by blast
qed

text \<open>The statement at cat and cut, which are one substitution apart.\<close>

theorem levenshteinDistance_minimal_edits_witness:
  "(edit1 ^^ 1) ''cat'' ''cut'' \<and> levenshteinDistance ''cat'' ''cut'' \<le> 1
   \<and> levenshteinDistance ''cat'' ''cut'' = levenshteinDistance ''cut'' ''cat''"
proof -
  have "edit1 ''at'' ''ut''" by (rule edit1.substitution) simp
  then have "edit1 ''cat'' ''cut''" by (rule edit1.later)
  then have e: "(edit1 ^^ 1) ''cat'' ''cut''" by auto
  with levenshteinDistance_minimal_edits [of "''cat''" "''cut''"] show ?thesis by blast
qed

section \<open>The dialogue associator finds the nearest spoken block\<close>

lemma probe_Boundary: "probe_element el j = Inr Boundary \<longleftrightarrow> is_scene_heading el"
  by (auto simp: probe_element_def is_scene_heading_def split: option.splits)

lemma probe_Skip:
  "probe_element el j = Inr Skip \<longleftrightarrow> \<not> is_scene_heading el \<and> \<not> speaks el \<and> \<not> unreadable el"
  by (auto simp: probe_element_def is_scene_heading_def speaks_def unreadable_def spoken_text_def
      split: option.splits)

lemma probe_Match:
  "speaks (scene_elements script ! j) \<Longrightarrow>
     probe_element (scene_elements script ! j) j = Inr (Match (match_at script j))"
  by (auto simp: probe_element_def speaks_def match_at_def spoken_text_def split: option.splits if_splits)

lemma probe_Match_speaks: "probe_element el j = Inr (Match m) \<Longrightarrow> speaks el"
  by (auto simp: probe_element_def speaks_def spoken_text_def split: option.splits if_splits)

lemma probe_Throw: "probe_element el j = Inl e \<longleftrightarrow> unreadable el \<and> e = TypeError"
  by (auto simp: probe_element_def unreadable_def spoken_text_def split: option.splits if_splits)

lemma unreadable_probe: "unreadable el \<Longrightarrow> probe_element el j = Inl TypeError"
  by (simp add: probe_Throw)

lemmas forward_scan_unfold = forward_scan.simps
declare forward_scan.simps [simp del]

lemma forward_scan_found:
  assumes "j < length (scene_elements script)" "speaks (scene_elements script ! j)"
    and "i \<le> j"
    and "\<And>k. i \<le> k \<Longrightarrow> k < j \<Longrightarrow>
           \<not> is_scene_heading (scene_elements script ! k) \<and> \<not> speaks (scene_elements script ! k) \<and>
           \<not> unreadable (scene_elements script ! k)"
  shows "forward_scan script i = Inr (Some (match_at script j))"
  using assms(3,4)
proof (induction "j - i" arbitrary: i)
  case 0
  then have "i = j" by simp
  with assms(1,2) show ?case
    by (subst forward_scan_unfold) (simp add: probe_Match)
next
  case (Suc d)
  then have lt: "i < j" by simp
  with Suc.prems(2) [of i] have "probe_element (scene_elements script ! i) i = Inr Skip"
    by (simp add: probe_Skip)
  moreover have "forward_scan script (i + 1) = Inr (Some (match_at script j))"
    using Suc.hyps(2) lt Suc.prems(2) by (intro Suc.hyps(1)) auto
  ultimately show ?case
    using lt assms(1) by (subst forward_scan_unfold) simp
qed

lemma forward_scan_throws:
  assumes "j < length (scene_elements script)" "unreadable (scene_elements script ! j)"
    and "i \<le> j"
    and "\<And>k. i \<le> k \<Longrightarrow> k < j \<Longrightarrow>
           \<not> is_scene_heading (scene_elements script ! k) \<and> \<not> speaks (scene_elements script ! k) \<and>
           \<not> unreadable (scene_elements script ! k)"
  shows "forward_scan script i = Inl TypeError"
  using assms(3,4)
proof (induction "j - i" arbitrary: i)
  case 0
  then have "i = j" by simp
  with assms(1,2) show ?case
    by (subst forward_scan_unfold) (simp add: unreadable_probe)
next
  case (Suc d)
  then have lt: "i < j" by simp
  with Suc.prems(2) [of i] have "probe_element (scene_elements script ! i) i = Inr Skip"
    by (simp add: probe_Skip)
  moreover have "forward_scan script (i + 1) = Inl TypeError"
    using Suc.hyps(2) lt Suc.prems(2) by (intro Suc.hyps(1)) auto
  ultimately show ?case
    using lt assms(1) by (subst forward_scan_unfold) simp
qed

lemma forward_scan_none:
  assumes "\<And>j. i \<le> j \<Longrightarrow> j < length (scene_elements script) \<Longrightarrow>
            speaks (scene_elements script ! j) \<or> unreadable (scene_elements script ! j) \<Longrightarrow>
            \<exists>k. i \<le> k \<and> k < j \<and> is_scene_heading (scene_elements script ! k)"
  shows "forward_scan script i = Inr None"
  using assms
proof (induction script i rule: forward_scan.induct)
  case (1 script i)
  show ?case
  proof (cases "i < length (scene_elements script)")
    case False
    then show ?thesis by (subst forward_scan_unfold) simp
  next
    case True
    show ?thesis
    proof (cases "probe_element (scene_elements script ! i) i")
      case (Inl e)
      then have "unreadable (scene_elements script ! i)" by (simp add: probe_Throw)
      with "1.prems" [of i] True show ?thesis by auto
    next
      case (Inr p)
      show ?thesis
      proof (cases p)
        case Boundary
        with Inr True show ?thesis by (subst forward_scan_unfold) simp
      next
        case (Match m)
        with Inr have "speaks (scene_elements script ! i)" by (auto dest: probe_Match_speaks)
        with "1.prems" [of i] True show ?thesis by auto
      next
        case Skip
        with Inr have skip: "probe_element (scene_elements script ! i) i = Inr Skip" by simp
        have "forward_scan script (i + 1) = Inr None"
        proof (rule "1.IH" [OF True skip refl])
          fix j assume j: "i + 1 \<le> j" "j < length (scene_elements script)"
            "speaks (scene_elements script ! j) \<or> unreadable (scene_elements script ! j)"
          with "1.prems" [of j] obtain k where k: "i \<le> k" "k < j" "is_scene_heading (scene_elements script ! k)"
            by auto
          with skip have "k \<noteq> i" by (auto simp: probe_Skip)
          with k show "\<exists>k\<ge>i + 1. k < j \<and> is_scene_heading (scene_elements script ! k)"
            by (intro exI [of _ k]) auto
        qed
        with True skip show ?thesis by (subst forward_scan_unfold) simp
      qed
    qed
  qed
qed

lemma backward_scan_found:
  assumes "speaks (scene_elements script ! j)" "j < n" "n \<le> length (scene_elements script)"
    and "\<And>k. j < k \<Longrightarrow> k < n \<Longrightarrow>
           \<not> is_scene_heading (scene_elements script ! k) \<and> \<not> speaks (scene_elements script ! k) \<and>
           \<not> unreadable (scene_elements script ! k)"
  shows "backward_scan script n = Inr (Some (match_at script j))"
  using assms(2,3,4)
proof (induction n)
  case 0
  then show ?case by simp
next
  case (Suc n)
  show ?case
  proof (cases "j = n")
    case True
    with assms(1) Suc.prems show ?thesis by (simp add: probe_Match)
  next
    case False
    with Suc.prems have lt: "j < n" by simp
    with Suc.prems(3) [of n] have "probe_element (scene_elements script ! n) n = Inr Skip"
      by (simp add: probe_Skip)
    moreover have "backward_scan script n = Inr (Some (match_at script j))"
      using lt Suc.prems by (intro Suc.IH) auto
    ultimately show ?thesis using Suc.prems(2) by simp
  qed
qed

lemma backward_scan_throws:
  assumes "unreadable (scene_elements script ! j)" "j < n" "n \<le> length (scene_elements script)"
    and "\<And>k. j < k \<Longrightarrow> k < n \<Longrightarrow>
           \<not> is_scene_heading (scene_elements script ! k) \<and> \<not> speaks (scene_elements script ! k) \<and>
           \<not> unreadable (scene_elements script ! k)"
  shows "backward_scan script n = Inl TypeError"
  using assms(2,3,4)
proof (induction n)
  case 0
  then show ?case by simp
next
  case (Suc n)
  show ?case
  proof (cases "j = n")
    case True
    with assms(1) Suc.prems show ?thesis by (simp add: unreadable_probe)
  next
    case False
    with Suc.prems have lt: "j < n" by simp
    with Suc.prems(3) [of n] have "probe_element (scene_elements script ! n) n = Inr Skip"
      by (simp add: probe_Skip)
    moreover have "backward_scan script n = Inl TypeError"
      using lt Suc.prems by (intro Suc.IH) auto
    ultimately show ?thesis using Suc.prems(2) by simp
  qed
qed

lemma backward_scan_none:
  assumes "n \<le> length (scene_elements script)"
    and "\<And>j. j < n \<Longrightarrow> speaks (scene_elements script ! j) \<or> unreadable (scene_elements script ! j) \<Longrightarrow>
            \<exists>k. j < k \<and> k < n \<and> is_scene_heading (scene_elements script ! k)"
  shows "backward_scan script n = Inr None"
  using assms
proof (induction n)
  case 0
  show ?case by simp
next
  case (Suc n)
  show ?case
  proof (cases "probe_element (scene_elements script ! n) n")
    case (Inl e)
    then have "unreadable (scene_elements script ! n)" by (simp add: probe_Throw)
    with Suc.prems(2) [of n] show ?thesis by auto
  next
    case (Inr p)
    show ?thesis
    proof (cases p)
      case Boundary
      with Inr Suc.prems(1) show ?thesis by simp
    next
      case (Match m)
      with Inr have "speaks (scene_elements script ! n)" by (auto dest: probe_Match_speaks)
      with Suc.prems(2) [of n] show ?thesis by auto
    next
      case Skip
      with Inr have skip: "probe_element (scene_elements script ! n) n = Inr Skip" by simp
      have "backward_scan script n = Inr None"
      proof (rule Suc.IH)
        show "n \<le> length (scene_elements script)" using Suc.prems(1) by simp
      next
        fix j assume j: "j < n" "speaks (scene_elements script ! j) \<or> unreadable (scene_elements script ! j)"
        with Suc.prems(2) [of j] obtain k where k: "j < k" "k < Suc n" "is_scene_heading (scene_elements script ! k)"
          by auto
        with skip have "k \<noteq> n" by (auto simp: probe_Skip)
        with k show "\<exists>k>j. k < n \<and> is_scene_heading (scene_elements script ! k)"
          by (intro exI [of _ k]) auto
      qed
      with skip Suc.prems(1) show ?thesis by simp
    qed
  qed
qed

lemma match_at_fields:
  assumes "SceneElement.character (scene_elements script ! j) = Some speaker"
    and "elements (scene_elements script ! j) = Some elems"
    and "speaks (scene_elements script ! j)"
  shows "DialogueMatch.character (match_at script j) = toUpperCase speaker \<and> elementIndex (match_at script j) = j \<and>
         (\<exists>ps text qs. elems = ps @ DialoguePart Dialogue text # qs \<and>
            list_all (\<lambda>p. part_type p \<noteq> Dialogue) ps \<and>
            DialogueMatch.dialogue (match_at script j) = text \<and> text \<noteq> [])"
proof -
  from assms(2,3) obtain spk where sp: "spoken elems = Some spk" "spk \<noteq> []"
    by (auto simp: speaks_def spoken_text_def split: option.splits if_splits)
  then have st: "spoken_text (scene_elements script ! j) = Some spk"
    using assms(2) by (simp add: spoken_text_def)
  from sp obtain p where p: "find (\<lambda>e. part_type e = Dialogue) elems = Some p" "part_content p = spk"
    by (auto simp: spoken_def)
  from p(1) obtain i where i: "i < length elems" "part_type (elems ! i) = Dialogue" "p = elems ! i"
      "\<forall>k<i. part_type (elems ! k) \<noteq> Dialogue"
    by (auto simp: find_Some_iff)
  have "elems = take i elems @ DialoguePart Dialogue spk # drop (Suc i) elems"
  proof -
    have "elems ! i = DialoguePart Dialogue spk"
      using i p(2) by (cases "elems ! i") auto
    with id_take_nth_drop [OF i(1)] show ?thesis by simp
  qed
  moreover have "list_all (\<lambda>p. part_type p \<noteq> Dialogue) (take i elems)"
    using i by (auto simp: list_all_length)
  ultimately show ?thesis
    using assms(1) sp st by (auto simp: match_at_def)
qed

lemma readable_script:
  assumes "list_all (\<lambda>el. SceneElement.type el = dialogue_block \<longrightarrow>
             elements el \<noteq> None \<and> SceneElement.character el \<noteq> None) (scene_elements script)"
    and "j < length (scene_elements script)"
  shows "\<not> unreadable (scene_elements script ! j)"
  using assms by (auto simp: list_all_length unreadable_def)

text \<open>
  Claim C4, as amended. For every script and every position \<open>scene\<close> in it (the
  \<open>sceneIndex\<close> of the source), the
  association scans forward from \<open>scene + 1\<close> and returns at the first dialogue
  block whose first dialogue-typed part has a non-empty text, unless a scene heading comes
  before it; the result is the speaker in upper case, the text of that first dialogue
  part and the position of the block. If the forward scan ends without a match, the
  backward scan from \<open>scene - 1\<close> returns in the same way at the nearest such block
  not separated from the scene by a heading; if neither direction matches there is no
  associated dialogue. For the script [action, dialogue block of Ann, scene heading,
  action], scene 0 is associated with Ann's line at position 1 and scene 3 with nothing.

  The script is read as the service returned it: a dialogue block without \<open>elements\<close>,
  or with a text and without \<open>character\<close>, that a scan reaches makes the association
  throw; a script each of whose dialogue blocks has both has no such block.
\<close>

theorem getDialogueForScene_nearest_spoken:
  assumes "scene < length (scene_elements script)"
  shows
    "(\<forall>j. scene < j \<and> j < length (scene_elements script) \<and> speaks (scene_elements script ! j) \<and>
          (\<forall>k. scene < k \<and> k < j \<longrightarrow>
             \<not> is_scene_heading (scene_elements script ! k) \<and> \<not> speaks (scene_elements script ! k) \<and>
             \<not> unreadable (scene_elements script ! k))
        \<longrightarrow> getDialogueForScene scene script = Inr (Some (match_at script j)))
     \<and> ((\<forall>j. scene < j \<and> j < length (scene_elements script) \<and>
              (speaks (scene_elements script ! j) \<or> unreadable (scene_elements script ! j))
            \<longrightarrow> (\<exists>k. scene < k \<and> k < j \<and> is_scene_heading (scene_elements script ! k)))
        \<longrightarrow> (\<forall>j. j < scene \<and> speaks (scene_elements script ! j) \<and>
                (\<forall>k. j < k \<and> k < scene \<longrightarrow>
                   \<not> is_scene_heading (scene_elements script ! k) \<and> \<not> speaks (scene_elements script ! k) \<and>
                   \<not> unreadable (scene_elements script ! k))
              \<longrightarrow> getDialogueForScene scene script = Inr (Some (match_at script j)))
            \<and> ((\<forall>j. j < scene \<and> (speaks (scene_elements script ! j) \<or> unreadable (scene_elements script ! j))
                   \<longrightarrow> (\<exists>k. j < k \<and> k < scene \<and> is_scene_heading (scene_elements script ! k)))
                \<longrightarrow> getDialogueForScene scene script = Inr None)
            \<and> (\<forall>j. j < scene \<and> unreadable (scene_elements script ! j) \<and>
                (\<forall>k. j < k \<and> k < scene \<longrightarrow>
                   \<not> is_scene_heading (scene_elements script ! k) \<and> \<not> speaks (scene_elements script ! k) \<and>
                   \<not> unreadable (scene_elements script ! k))
              \<longrightarrow> getDialogueForScene scene script = Inl TypeError))
     \<and> (\<forall>j. scene < j \<and> j < length (scene_elements script) \<and> unreadable (scene_elements script ! j) \<and>
          (\<forall>k. scene < k \<and> k < j \<longrightarrow>
             \<not> is_scene_heading (scene_elements script ! k) \<and> \<not> speaks (scene_elements script ! k) \<and>
             \<not> unreadable (scene_elements script ! k))
        \<longrightarrow> getDialogueForScene scene script = Inl TypeError)
     \<and> (list_all (\<lambda>el. SceneElement.type el = dialogue_block \<longrightarrow>
                     elements el \<noteq> None \<and> SceneElement.character el \<noteq> None) (scene_elements script)
        \<longrightarrow> (\<forall>j < length (scene_elements script). \<not> unreadable (scene_elements script ! j)))
     \<and> (\<forall>j speaker elems.
          SceneElement.character (scene_elements script ! j) = Some speaker \<and>
          elements (scene_elements script ! j) = Some elems \<and> speaks (scene_elements script ! j)
          \<longrightarrow> DialogueMatch.character (match_at script j) = toUpperCase speaker \<and> elementIndex (match_at script j) = j \<and>
              (\<exists>ps text qs. elems = ps @ DialoguePart Dialogue text # qs \<and>
                 list_all (\<lambda>p. part_type p \<noteq> Dialogue) ps \<and>
                 DialogueMatch.dialogue (match_at script j) = text \<and> text \<noteq> []))
     \<and> getDialogueForScene 0 example_script =
          Inr (Some \<lparr>DialogueMatch.character = ''ANN'', DialogueMatch.dialogue = ''Hello. Anyone?'',
                     elementIndex = 1\<rparr>)
     \<and> getDialogueForScene 3 example_script = Inr None
     \<and> getDialogueForScene 0 no_elements_script = Inl TypeError
     \<and> getDialogueForScene 0 no_character_script = Inl TypeError"
proof -
  let ?els = "scene_elements script"
  have none: "forward_scan script (scene + 1) = Inr None"
    if nf: "\<forall>j. scene < j \<and> j < length ?els \<and> (speaks (?els ! j) \<or> unreadable (?els ! j))
            \<longrightarrow> (\<exists>k. scene < k \<and> k < j \<and> is_scene_heading (?els ! k))"
  proof (rule forward_scan_none)
    fix j assume j: "scene + 1 \<le> j" "j < length ?els" "speaks (?els ! j) \<or> unreadable (?els ! j)"
    then have "scene < j \<and> j < length ?els \<and> (speaks (?els ! j) \<or> unreadable (?els ! j))" by simp
    with nf have "\<exists>k. scene < k \<and> k < j \<and> is_scene_heading (?els ! k)" by blast
    then obtain k where "scene < k" "k < j" "is_scene_heading (?els ! k)" by (elim exE conjE)
    then show "\<exists>k\<ge>scene + 1. k < j \<and> is_scene_heading (?els ! k)"
      by (intro exI [of _ k]) simp
  qed
  have c1: "\<forall>j. scene < j \<and> j < length ?els \<and> speaks (?els ! j) \<and>
          (\<forall>k. scene < k \<and> k < j \<longrightarrow>
             \<not> is_scene_heading (?els ! k) \<and> \<not> speaks (?els ! k) \<and> \<not> unreadable (?els ! k))
        \<longrightarrow> getDialogueForScene scene script = Inr (Some (match_at script j))"
  proof (intro allI impI, elim conjE)
    fix j
    assume j: "scene < j" "j < length ?els" "speaks (?els ! j)"
      and clear: "\<forall>k. scene < k \<and> k < j \<longrightarrow>
        \<not> is_scene_heading (?els ! k) \<and> \<not> speaks (?els ! k) \<and> \<not> unreadable (?els ! k)"
    have "forward_scan script (scene + 1) = Inr (Some (match_at script j))"
    proof (rule forward_scan_found [OF j(2) j(3)])
      show "scene + 1 \<le> j" using j(1) by simp
    next
      fix k assume "scene + 1 \<le> k" "k < j"
      then have "scene < k \<and> k < j" by simp
      with clear show "\<not> is_scene_heading (?els ! k) \<and> \<not> speaks (?els ! k) \<and> \<not> unreadable (?els ! k)"
        by blast
    qed
    then show "getDialogueForScene scene script = Inr (Some (match_at script j))"
      by (simp add: getDialogueForScene_def)
  qed
  have c2: "(\<forall>j. scene < j \<and> j < length ?els \<and> (speaks (?els ! j) \<or> unreadable (?els ! j))
            \<longrightarrow> (\<exists>k. scene < k \<and> k < j \<and> is_scene_heading (?els ! k)))
        \<longrightarrow> (\<forall>j. j < scene \<and> speaks (?els ! j) \<and>
                (\<forall>k. j < k \<and> k < scene \<longrightarrow>
                   \<not> is_scene_heading (?els ! k) \<and> \<not> speaks (?els ! k) \<and> \<not> unreadable (?els ! k))
              \<longrightarrow> getDialogueForScene scene script = Inr (Some (match_at script j)))
            \<and> ((\<forall>j. j < scene \<and> (speaks (?els ! j) \<or> unreadable (?els ! j))
                   \<longrightarrow> (\<exists>k. j < k \<and> k < scene \<and> is_scene_heading (?els ! k)))
                \<longrightarrow> getDialogueForScene scene script = Inr None)
            \<and> (\<forall>j. j < scene \<and> unreadable (?els ! j) \<and>
                (\<forall>k. j < k \<and> k < scene \<longrightarrow>
                   \<not> is_scene_heading (?els ! k) \<and> \<not> speaks (?els ! k) \<and> \<not> unreadable (?els ! k))
              \<longrightarrow> getDialogueForScene scene script = Inl TypeError)"
  proof (intro impI conjI allI)
    fix j
    assume nf: "\<forall>j. scene < j \<and> j < length ?els \<and> (speaks (?els ! j) \<or> unreadable (?els ! j))
            \<longrightarrow> (\<exists>k. scene < k \<and> k < j \<and> is_scene_heading (?els ! k))"
      and j: "j < scene \<and> speaks (?els ! j) \<and>
                (\<forall>k. j < k \<and> k < scene \<longrightarrow>
                   \<not> is_scene_heading (?els ! k) \<and> \<not> speaks (?els ! k) \<and> \<not> unreadable (?els ! k))"
    have "backward_scan script scene = Inr (Some (match_at script j))"
    proof (rule backward_scan_found)
      show "speaks (?els ! j)" "j < scene" using j by simp_all
      show "scene \<le> length ?els" using assms by simp
    next
      fix k assume "j < k" "k < scene"
      then have "j < k \<and> k < scene" by simp
      moreover from j have "\<forall>k. j < k \<and> k < scene \<longrightarrow>
          \<not> is_scene_heading (?els ! k) \<and> \<not> speaks (?els ! k) \<and> \<not> unreadable (?els ! k)" by simp
      ultimately show "\<not> is_scene_heading (?els ! k) \<and> \<not> speaks (?els ! k) \<and> \<not> unreadable (?els ! k)"
        by simp
    qed
    with none [OF nf] show "getDialogueForScene scene script = Inr (Some (match_at script j))"
      by (simp add: getDialogueForScene_def)
  next
    assume nf: "\<forall>j. scene < j \<and> j < length ?els \<and> (speaks (?els ! j) \<or> unreadable (?els ! j))
            \<longrightarrow> (\<exists>k. scene < k \<and> k < j \<and> is_scene_heading (?els ! k))"
      and nb: "\<forall>j. j < scene \<and> (speaks (?els ! j) \<or> unreadable (?els ! j))
                   \<longrightarrow> (\<exists>k. j < k \<and> k < scene \<and> is_scene_heading (?els ! k))"
    have "backward_scan script scene = Inr None"
    proof (rule backward_scan_none)
      show "scene \<le> length ?els" using assms by simp
    next
      fix j assume "j < scene" "speaks (?els ! j) \<or> unreadable (?els ! j)"
      then have "j < scene \<and> (speaks (?els ! j) \<or> unreadable (?els ! j))" by simp
      with nb show "\<exists>k. j < k \<and> k < scene \<and> is_scene_heading (?els ! k)" by blast
    qed
    with none [OF nf] show "getDialogueForScene scene script = Inr None"
      by (simp add: getDialogueForScene_def)
  next
    fix j
    assume nf: "\<forall>j. scene < j \<and> j < length ?els \<and> (speaks (?els ! j) \<or> unreadable (?els ! j))
            \<longrightarrow> (\<exists>k. scene < k \<and> k < j \<and> is_scene_heading (?els ! k))"
      and j: "j < scene \<and> unreadable (?els ! j) \<and>
                (\<forall>k. j < k \<and> k < scene \<longrightarrow>
                   \<not> is_scene_heading (?els ! k) \<and> \<not> speaks (?els ! k) \<and> \<not> unreadable (?els ! k))"
    have "backward_scan script scene = Inl TypeError"
    proof (rule backward_scan_throws)
      show "unreadable (?els ! j)" "j < scene" using j by simp_all
      show "scene \<le> length ?els" using assms by simp
    next
      fix k assume "j < k" "k < scene"
      then have "j < k \<and> k < scene" by simp
      moreover from j have "\<forall>k. j < k \<and> k < scene \<longrightarrow>
          \<not> is_scene_heading (?els ! k) \<and> \<not> speaks (?els ! k) \<and> \<not> unreadable (?els ! k)" by simp
      ultimately show "\<not> is_scene_heading (?els ! k) \<and> \<not> speaks (?els ! k) \<and> \<not> unreadable (?els ! k)"
        by simp
    qed
    with none [OF nf] show "getDialogueForScene scene script = Inl TypeError"
      by (simp add: getDialogueForScene_def)
  qed
  have c3: "\<forall>j. scene < j \<and> j < length ?els \<and> unreadable (?els ! j) \<and>
          (\<forall>k. scene < k \<and> k < j \<longrightarrow>
             \<not> is_scene_heading (?els ! k) \<and> \<not> speaks (?els ! k) \<and> \<not> unreadable (?els ! k))
        \<longrightarrow> getDialogueForScene scene script = Inl TypeError"
  proof (intro allI impI, elim conjE)
    fix j
    assume j: "scene < j" "j < length ?els" "unreadable (?els ! j)"
      and clear: "\<forall>k. scene < k \<and> k < j \<longrightarrow>
        \<not> is_scene_heading (?els ! k) \<and> \<not> speaks (?els ! k) \<and> \<not> unreadable (?els ! k)"
    have "forward_scan script (scene + 1) = Inl TypeError"
    proof (rule forward_scan_throws [OF j(2) j(3)])
      show "scene + 1 \<le> j" using j(1) by simp
    next
      fix k assume "scene + 1 \<le> k" "k < j"
      then have "scene < k \<and> k < j" by simp
      with clear show "\<not> is_scene_heading (?els ! k) \<and> \<not> speaks (?els ! k) \<and> \<not> unreadable (?els ! k)"
        by blast
    qed
    then show "getDialogueForScene scene script = Inl TypeError"
      by (simp add: getDialogueForScene_def)
  qed
  have c4: "list_all (\<lambda>el. SceneElement.type el = dialogue_block \<longrightarrow>
                     elements el \<noteq> None \<and> SceneElement.character el \<noteq> None) ?els
        \<longrightarrow> (\<forall>j < length ?els. \<not> unreadable (?els ! j))"
    by (intro impI allI) (rule readable_script)
  have c5: "\<forall>j speaker elems.
          SceneElement.character (?els ! j) = Some speaker \<and>
          elements (?els ! j) = Some elems \<and> speaks (?els ! j)
          \<longrightarrow> DialogueMatch.character (match_at script j) = toUpperCase speaker \<and> elementIndex (match_at script j) = j \<and>
              (\<exists>ps text qs. elems = ps @ DialoguePart Dialogue text # qs \<and>
                 list_all (\<lambda>p. part_type p \<noteq> Dialogue) ps \<and>
                 DialogueMatch.dialogue (match_at script j) = text \<and> text \<noteq> [])"
  proof (intro allI impI, elim conjE)
    fix j speaker elems
    assume "SceneElement.character (?els ! j) = Some speaker" "elements (?els ! j) = Some elems"
      "speaks (?els ! j)"
    then show "DialogueMatch.character (match_at script j) = toUpperCase speaker \<and> elementIndex (match_at script j) = j \<and>
              (\<exists>ps text qs. elems = ps @ DialoguePart Dialogue text # qs \<and>
                 list_all (\<lambda>p. part_type p \<noteq> Dialogue) ps \<and>
                 DialogueMatch.dialogue (match_at script j) = text \<and> text \<noteq> [])"
      by (rule match_at_fields)
  qed
  have ex0: "getDialogueForScene 0 example_script =
          Inr (Some \<lparr>DialogueMatch.character = ''ANN'', DialogueMatch.dialogue = ''Hello. Anyone?'',
                     elementIndex = 1\<rparr>)"
    by code_simp
  have ex3: "getDialogueForScene 3 example_script = Inr None"
    by code_simp
  have ex4: "getDialogueForScene 0 no_elements_script = Inl TypeError"
    by code_simp
  have ex5: "getDialogueForScene 0 no_character_script = Inl TypeError"
    by code_simp
  from c1 c2 c3 c4 c5 ex0 ex3 ex4 ex5 show ?thesis by (intro conjI)
qed

text \<open>The statement at the example script, scenes 0 and 3, through its hypotheses.\<close>

theorem getDialogueForScene_nearest_spoken_witness:
  "0 < length (scene_elements example_script)
   \<and> speaks (scene_elements example_script ! 1)
   \<and> getDialogueForScene 0 example_script = Inr (Some (match_at example_script 1))
   \<and> elementIndex (match_at example_script 1) = 1
   \<and> getDialogueForScene 3 example_script = Inr None
   \<and> \<not> unreadable (scene_elements example_script ! 1)"
proof -
  let ?els = "scene_elements example_script"
  have len0: "0 < length ?els" and len3: "3 < length ?els" and len1: "1 < length ?els"
    by (simp_all add: example_script_def)
  have len4: "length ?els = 4"
    by (simp add: example_script_def)
  have sp: "speaks (?els ! 1)"
    by (simp add: example_script_def speaks_def spoken_text_def spoken_def block_of_def)
  have ch: "SceneElement.character (?els ! 1) = Some ''Ann''"
    and el: "elements (?els ! 1) =
      Some [DialoguePart Parenthetical ''(softly)'', DialoguePart Dialogue ''Hello. Anyone?'']"
    by (simp_all add: example_script_def block_of_def)
  note at0 = getDialogueForScene_nearest_spoken [OF len0]
  note at3 = getDialogueForScene_nearest_spoken [OF len3]
  from at0 have fields: "\<forall>j speaker elems.
      SceneElement.character (?els ! j) = Some speaker \<and>
      elements (?els ! j) = Some elems \<and> speaks (?els ! j)
      \<longrightarrow> DialogueMatch.character (match_at example_script j) = toUpperCase speaker \<and>
          elementIndex (match_at example_script j) = j \<and>
          (\<exists>ps text qs. elems = ps @ DialoguePart Dialogue text # qs \<and>
             list_all (\<lambda>p. part_type p \<noteq> Dialogue) ps \<and>
             DialogueMatch.dialogue (match_at example_script j) = text \<and> text \<noteq> [])"
    by (elim conjE)
  from fields ch el sp have idx: "elementIndex (match_at example_script 1) = 1"
    by (elim allE [of _ 1] allE [of _ "''Ann''"]
        allE [of _ "[DialoguePart Parenthetical ''(softly)'', DialoguePart Dialogue ''Hello. Anyone?'']"])
      simp
  from at0 have fwd: "\<forall>j. 0 < j \<and> j < length ?els \<and> speaks (?els ! j) \<and>
          (\<forall>k. 0 < k \<and> k < j \<longrightarrow>
             \<not> is_scene_heading (?els ! k) \<and> \<not> speaks (?els ! k) \<and> \<not> unreadable (?els ! k))
        \<longrightarrow> getDialogueForScene 0 example_script = Inr (Some (match_at example_script j))"
    by (elim conjE)
  have between: "\<forall>k. 0 < k \<and> k < (1::nat) \<longrightarrow>
      \<not> is_scene_heading (?els ! k) \<and> \<not> speaks (?els ! k) \<and> \<not> unreadable (?els ! k)"
    by simp
  from fwd len1 sp between
  have s0: "getDialogueForScene 0 example_script = Inr (Some (match_at example_script 1))"
    by (elim allE [of _ 1]) simp
  have nofwd: "\<forall>j. 3 < j \<and> j < length ?els \<and> (speaks (?els ! j) \<or> unreadable (?els ! j))
      \<longrightarrow> (\<exists>k. 3 < k \<and> k < j \<and> is_scene_heading (?els ! k))"
    using len4 by auto
  have h2: "is_scene_heading (?els ! 2)"
    by (simp add: example_script_def is_scene_heading_def heading_of_def)
  have ns2: "\<not> speaks (?els ! 2)" "\<not> unreadable (?els ! 2)"
    by (simp_all add: example_script_def speaks_def unreadable_def heading_of_def)
  have nobwd: "\<forall>j. j < 3 \<and> (speaks (?els ! j) \<or> unreadable (?els ! j))
      \<longrightarrow> (\<exists>k. j < k \<and> k < 3 \<and> is_scene_heading (?els ! k))"
  proof (intro allI impI)
    fix j :: nat assume j: "j < 3 \<and> (speaks (?els ! j) \<or> unreadable (?els ! j))"
    with ns2 have "j \<noteq> 2" by auto
    with j have "j < 2" by simp
    with h2 show "\<exists>k. j < k \<and> k < 3 \<and> is_scene_heading (?els ! k)"
      by (intro exI [of _ 2]) simp
  qed
  from at3 have bwd: "(\<forall>j. 3 < j \<and> j < length ?els \<and> (speaks (?els ! j) \<or> unreadable (?els ! j))
            \<longrightarrow> (\<exists>k. 3 < k \<and> k < j \<and> is_scene_heading (?els ! k)))
        \<longrightarrow> (\<forall>j. j < 3 \<and> speaks (?els ! j) \<and>
                (\<forall>k. j < k \<and> k < 3 \<longrightarrow>
                   \<not> is_scene_heading (?els ! k) \<and> \<not> speaks (?els ! k) \<and> \<not> unreadable (?els ! k))
              \<longrightarrow> getDialogueForScene 3 example_script = Inr (Some (match_at example_script j)))
            \<and> ((\<forall>j. j < 3 \<and> (speaks (?els ! j) \<or> unreadable (?els ! j))
                   \<longrightarrow> (\<exists>k. j < k \<and> k < 3 \<and> is_scene_heading (?els ! k)))
                \<longrightarrow> getDialogueForScene 3 example_script = Inr None)
            \<and> (\<forall>j. j < 3 \<and> unreadable (?els ! j) \<and>
                (\<forall>k. j < k \<and> k < 3 \<longrightarrow>
                   \<not> is_scene_heading (?els ! k) \<and> \<not> speaks (?els ! k) \<and> \<not> unreadable (?els ! k))
              \<longrightarrow> getDialogueForScene 3 example_script = Inl TypeError)"
    by (elim conjE)
  from bwd [THEN mp, OF nofwd] have "(\<forall>j. j < 3 \<and> (speaks (?els ! j) \<or> unreadable (?els ! j))
                   \<longrightarrow> (\<exists>k. j < k \<and> k < 3 \<and> is_scene_heading (?els ! k)))
                \<longrightarrow> getDialogueForScene 3 example_script = Inr None"
    by (elim conjE)
  from this [THEN mp, OF nobwd] have s3: "getDialogueForScene 3 example_script = Inr None" .
  have wf: "list_all (\<lambda>el. SceneElement.type el = dialogue_block \<longrightarrow>
      elements el \<noteq> None \<and> SceneElement.character el \<noteq> None) ?els"
    by (simp add: example_script_def block_of_def action_of_def heading_of_def)
  from at0 have "list_all (\<lambda>el. SceneElement.type el = dialogue_block \<longrightarrow>
      elements el \<noteq> None \<and> SceneElement.character el \<noteq> None) ?els
        \<longrightarrow> (\<forall>j < length ?els. \<not> unreadable (?els ! j))"
    by (elim conjE)
  from this [THEN mp, OF wf] len1 have nu: "\<not> unreadable (?els ! 1)"
    by simp
  from len0 sp s0 idx s3 nu show ?thesis by (intro conjI)
qed

text \<open>
  On a script whose first dialogue block after the scene has an empty first dialogue
  text, the source goes on to the next block; the association as specified stops at the
  first.
\<close>

theorem getDialogueForScene_empty_text_counterexample:
  "getDialogueForScene 0 silent_script =
     Inr (Some \<lparr>DialogueMatch.character = ''BOB'', DialogueMatch.dialogue = ''Hi.'', elementIndex = 2\<rparr>)
   \<and> specified_association 0 silent_script =
     Some \<lparr>DialogueMatch.character = ''ANN'', DialogueMatch.dialogue = [], elementIndex = 1\<rparr>"
  by code_simp

section \<open>The resolver selects the first nearest key\<close>

lemma lower_char_alnum:
  "lower_char c \<in> set (lower_letters @ digits) \<longleftrightarrow> c \<in> set (upper_letters @ lower_letters @ digits)"
  by (simp add: lower_char_def upper_letters_def lower_letters_def digits_def) 


lemma normalizeForMatch_strip_lower:
  "normalizeForMatch q =
     map lower_char (filter (\<lambda>c. c \<in> set (upper_letters @ lower_letters @ digits)) q)"
  unfolding normalizeForMatch_def toLowerCase_def filter_map o_def lower_char_alnum ..

lemma first_nearest_unique:
  assumes "first_nearest q keys i" "first_nearest q keys i'"
  shows "i = i'"
proof (rule ccontr)
  assume "i \<noteq> i'"
  then consider "i < i'" | "i' < i" by linarith
  then show False
  proof cases
    case 1
    with assms have "key_distance q keys i' < key_distance q keys i"
      "key_distance q keys i \<le> key_distance q keys i'"
      unfolding first_nearest_def by auto
    then show False by simp
  next
    case 2
    with assms have "key_distance q keys i < key_distance q keys i'"
      "key_distance q keys i' \<le> key_distance q keys i"
      unfolding first_nearest_def by auto
    then show False by simp
  qed
qed

lemma best_match_snoc:
  "best_match n (keys @ [k]) = consider_key n k (best_match n keys)"
  by (simp add: best_match_def)

lemma best_match_first_nearest:
  assumes "keys \<noteq> []"
  shows "\<exists>i. first_nearest q keys i \<and>
           best_match (normalizeForMatch q) keys = (Some (keys ! i), enat (key_distance q keys i))"
  using assms
proof (induction keys rule: rev_induct)
  case Nil
  then show ?case by simp
next
  case (snoc k keys)
  let ?n = "normalizeForMatch q"
  let ?d = "levenshteinDistance ?n (normalizeForMatch k)"
  have last: "key_distance q (keys @ [k]) (length keys) = ?d"
    by (simp add: key_distance_def)
  have old: "key_distance q (keys @ [k]) j = key_distance q keys j" if "j < length keys" for j
    using that by (simp add: key_distance_def nth_append)
  show ?case
  proof (cases "keys = []")
    case True
    have "first_nearest q [k] 0"
      by (simp add: first_nearest_def)
    moreover have "best_match ?n [k] = (Some k, enat (key_distance q [k] 0))"
      by (simp add: best_match_def consider_key_def key_distance_def)
    ultimately show ?thesis using True by (intro exI [of _ 0]) simp
  next
    case False
    with snoc.IH obtain i where i: "first_nearest q keys i"
      and best: "best_match ?n keys = (Some (keys ! i), enat (key_distance q keys i))"
      by blast
    from i have ilt: "i < length keys"
      and imin: "\<And>j. j < length keys \<Longrightarrow> key_distance q keys i \<le> key_distance q keys j"
      and ifirst: "\<And>j. j < i \<Longrightarrow> key_distance q keys i < key_distance q keys j"
      unfolding first_nearest_def by auto
    show ?thesis
    proof (cases "?d < key_distance q keys i")
      case True
      have "first_nearest q (keys @ [k]) (length keys)"
        unfolding first_nearest_def
      proof (intro conjI allI impI)
        show "length keys < length (keys @ [k])" by simp
      next
        fix j assume "j < length (keys @ [k])"
        then consider "j < length keys" | "j = length keys" by fastforce
        then show "key_distance q (keys @ [k]) (length keys) \<le> key_distance q (keys @ [k]) j"
        proof cases
          case 1
          with imin [of j] True show ?thesis by (simp add: last old)
        next
          case 2
          then show ?thesis by simp
        qed
      next
        fix j assume "j < length keys"
        with imin [of j] True
        show "key_distance q (keys @ [k]) (length keys) < key_distance q (keys @ [k]) j"
          by (simp add: last old)
      qed
      moreover have "best_match ?n (keys @ [k]) =
          (Some ((keys @ [k]) ! length keys), enat (key_distance q (keys @ [k]) (length keys)))"
        using True by (simp add: best_match_snoc best consider_key_def last)
      ultimately show ?thesis by blast
    next
      case False
      have "first_nearest q (keys @ [k]) i"
        unfolding first_nearest_def
      proof (intro conjI allI impI)
        show "i < length (keys @ [k])" using ilt by simp
      next
        fix j assume "j < length (keys @ [k])"
        then consider "j < length keys" | "j = length keys" by fastforce
        then show "key_distance q (keys @ [k]) i \<le> key_distance q (keys @ [k]) j"
        proof cases
          case 1
          with imin [of j] ilt show ?thesis by (simp add: old)
        next
          case 2
          with False ilt show ?thesis by (simp add: last old)
        qed
      next
        fix j assume "j < i"
        with ifirst [of j] ilt show "key_distance q (keys @ [k]) i < key_distance q (keys @ [k]) j"
          by (simp add: old)
      qed
      moreover have "best_match ?n (keys @ [k]) =
          (Some ((keys @ [k]) ! i), enat (key_distance q (keys @ [k]) i))"
        using False ilt by (simp add: best_match_snoc best consider_key_def old nth_append)
      ultimately show ?thesis by blast
    qed
  qed
qed

lemma best_match_at:
  assumes "first_nearest q keys i"
  shows "best_match (normalizeForMatch q) keys = (Some (keys ! i), enat (key_distance q keys i))"
proof -
  from assms have "keys \<noteq> []" by (auto simp: first_nearest_def)
  from best_match_first_nearest [OF this, of q] obtain i' where
    "first_nearest q keys i'"
    "best_match (normalizeForMatch q) keys = (Some (keys ! i'), enat (key_distance q keys i'))"
    by blast
  with first_nearest_unique [OF assms, of i'] show ?thesis by simp
qed

lemma levenshteinDistance_Nil2: "levenshteinDistance a [] = length a"
  by (auto simp: levenshteinDistance_def Let_def)

lemma accepted_iff:
  assumes "n \<noteq> []"
  shows "accepted n (Some k, enat (levenshteinDistance n (normalizeForMatch k))) =
     (if 2 * levenshteinDistance n (normalizeForMatch k) < max (length n) (length (normalizeForMatch k))
      then Some (k, levenshteinDistance n (normalizeForMatch k)) else None)"
proof (cases "k = []")
  case True
  then have "normalizeForMatch k = []" by (simp add: normalizeForMatch_def toLowerCase_def)
  with True assms show ?thesis by (simp add: accepted_def levenshteinDistance_Nil2)
next
  case False
  then show ?thesis by (simp add: accepted_def)
qed

lemma resolve_key_at:
  assumes "normalizeForMatch q \<noteq> []" "first_nearest q (map fst refs) i"
  shows "resolve_key refs q =
     (if 2 * key_distance q (map fst refs) i <
           max (length (normalizeForMatch q)) (length (normalizeForMatch (map fst refs ! i)))
      then Some (map fst refs ! i, key_distance q (map fst refs) i) else None)"
proof -
  from assms(2) have ne: "map fst refs \<noteq> []" by (auto simp: first_nearest_def)
  show ?thesis
    using assms(1) ne
    by (simp add: resolve_key_def Let_def best_match_at [OF assms(2)]
        accepted_iff [OF assms(1), folded key_distance_def] key_distance_def)
qed

lemma map_of_first_nearest:
  assumes "first_nearest q (map fst refs) i"
  shows "map_of refs (map fst refs ! i) = Some (snd (refs ! i))"
proof -
  from assms have ilt: "i < length refs"
    and first: "\<And>j. j < i \<Longrightarrow> key_distance q (map fst refs) i < key_distance q (map fst refs) j"
    unfolding first_nearest_def by auto
  have diff: "fst (refs ! j) \<noteq> fst (refs ! i)" if "j < i" for j
  proof
    assume "fst (refs ! j) = fst (refs ! i)"
    with that ilt have "key_distance q (map fst refs) j = key_distance q (map fst refs) i"
      by (simp add: key_distance_def)
    with first [OF that] show False by simp
  qed
  have "map_of refs (fst (refs ! i)) = Some (snd (refs ! i))"
    using ilt diff
  proof (induction refs arbitrary: i)
    case Nil
    then show ?case by simp
  next
    case (Cons r refs)
    show ?case
    proof (cases i)
      case 0
      then show ?thesis by (cases r) simp
    next
      case (Suc i')
      with Cons.prems(2) [of 0] have "fst r \<noteq> fst (refs ! i')" by simp
      moreover have "map_of refs (fst (refs ! i')) = Some (snd (refs ! i'))"
      proof (rule Cons.IH)
        show "i' < length refs" using Cons.prems(1) Suc by simp
      next
        fix j assume "j < i'"
        with Cons.prems(2) [of "Suc j"] Suc show "fst (refs ! j) \<noteq> fst (refs ! i')" by simp
      qed
      ultimately show ?thesis using Suc by (cases r) auto
    qed
  qed
  with ilt show ?thesis by simp
qed

lemma below_half_iff:
  assumes "0 < m"
  shows "(real d / real m < 1 / 2) = (2 * d < m)"
proof -
  have "(real d / real m < 1 / 2) = (real d * 2 < real m)"
    using assms by (simp add: field_simps)
  also have "\<dots> = (real (2 * d) < real m)" by (simp add: mult.commute)
  also have "\<dots> = (2 * d < m)" by (rule of_nat_less_iff)
  finally show ?thesis .
qed

text \<open>
  Claim C6. The resolver normalises the name and every candidate key alike: the characters
  that are not letters or digits are removed and the rest is in lower case. It selects the
  first key, in the order of iteration, among those at the least edit distance from the
  normalised name, and supplies its image exactly when that distance divided by the
  greater of the two normalised lengths is below one half; otherwise, and when the name
  normalises to the empty string or there is no candidate, the name is unresolved. With
  the candidates jane and john, Jane resolves to the image of jane and Xyzzy is unresolved.
\<close>

theorem resolve_character_first_nearest:
  "normalizeForMatch q =
     map lower_char (filter (\<lambda>c. c \<in> set (upper_letters @ lower_letters @ digits)) q)
   \<and> (normalizeForMatch q = [] \<or> refs = [] \<longrightarrow> resolve_character refs q = None)
   \<and> (refs \<noteq> [] \<longrightarrow> (\<exists>i. first_nearest q (map fst refs) i))
   \<and> (\<forall>i. normalizeForMatch q \<noteq> [] \<and> first_nearest q (map fst refs) i \<longrightarrow>
         resolve_character refs q =
           (if real (key_distance q (map fst refs) i) /
               real (max (length (normalizeForMatch q)) (length (normalizeForMatch (fst (refs ! i)))))
               < 1 / 2
            then Some (snd (refs ! i)) else None))
   \<and> normalizeForMatch ''Jane-Doe 2'' = ''janedoe2''
   \<and> resolve_character example_references ''Jane'' = Some (snd (example_references ! 0))
   \<and> resolve_character example_references ''Xyzzy'' = None"
proof -
  have c2: "normalizeForMatch q = [] \<or> refs = [] \<longrightarrow> resolve_character refs q = None"
    by (auto simp: resolve_character_def resolve_key_def)
  have c3: "refs \<noteq> [] \<longrightarrow> (\<exists>i. first_nearest q (map fst refs) i)"
  proof
    assume "refs \<noteq> []"
    then have "map fst refs \<noteq> []" by simp
    from best_match_first_nearest [OF this, of q]
    show "\<exists>i. first_nearest q (map fst refs) i" by blast
  qed
  have c4: "\<forall>i. normalizeForMatch q \<noteq> [] \<and> first_nearest q (map fst refs) i \<longrightarrow>
         resolve_character refs q =
           (if real (key_distance q (map fst refs) i) /
               real (max (length (normalizeForMatch q)) (length (normalizeForMatch (fst (refs ! i)))))
               < 1 / 2
            then Some (snd (refs ! i)) else None)"
  proof (intro allI impI, elim conjE)
    fix i
    assume n: "normalizeForMatch q \<noteq> []" and i: "first_nearest q (map fst refs) i"
    from i have ilt: "i < length refs" by (simp add: first_nearest_def)
    let ?m = "max (length (normalizeForMatch q)) (length (normalizeForMatch (fst (refs ! i))))"
    from n have "0 < length (normalizeForMatch q)" by simp
    then have "0 < ?m" by linarith
    then have half: "(real (key_distance q (map fst refs) i) / real ?m < 1 / 2) =
        (2 * key_distance q (map fst refs) i < ?m)"
      by (rule below_half_iff)
    show "resolve_character refs q =
           (if real (key_distance q (map fst refs) i) / real ?m < 1 / 2
            then Some (snd (refs ! i)) else None)"
      unfolding half resolve_character_def resolve_key_at [OF n i]
      using ilt map_of_first_nearest [OF i] by simp
  qed
  have e1: "normalizeForMatch ''Jane-Doe 2'' = ''janedoe2''"
    by code_simp
  have e2: "resolve_character example_references ''Jane'' = Some (snd (example_references ! 0))"
    by code_simp
  have e3: "resolve_character example_references ''Xyzzy'' = None"
    by code_simp
  from normalizeForMatch_strip_lower [of q] c2 c3 c4 e1 e2 e3 show ?thesis by (intro conjI)
qed

text \<open>The statement at the name Jon, which is nearest to john, at distance 1 of 4.\<close>

theorem resolve_character_first_nearest_witness:
  "normalizeForMatch ''Jon'' \<noteq> []
   \<and> first_nearest ''Jon'' (map fst example_references) 1
   \<and> key_distance ''Jon'' (map fst example_references) 1 = 1
   \<and> resolve_character example_references ''Jon'' =
       Some \<lparr>ImageData.base64 = ''am9obg=='', mimeType = ''image/jpeg'', ReferenceImage.name = ''john''\<rparr>"
proof -
  have "normalizeForMatch ''Jon'' = ''jon''" by code_simp
  then have n: "normalizeForMatch ''Jon'' \<noteq> []" by simp
  have d0: "key_distance ''Jon'' (map fst example_references) 0 = 2" by code_simp
  have d1: "key_distance ''Jon'' (map fst example_references) 1 = 1" by code_simp
  have d1': "key_distance ''Jon'' (map fst example_references) (Suc 0) = 1"
    using d1 by simp
  have len: "length (map fst example_references) = 2" by (simp add: example_references_def)
  have f: "first_nearest ''Jon'' (map fst example_references) 1"
    unfolding first_nearest_def len
  proof (intro conjI allI impI)
    fix j :: nat assume "j < 2"
    then consider "j = 0" | "j = 1" by linarith
    then show "key_distance ''Jon'' (map fst example_references) 1
        \<le> key_distance ''Jon'' (map fst example_references) j"
      by cases (simp_all add: d0 d1')
  next
    fix j :: nat assume "j < 1"
    then show "key_distance ''Jon'' (map fst example_references) 1
        < key_distance ''Jon'' (map fst example_references) j"
      by (simp add: d0 d1')
  qed simp
  have m: "max (length (normalizeForMatch ''Jon''))
      (length (normalizeForMatch (fst (example_references ! 1)))) = 4"
    by code_simp
  have r: "snd (example_references ! 1) =
      \<lparr>ImageData.base64 = ''am9obg=='', mimeType = ''image/jpeg'', ReferenceImage.name = ''john''\<rparr>"
    by (simp add: example_references_def)
  from resolve_character_first_nearest [of "''Jon''" example_references] n f
  have "resolve_character example_references ''Jon'' =
      (if real (key_distance ''Jon'' (map fst example_references) 1) /
               real (max (length (normalizeForMatch ''Jon''))
                 (length (normalizeForMatch (fst (example_references ! 1))))) < 1 / 2
       then Some (snd (example_references ! 1)) else None)"
    by blast
  then have "resolve_character example_references ''Jon'' = Some (snd (example_references ! 1))"
    unfolding d1 m by simp
  with n f d1 r show ?thesis by simp
qed

section \<open>Duplicate dialogue is flagged from the second use on\<close>

lemma forward_scan_TypeError: "forward_scan script i = Inl e \<Longrightarrow> e = TypeError"
proof (induction script i rule: forward_scan.induct)
  case (1 script j)
  show ?case
  proof (cases "j < length (scene_elements script)")
    case False
    with "1.prems" show ?thesis by (subst (asm) forward_scan_unfold) simp
  next
    case True
    show ?thesis
    proof (cases "probe_element (scene_elements script ! j) j")
      case (Inl e')
      with True "1.prems" show ?thesis
        by (subst (asm) forward_scan_unfold) (simp add: probe_Throw)
    next
      case (Inr p)
      show ?thesis
      proof (cases p)
        case Boundary
        with Inr True "1.prems" show ?thesis by (subst (asm) forward_scan_unfold) simp
      next
        case (Match m)
        with Inr True "1.prems" show ?thesis by (subst (asm) forward_scan_unfold) simp
      next
        case Skip
        with Inr have skip: "probe_element (scene_elements script ! j) j = Inr Skip" by simp
        from "1.prems" True skip have "forward_scan script (j + 1) = Inl e"
          by (subst (asm) forward_scan_unfold) simp
        then show ?thesis by (rule "1.IH" [OF True skip refl])
      qed
    qed
  qed
qed

lemma backward_scan_TypeError: "backward_scan script n = Inl e \<Longrightarrow> e = TypeError"
  by (induction n) (auto simp: probe_Throw split: if_splits sum.splits probe.splits)

lemma getDialogueForScene_TypeError: "getDialogueForScene scene script = Inl e \<Longrightarrow> e = TypeError"
  by (auto simp: getDialogueForScene_def split: sum.splits option.splits
      dest: forward_scan_TypeError backward_scan_TypeError)

lemma forward_scan_returns:
  assumes "\<And>j. j < length (scene_elements script) \<Longrightarrow> \<not> unreadable (scene_elements script ! j)"
  shows "\<exists>r. forward_scan script i = Inr r"
  using assms
proof (induction script i rule: forward_scan.induct)
  case (1 script j)
  show ?case
  proof (cases "j < length (scene_elements script)")
    case False
    then show ?thesis by (subst forward_scan_unfold) simp
  next
    case True
    show ?thesis
    proof (cases "probe_element (scene_elements script ! j) j")
      case (Inl e')
      with "1.prems" [OF True] show ?thesis by (simp add: probe_Throw)
    next
      case (Inr p)
      show ?thesis
      proof (cases p)
        case Boundary
        with Inr True show ?thesis by (subst forward_scan_unfold) simp
      next
        case (Match m)
        with Inr True show ?thesis by (subst forward_scan_unfold) simp
      next
        case Skip
        with Inr have skip: "probe_element (scene_elements script ! j) j = Inr Skip" by simp
        from "1.IH" [OF True skip refl] "1.prems" obtain r where "forward_scan script (j + 1) = Inr r"
          by blast
        with True skip show ?thesis by (subst forward_scan_unfold) simp
      qed
    qed
  qed
qed

lemma backward_scan_returns:
  assumes "\<And>j. j < length (scene_elements script) \<Longrightarrow> \<not> unreadable (scene_elements script ! j)"
  shows "n \<le> length (scene_elements script) \<Longrightarrow> \<exists>r. backward_scan script n = Inr r"
proof (induction n)
  case 0
  show ?case by simp
next
  case (Suc n)
  then have n: "n < length (scene_elements script)" by simp
  from Suc obtain r where r: "backward_scan script n = Inr r" by auto
  show ?case
  proof (cases "probe_element (scene_elements script ! n) n")
    case (Inl e')
    with assms [OF n] show ?thesis by (simp add: probe_Throw)
  next
    case (Inr p)
    with n r show ?thesis by (cases p) simp_all
  qed
qed

lemma getDialogueForScene_returns:
  assumes "\<And>j. j < length (scene_elements script) \<Longrightarrow> \<not> unreadable (scene_elements script ! j)"
    and "scene \<le> length (scene_elements script)"
  shows "\<exists>r. getDialogueForScene scene script = Inr r"
proof -
  from forward_scan_returns [of script "scene + 1", OF assms(1)]
  obtain f where f: "forward_scan script (scene + 1) = Inr f" by blast
  from backward_scan_returns [of script scene, OF assms(1) assms(2)]
  obtain b where b: "backward_scan script scene = Inr b" by blast
  from f b show ?thesis
    by (cases f) (simp_all add: getDialogueForScene_def)
qed

lemma collect_dialogue_flagged:
  assumes "\<forall>img \<in> set images. getDialogueForScene (GeneratedImage.sceneIndex img) script \<noteq> Inl TypeError"
  shows "collect_dialogue script images (acc, seen) =
           Inr (acc @ flagged seen (associations script images),
                seen \<union> elementIndex ` set (associations script images))"
  using assms
proof (induction images arbitrary: acc seen)
  case Nil
  show ?case by (simp add: associations_def map_filter_simps)
next
  case (Cons img images)
  from Cons.prems getDialogueForScene_TypeError [of "GeneratedImage.sceneIndex img" script]
  obtain r where r: "getDialogueForScene (GeneratedImage.sceneIndex img) script = Inr r"
    by (cases "getDialogueForScene (GeneratedImage.sceneIndex img) script") auto
  from Cons.prems have rest:
    "\<forall>img \<in> set images. getDialogueForScene (GeneratedImage.sceneIndex img) script \<noteq> Inl TypeError"
    by simp
  show ?case
  proof (cases r)
    case None
    with r Cons.IH [OF rest] show ?thesis
      by (simp add: associations_def map_filter_simps)
  next
    case (Some diag)
    with r Cons.IH [OF rest] show ?thesis
      by (simp add: associations_def map_filter_simps)
  qed
qed

lemma collect_dialogue_throws:
  assumes "\<exists>img \<in> set images. getDialogueForScene (GeneratedImage.sceneIndex img) script = Inl TypeError"
  shows "collect_dialogue script images (acc, seen) = Inl TypeError"
  using assms
proof (induction images arbitrary: acc seen)
  case Nil
  then show ?case by simp
next
  case (Cons img images)
  show ?case
  proof (cases "getDialogueForScene (GeneratedImage.sceneIndex img) script")
    case (Inl e)
    then have "e = TypeError" by (rule getDialogueForScene_TypeError)
    with Inl show ?thesis by simp
  next
    case (Inr r)
    with Cons.prems have
      "\<exists>img \<in> set images. getDialogueForScene (GeneratedImage.sceneIndex img) script = Inl TypeError"
      by auto
    from Cons.IH [OF this] Inr show ?thesis by (cases r) simp_all
  qed
qed

lemma length_flagged [simp]: "length (flagged seen diags) = length diags"
  by (induction diags arbitrary: seen) simp_all




section \<open>The continuity chain\<close>

lemma chain_after_all:
  "generate_scene_images script refs style service prompts =
     chain_after script refs style service prompts (length prompts)"
  by (simp add: generate_scene_images_def chain_after_def)

lemma chain_after_0:
  "chain_after script refs style service prompts 0 =
     \<lparr>previousImageBase64 = None, finalGeneratedImages = [], imageReports = [], requests = []\<rparr>"
  by (simp add: chain_after_def)

lemma chain_after_Suc:
  assumes "k < length prompts"
  shows "chain_after script refs style service prompts (Suc k) =
     scene_iteration script refs style service (length prompts) (k, prompts ! k)
       (chain_after script refs style service prompts k)"
proof -
  have "take (Suc k) (zip [0..<length prompts] prompts) =
      take k (zip [0..<length prompts] prompts) @ [(k, prompts ! k)]"
    using assms by (simp add: take_Suc_conv_app_nth)
  then show ?thesis by (simp add: chain_after_def)
qed

text \<open>The three ways in which a pass ends.\<close>

lemma scene_iteration_cases:
  obtains
    (skipped) r where "scene_iteration script refs style service n (i, cp) st =
        st\<lparr>imageReports := imageReports st @ [r]\<rparr>"
  | (failed) r where "scene_iteration script refs style service n (i, cp) st =
        st\<lparr>imageReports := imageReports st @ [r], requests := requests st @ [image_call refs cp st]\<rparr>"
  | (generated) r b p where "b \<noteq> []"
      "CohesivePrompt.sceneIndex cp < length (scene_elements script)"
      "scene_iteration script refs style service n (i, cp) st =
        st\<lparr>previousImageBase64 := Some b,
           finalGeneratedImages := finalGeneratedImages st @
             [\<lparr>GeneratedImage.sceneIndex = CohesivePrompt.sceneIndex cp,
               imageUrl = ''data:image/png;base64,'' @ b,
               GeneratedImage.base64 = b, GeneratedImage.prompt = p\<rparr>],
           imageReports := imageReports st @ [r],
           requests := requests st @ [image_call refs cp st]\<rparr>"
proof (cases "CohesivePrompt.sceneIndex cp < length (scene_elements script)")
  case False
  then show ?thesis
    by (intro skipped) (simp add: scene_iteration_def)
next
  case inside: True
  show ?thesis
  proof (cases "generateImage (service i) (CohesivePrompt.prompt cp)
      (characterImagesForGen refs (CohesivePrompt.characters cp)) (previousImageBase64 st) style")
    case (Inl e)
    with inside show ?thesis
      by (intro failed) (simp add: scene_iteration_def image_call_def)
  next
    case (Inr res)
    show ?thesis
    proof (cases "imageBase64 res")
      case None
      with Inr inside show ?thesis
        by (intro failed) (simp add: scene_iteration_def image_call_def Let_def)
    next
      case (Some b)
      show ?thesis
      proof (cases "b = []")
        case True
        with Some Inr inside show ?thesis
          by (intro failed) (simp add: scene_iteration_def image_call_def Let_def)
      next
        case False
        with Some Inr inside show ?thesis
          by (intro generated [of b]) (simp_all add: scene_iteration_def image_call_def Let_def)
      qed
    qed
  qed
qed

lemma last_image_snoc [simp]: "last_image (images @ [img]) = Some (GeneratedImage.base64 img)"
  by (simp add: last_image_def)

lemma chain_step:
  assumes "k < length prompts"
  shows "(requests (chain_after script refs style service prompts (Suc k)) = requests (chain_after script refs style service prompts k) \<or>
          requests (chain_after script refs style service prompts (Suc k)) = requests (chain_after script refs style service prompts k) @ [image_call refs (prompts ! k) (chain_after script refs style service prompts k)])
       \<and> (finalGeneratedImages (chain_after script refs style service prompts (Suc k)) = finalGeneratedImages (chain_after script refs style service prompts k) \<and>
            previousImageBase64 (chain_after script refs style service prompts (Suc k)) = previousImageBase64 (chain_after script refs style service prompts k)
          \<or> (\<exists>img. finalGeneratedImages (chain_after script refs style service prompts (Suc k)) = finalGeneratedImages (chain_after script refs style service prompts k) @ [img] \<and>
                GeneratedImage.sceneIndex img = CohesivePrompt.sceneIndex (prompts ! k) \<and>
                GeneratedImage.sceneIndex img < length (scene_elements script) \<and>
                GeneratedImage.base64 img \<noteq> [] \<and>
                previousImageBase64 (chain_after script refs style service prompts (Suc k)) = Some (GeneratedImage.base64 img)))"
proof -
  have step: "chain_after script refs style service prompts (Suc k) =
      scene_iteration script refs style service (length prompts) (k, prompts ! k) (chain_after script refs style service prompts k)"
    by (rule chain_after_Suc [OF assms(1)])
  show ?thesis
  proof (cases rule: scene_iteration_cases
      [of script refs style service "length prompts" k "prompts ! k" "chain_after script refs style service prompts k"])
    case (skipped r)
    then show ?thesis unfolding step by simp
  next
    case (failed r)
    then show ?thesis unfolding step by simp
  next
    case (generated r b p)
    then show ?thesis unfolding step by simp
  qed
qed

lemma chain_previous_is_last:
  "k \<le> length prompts \<Longrightarrow>
     previousImageBase64 (chain_after script refs style service prompts k) =
       last_image (finalGeneratedImages (chain_after script refs style service prompts k))"
proof (induction k)
  case 0
  show ?case by (simp add: chain_after_0 last_image_def)
next
  case (Suc k)
  then have k: "k < length prompts" by simp
  from chain_step [OF k, of script refs style service] Suc.IH k show ?case
    by auto
qed

lemma succeeded_iff:
  assumes "k < length prompts"
  shows "succeeded script refs style service prompts k \<longleftrightarrow>
     finalGeneratedImages (chain_after script refs style service prompts (Suc k)) \<noteq>
     finalGeneratedImages (chain_after script refs style service prompts k)"
  using chain_step [OF assms, of script refs style service]
  by (auto simp: succeeded_def)

lemma chain_images_are_successes:
  "k \<le> length prompts \<Longrightarrow>
     map GeneratedImage.sceneIndex (finalGeneratedImages (chain_after script refs style service prompts k)) =
       map (\<lambda>j. CohesivePrompt.sceneIndex (prompts ! j))
         (filter (succeeded script refs style service prompts) [0..<k])"
proof (induction k)
  case 0
  show ?case by (simp add: chain_after_0)
next
  case (Suc k)
  then have k: "k < length prompts" by simp
  from chain_step [OF k, of script refs style service]
  consider
    (same) "finalGeneratedImages (chain_after script refs style service prompts (Suc k)) =
        finalGeneratedImages (chain_after script refs style service prompts k)"
  | (more) img where "finalGeneratedImages (chain_after script refs style service prompts (Suc k)) =
        finalGeneratedImages (chain_after script refs style service prompts k) @ [img]"
      "GeneratedImage.sceneIndex img = CohesivePrompt.sceneIndex (prompts ! k)"
    by blast
  then show ?case
  proof cases
    case same
    then have "\<not> succeeded script refs style service prompts k"
      by (simp add: succeeded_def)
    with same Suc.IH k show ?thesis by simp
  next
    case more
    then have "succeeded script refs style service prompts k"
      by (simp add: succeeded_def)
    with more Suc.IH k show ?thesis by simp
  qed
qed

lemma chain_images_in_script:
  "k \<le> length prompts \<Longrightarrow>
     list_all (\<lambda>img. GeneratedImage.sceneIndex img < length (scene_elements script))
       (finalGeneratedImages (chain_after script refs style service prompts k))"
proof (induction k)
  case 0
  show ?case by (simp add: chain_after_0)
next
  case (Suc k)
  then have k: "k < length prompts" by simp
  from chain_step [OF k, of script refs style service] Suc.IH k show ?case
    by auto
qed

lemma sorted_wrt_picked:
  assumes "sorted_wrt (<) (map f xs)"
  shows "sorted_wrt (<) (map (\<lambda>j. f (xs ! j)) (filter P [0..<length xs]))"
proof -
  have "map (\<lambda>j. f (xs ! j)) [0..<length xs] = map f xs"
    by (rule nth_equalityI) simp_all
  with assms have "sorted_wrt (<) (map (\<lambda>j. f (xs ! j)) [0..<length xs])"
    by simp
  then have "sorted_wrt (\<lambda>i j. f (xs ! i) < f (xs ! j)) [0..<length xs]"
    unfolding sorted_wrt_map .
  then have "sorted_wrt (\<lambda>i j. f (xs ! i) < f (xs ! j)) (filter P [0..<length xs])"
    by (rule sorted_wrt_filter)
  then show ?thesis unfolding sorted_wrt_map .
qed

lemma scenesToGenerate_ascending: "sorted_wrt (<) (map fst (scenesToGenerate script))"
proof -
  let ?all = "zip [0..<length (scene_elements script)] (scene_elements script)"
  have "sorted_wrt (<) (map fst ?all)" by simp
  then have "sorted_wrt (\<lambda>a b. fst a < fst b) ?all" unfolding sorted_wrt_map .
  then have "sorted_wrt (\<lambda>a b. fst a < fst b) (scenesWithAction script)"
    unfolding scenesWithAction_def by (rule sorted_wrt_filter)
  then have "sorted_wrt (\<lambda>a b. fst a < fst b) (scenesToGenerate script)"
    unfolding scenesToGenerate_def by (rule sorted_wrt_take)
  then show ?thesis unfolding sorted_wrt_map .
qed

lemma chain_images_nonempty:
  "k \<le> length prompts \<Longrightarrow>
     list_all (\<lambda>img. GeneratedImage.base64 img \<noteq> [])
       (finalGeneratedImages (chain_after script refs style service prompts k))"
proof (induction k)
  case 0
  show ?case by (simp add: chain_after_0)
next
  case (Suc k)
  then have k: "k < length prompts" by simp
  from chain_step [OF k, of script refs style service] Suc.IH k show ?case
    by auto
qed

lemma first_inline_data_nonempty: "first_inline_data ps = Some d \<Longrightarrow> d \<noteq> []"
  by (induction ps rule: first_inline_data.induct) (auto split: if_splits)

text \<open>The image that a call of \<open>generateImage\<close> gives is the image that the reply to its request carries.\<close>

lemma generateImage_image:
  "(case generateImage service p imgs prev style of
      Inr res \<Rightarrow> (case imageBase64 res of
                    Some b \<Rightarrow> if b \<noteq> [] then Some (b, finalPrompt res) else None
                  | None \<Rightarrow> None)
    | Inl e \<Rightarrow> None) =
   map_option (\<lambda>b. (b, final_prompt style p))
     (returned_image (service (request_parts (final_prompt style p) imgs prev)))"
proof (cases "service (request_parts (final_prompt style p) imgs prev)")
  case (Rejects msg)
  then show ?thesis
    by (simp add: generateImage_def returned_image_def Let_def error_message_def)
next
  case (Resolves candidates)
  show ?thesis
  proof (cases candidates)
    case Nil
    with Resolves show ?thesis
      by (simp add: generateImage_def returned_image_def Let_def)
  next
    case (Cons candidate others)
    show ?thesis
    proof (cases "content_parts candidate")
      case None
      with Cons Resolves show ?thesis
        by (simp add: generateImage_def returned_image_def Let_def)
    next
      case (Some ps)
      with Cons Resolves show ?thesis
        by (cases "first_inline_data ps")
          (auto simp: generateImage_def returned_image_def Let_def dest: first_inline_data_nonempty)
    qed
  qed
qed

lemma scene_iteration_images:
  "finalGeneratedImages (scene_iteration script refs style service n (i, cp) st) =
     finalGeneratedImages st @
     (if CohesivePrompt.sceneIndex cp < length (scene_elements script) then
        (case returned_image
                (service i (request_parts (final_prompt style (CohesivePrompt.prompt cp))
                   (characterImagesForGen refs (CohesivePrompt.characters cp)) (previousImageBase64 st))) of
           Some b \<Rightarrow>
             [\<lparr>GeneratedImage.sceneIndex = CohesivePrompt.sceneIndex cp,
               imageUrl = ''data:image/png;base64,'' @ b,
               GeneratedImage.base64 = b,
               GeneratedImage.prompt = final_prompt style (CohesivePrompt.prompt cp)\<rparr>]
         | None \<Rightarrow> [])
      else [])"
proof (cases "CohesivePrompt.sceneIndex cp < length (scene_elements script)")
  case False
  then show ?thesis by (simp add: scene_iteration_def)
next
  case True
  note img = generateImage_image [of "service i" "CohesivePrompt.prompt cp"
      "characterImagesForGen refs (CohesivePrompt.characters cp)" "previousImageBase64 st" style, symmetric]
  show ?thesis
  proof (cases "generateImage (service i) (CohesivePrompt.prompt cp)
      (characterImagesForGen refs (CohesivePrompt.characters cp)) (previousImageBase64 st) style")
    case (Inl e)
    with img True show ?thesis
      by (simp add: scene_iteration_def Let_def)
  next
    case (Inr res)
    show ?thesis
    proof (cases "imageBase64 res")
      case None
      with Inr img True show ?thesis
        by (simp add: scene_iteration_def Let_def)
    next
      case (Some b)
      with Inr img True show ?thesis
        by (cases "b = []") (auto simp: scene_iteration_def Let_def)
    qed
  qed
qed

lemma inline_images_append [simp]: "inline_images (ps @ qs) = inline_images ps @ inline_images qs"
  by (simp add: inline_images_def)

lemma inline_images_references:
  "inline_images (map (\<lambda>img. InlineData (ImageData.base64 img) (mimeType img)) imgs) =
     map (\<lambda>img. (ImageData.base64 img, mimeType img)) imgs"
  by (induction imgs) (simp_all add: inline_images_def)

text \<open>The images that a request carries: the character images, then the continuity reference.\<close>

lemma request_parts_images:
  "inline_images (request_parts final imgs prev) =
     map (\<lambda>img. (ImageData.base64 img, mimeType img)) imgs @
     (case prev of Some b \<Rightarrow> (if b \<noteq> [] then [(b, ''image/png'')] else []) | None \<Rightarrow> [])"
proof -
  have a: "inline_images [Text final] = []"
    by (simp add: inline_images_def)
  have b: "inline_images
      (if length imgs > 0 then
          Text (''\<newline>\<newline>[INSTRUCTIONS] Use the following provided images as a strong visual reference for the characters named: ''
                @ join '', '' (map ReferenceImage.name imgs) @ ''. Maintain their appearance.'')
          # map (\<lambda>img. InlineData (ImageData.base64 img) (mimeType img)) imgs
        else []) = map (\<lambda>img. (ImageData.base64 img, mimeType img)) imgs"
  proof (cases imgs)
    case Nil
    then show ?thesis by (simp add: inline_images_def)
  next
    case (Cons x xs)
    have "inline_images (Text t # ps) = inline_images ps" for t ps
      by (simp add: inline_images_def)
    with Cons inline_images_references [of imgs] show ?thesis by simp
  qed
  have c: "inline_images
      (case prev of
          Some previous \<Rightarrow>
            if previous \<noteq> [] then
              [Text ''\<newline>\<newline>[INSTRUCTIONS] Use the following image as a reference for visual continuity from the previous scene.'',
               InlineData previous ''image/png'']
            else []
        | None \<Rightarrow> []) =
      (case prev of Some b \<Rightarrow> (if b \<noteq> [] then [(b, ''image/png'')] else []) | None \<Rightarrow> [])"
    by (simp add: inline_images_def split: option.splits)
  show ?thesis
    unfolding request_parts_def inline_images_append a b c by simp
qed

lemma last_image_nonempty:
  assumes "list_all (\<lambda>img. GeneratedImage.base64 img \<noteq> []) images"
  shows "(case last_image images of Some b \<Rightarrow> (if b \<noteq> [] then [(b, ''image/png'')] else []) | None \<Rightarrow> []) =
     (case last_image images of Some b \<Rightarrow> [(b, ''image/png'')] | None \<Rightarrow> [])"
proof (cases "images = []")
  case True
  then show ?thesis by (simp add: last_image_def)
next
  case False
  with assms have "GeneratedImage.base64 (last images) \<noteq> []"
    by (simp add: list_all_iff)
  with False show ?thesis by (simp add: last_image_def)
qed

text \<open>
  Claim C2. In every run of the continuity chain, the continuity reference supplied with
  each request for a scene image is the image of the most recent generation that
  succeeded before it in the run, and is absent when none has. Before every pass
  \<open>previousImageBase64\<close> is the image last appended to \<open>finalGeneratedImages\<close>; a pass that
  appends no image leaves it as it is, and a pass that appends one sets it to that image.
  The request of a pass is made with the parts built from the prompt, the character
  images and that image: the pass appends an image exactly when the reply of the service
  to these parts carries one, and the images that the parts carry are the character
  images followed by the image last appended, if there is one. In the run of three
  scenes whose request for scene 1 fails, the reference sent for scene 2 is the image of
  scene 0: a service that answers the request for scene 2 only when it is sent the image
  of scene 0 answers it.
\<close>

theorem continuity_reference_is_last_success:
  "generate_scene_images script refs style service prompts =
     chain_after script refs style service prompts (length prompts)
   \<and> (\<forall>k < length prompts.
         previousImageBase64 (chain_after script refs style service prompts k) =
           last_image (finalGeneratedImages (chain_after script refs style service prompts k))
         \<and> (requests (chain_after script refs style service prompts (Suc k)) =
               requests (chain_after script refs style service prompts k)
            \<or> requests (chain_after script refs style service prompts (Suc k)) =
               requests (chain_after script refs style service prompts k) @
                 [\<lparr>imagePromptText = CohesivePrompt.prompt (prompts ! k),
                   characterImagesSent = characterImagesForGen refs (CohesivePrompt.characters (prompts ! k)),
                   continuityReference =
                     last_image (finalGeneratedImages (chain_after script refs style service prompts k))\<rparr>])
         \<and> (finalGeneratedImages (chain_after script refs style service prompts (Suc k)) =
               finalGeneratedImages (chain_after script refs style service prompts k) \<and>
             previousImageBase64 (chain_after script refs style service prompts (Suc k)) =
               previousImageBase64 (chain_after script refs style service prompts k)
            \<or> (\<exists>img. finalGeneratedImages (chain_after script refs style service prompts (Suc k)) =
                   finalGeneratedImages (chain_after script refs style service prompts k) @ [img] \<and>
                  previousImageBase64 (chain_after script refs style service prompts (Suc k)) =
                   Some (GeneratedImage.base64 img)))
         \<and> finalGeneratedImages (chain_after script refs style service prompts (Suc k)) =
             finalGeneratedImages (chain_after script refs style service prompts k) @
             (if CohesivePrompt.sceneIndex (prompts ! k) < length (scene_elements script) then
                (case returned_image
                        (service k
                           (request_parts (final_prompt style (CohesivePrompt.prompt (prompts ! k)))
                              (characterImagesForGen refs (CohesivePrompt.characters (prompts ! k)))
                              (last_image (finalGeneratedImages
                                 (chain_after script refs style service prompts k))))) of
                   Some b \<Rightarrow>
                     [\<lparr>GeneratedImage.sceneIndex = CohesivePrompt.sceneIndex (prompts ! k),
                       imageUrl = ''data:image/png;base64,'' @ b,
                       GeneratedImage.base64 = b,
                       GeneratedImage.prompt = final_prompt style (CohesivePrompt.prompt (prompts ! k))\<rparr>]
                 | None \<Rightarrow> [])
              else [])
         \<and> inline_images
               (request_parts (final_prompt style (CohesivePrompt.prompt (prompts ! k)))
                  (characterImagesForGen refs (CohesivePrompt.characters (prompts ! k)))
                  (last_image (finalGeneratedImages (chain_after script refs style service prompts k)))) =
             map (\<lambda>img. (ImageData.base64 img, mimeType img))
               (characterImagesForGen refs (CohesivePrompt.characters (prompts ! k))) @
             (case last_image (finalGeneratedImages (chain_after script refs style service prompts k)) of
                Some b \<Rightarrow> [(b, ''image/png'')]
              | None \<Rightarrow> []))
   \<and> map GeneratedImage.base64
         (finalGeneratedImages (generate_scene_images three_scene_script [] [] failing_second three_prompts)) =
       [''AAAA'', ''CCCC'']
   \<and> map continuityReference
         (requests (generate_scene_images three_scene_script [] [] failing_second three_prompts)) =
       [None, Some ''AAAA'', Some ''AAAA'']
   \<and> map (\<lambda>img. (GeneratedImage.sceneIndex img, GeneratedImage.base64 img))
         (finalGeneratedImages (generate_scene_images three_scene_script [] [] continuity_checking three_prompts)) =
       [(0, ''AAAA''), (2, ''CCCC'')]"
proof -
  have each: "previousImageBase64 (chain_after script refs style service prompts k) =
           last_image (finalGeneratedImages (chain_after script refs style service prompts k))
         \<and> (requests (chain_after script refs style service prompts (Suc k)) =
               requests (chain_after script refs style service prompts k)
            \<or> requests (chain_after script refs style service prompts (Suc k)) =
               requests (chain_after script refs style service prompts k) @
                 [\<lparr>imagePromptText = CohesivePrompt.prompt (prompts ! k),
                   characterImagesSent = characterImagesForGen refs (CohesivePrompt.characters (prompts ! k)),
                   continuityReference =
                     last_image (finalGeneratedImages (chain_after script refs style service prompts k))\<rparr>])
         \<and> (finalGeneratedImages (chain_after script refs style service prompts (Suc k)) =
               finalGeneratedImages (chain_after script refs style service prompts k) \<and>
             previousImageBase64 (chain_after script refs style service prompts (Suc k)) =
               previousImageBase64 (chain_after script refs style service prompts k)
            \<or> (\<exists>img. finalGeneratedImages (chain_after script refs style service prompts (Suc k)) =
                   finalGeneratedImages (chain_after script refs style service prompts k) @ [img] \<and>
                  previousImageBase64 (chain_after script refs style service prompts (Suc k)) =
                   Some (GeneratedImage.base64 img)))
         \<and> finalGeneratedImages (chain_after script refs style service prompts (Suc k)) =
             finalGeneratedImages (chain_after script refs style service prompts k) @
             (if CohesivePrompt.sceneIndex (prompts ! k) < length (scene_elements script) then
                (case returned_image
                        (service k
                           (request_parts (final_prompt style (CohesivePrompt.prompt (prompts ! k)))
                              (characterImagesForGen refs (CohesivePrompt.characters (prompts ! k)))
                              (last_image (finalGeneratedImages
                                 (chain_after script refs style service prompts k))))) of
                   Some b \<Rightarrow>
                     [\<lparr>GeneratedImage.sceneIndex = CohesivePrompt.sceneIndex (prompts ! k),
                       imageUrl = ''data:image/png;base64,'' @ b,
                       GeneratedImage.base64 = b,
                       GeneratedImage.prompt = final_prompt style (CohesivePrompt.prompt (prompts ! k))\<rparr>]
                 | None \<Rightarrow> [])
              else [])
         \<and> inline_images
               (request_parts (final_prompt style (CohesivePrompt.prompt (prompts ! k)))
                  (characterImagesForGen refs (CohesivePrompt.characters (prompts ! k)))
                  (last_image (finalGeneratedImages (chain_after script refs style service prompts k)))) =
             map (\<lambda>img. (ImageData.base64 img, mimeType img))
               (characterImagesForGen refs (CohesivePrompt.characters (prompts ! k))) @
             (case last_image (finalGeneratedImages (chain_after script refs style service prompts k)) of
                Some b \<Rightarrow> [(b, ''image/png'')]
              | None \<Rightarrow> [])"
    if k: "k < length prompts" for k
  proof -
    from k have prev: "previousImageBase64 (chain_after script refs style service prompts k) =
           last_image (finalGeneratedImages (chain_after script refs style service prompts k))"
      by (intro chain_previous_is_last) simp
    have call: "image_call refs (prompts ! k) (chain_after script refs style service prompts k) =
        \<lparr>imagePromptText = CohesivePrompt.prompt (prompts ! k),
         characterImagesSent = characterImagesForGen refs (CohesivePrompt.characters (prompts ! k)),
         continuityReference =
           last_image (finalGeneratedImages (chain_after script refs style service prompts k))\<rparr>"
      by (simp add: image_call_def prev)
    note step = chain_step [OF k, of script refs style service, unfolded call]
    from step have a: "requests (chain_after script refs style service prompts (Suc k)) =
               requests (chain_after script refs style service prompts k)
            \<or> requests (chain_after script refs style service prompts (Suc k)) =
               requests (chain_after script refs style service prompts k) @
                 [\<lparr>imagePromptText = CohesivePrompt.prompt (prompts ! k),
                   characterImagesSent = characterImagesForGen refs (CohesivePrompt.characters (prompts ! k)),
                   continuityReference =
                     last_image (finalGeneratedImages (chain_after script refs style service prompts k))\<rparr>]"
      by (rule conjunct1)
    from step have b: "finalGeneratedImages (chain_after script refs style service prompts (Suc k)) =
               finalGeneratedImages (chain_after script refs style service prompts k) \<and>
             previousImageBase64 (chain_after script refs style service prompts (Suc k)) =
               previousImageBase64 (chain_after script refs style service prompts k)
            \<or> (\<exists>img. finalGeneratedImages (chain_after script refs style service prompts (Suc k)) =
                   finalGeneratedImages (chain_after script refs style service prompts k) @ [img] \<and>
                  previousImageBase64 (chain_after script refs style service prompts (Suc k)) =
                   Some (GeneratedImage.base64 img))"
      by blast
    have c: "finalGeneratedImages (chain_after script refs style service prompts (Suc k)) =
             finalGeneratedImages (chain_after script refs style service prompts k) @
             (if CohesivePrompt.sceneIndex (prompts ! k) < length (scene_elements script) then
                (case returned_image
                        (service k
                           (request_parts (final_prompt style (CohesivePrompt.prompt (prompts ! k)))
                              (characterImagesForGen refs (CohesivePrompt.characters (prompts ! k)))
                              (last_image (finalGeneratedImages
                                 (chain_after script refs style service prompts k))))) of
                   Some b \<Rightarrow>
                     [\<lparr>GeneratedImage.sceneIndex = CohesivePrompt.sceneIndex (prompts ! k),
                       imageUrl = ''data:image/png;base64,'' @ b,
                       GeneratedImage.base64 = b,
                       GeneratedImage.prompt = final_prompt style (CohesivePrompt.prompt (prompts ! k))\<rparr>]
                 | None \<Rightarrow> [])
              else [])"
      unfolding chain_after_Suc [OF k] scene_iteration_images prev ..
    from k have "list_all (\<lambda>img. GeneratedImage.base64 img \<noteq> [])
        (finalGeneratedImages (chain_after script refs style service prompts k))"
      by (intro chain_images_nonempty) simp
    then have d: "inline_images
               (request_parts (final_prompt style (CohesivePrompt.prompt (prompts ! k)))
                  (characterImagesForGen refs (CohesivePrompt.characters (prompts ! k)))
                  (last_image (finalGeneratedImages (chain_after script refs style service prompts k)))) =
             map (\<lambda>img. (ImageData.base64 img, mimeType img))
               (characterImagesForGen refs (CohesivePrompt.characters (prompts ! k))) @
             (case last_image (finalGeneratedImages (chain_after script refs style service prompts k)) of
                Some b \<Rightarrow> [(b, ''image/png'')]
              | None \<Rightarrow> [])"
      unfolding request_parts_images by (simp only: last_image_nonempty)
    from prev a b c d show ?thesis by (intro conjI)
  qed
  have e1: "map GeneratedImage.base64
         (finalGeneratedImages (generate_scene_images three_scene_script [] [] failing_second three_prompts)) =
       [''AAAA'', ''CCCC'']"
    by code_simp
  have e2: "map continuityReference
         (requests (generate_scene_images three_scene_script [] [] failing_second three_prompts)) =
       [None, Some ''AAAA'', Some ''AAAA'']"
    by code_simp
  have e3: "map (\<lambda>img. (GeneratedImage.sceneIndex img, GeneratedImage.base64 img))
         (finalGeneratedImages (generate_scene_images three_scene_script [] [] continuity_checking three_prompts)) =
       [(0, ''AAAA''), (2, ''CCCC'')]"
    by code_simp
  from each have all: "\<forall>k < length prompts.
         previousImageBase64 (chain_after script refs style service prompts k) =
           last_image (finalGeneratedImages (chain_after script refs style service prompts k))
         \<and> (requests (chain_after script refs style service prompts (Suc k)) =
               requests (chain_after script refs style service prompts k)
            \<or> requests (chain_after script refs style service prompts (Suc k)) =
               requests (chain_after script refs style service prompts k) @
                 [\<lparr>imagePromptText = CohesivePrompt.prompt (prompts ! k),
                   characterImagesSent = characterImagesForGen refs (CohesivePrompt.characters (prompts ! k)),
                   continuityReference =
                     last_image (finalGeneratedImages (chain_after script refs style service prompts k))\<rparr>])
         \<and> (finalGeneratedImages (chain_after script refs style service prompts (Suc k)) =
               finalGeneratedImages (chain_after script refs style service prompts k) \<and>
             previousImageBase64 (chain_after script refs style service prompts (Suc k)) =
               previousImageBase64 (chain_after script refs style service prompts k)
            \<or> (\<exists>img. finalGeneratedImages (chain_after script refs style service prompts (Suc k)) =
                   finalGeneratedImages (chain_after script refs style service prompts k) @ [img] \<and>
                  previousImageBase64 (chain_after script refs style service prompts (Suc k)) =
                   Some (GeneratedImage.base64 img)))
         \<and> finalGeneratedImages (chain_after script refs style service prompts (Suc k)) =
             finalGeneratedImages (chain_after script refs style service prompts k) @
             (if CohesivePrompt.sceneIndex (prompts ! k) < length (scene_elements script) then
                (case returned_image
                        (service k
                           (request_parts (final_prompt style (CohesivePrompt.prompt (prompts ! k)))
                              (characterImagesForGen refs (CohesivePrompt.characters (prompts ! k)))
                              (last_image (finalGeneratedImages
                                 (chain_after script refs style service prompts k))))) of
                   Some b \<Rightarrow>
                     [\<lparr>GeneratedImage.sceneIndex = CohesivePrompt.sceneIndex (prompts ! k),
                       imageUrl = ''data:image/png;base64,'' @ b,
                       GeneratedImage.base64 = b,
                       GeneratedImage.prompt = final_prompt style (CohesivePrompt.prompt (prompts ! k))\<rparr>]
                 | None \<Rightarrow> [])
              else [])
         \<and> inline_images
               (request_parts (final_prompt style (CohesivePrompt.prompt (prompts ! k)))
                  (characterImagesForGen refs (CohesivePrompt.characters (prompts ! k)))
                  (last_image (finalGeneratedImages (chain_after script refs style service prompts k)))) =
             map (\<lambda>img. (ImageData.base64 img, mimeType img))
               (characterImagesForGen refs (CohesivePrompt.characters (prompts ! k))) @
             (case last_image (finalGeneratedImages (chain_after script refs style service prompts k)) of
                Some b \<Rightarrow> [(b, ''image/png'')]
              | None \<Rightarrow> [])"
    by (intro allI impI)
  from chain_after_all [of script refs style service prompts] all e1 e2 e3 show ?thesis
    by (intro conjI)
qed

text \<open>
  The statement at the third pass of the run of three scenes, with the service whose
  second request fails and with the service that looks at what it is sent.
\<close>

theorem continuity_reference_is_last_success_witness:
  "2 < length three_prompts
   \<and> finalGeneratedImages (chain_after three_scene_script [] [] failing_second three_prompts 2) =
       finalGeneratedImages (chain_after three_scene_script [] [] failing_second three_prompts 1)
   \<and> previousImageBase64 (chain_after three_scene_script [] [] failing_second three_prompts 2) =
       Some ''AAAA''
   \<and> continuityReference
        (last (requests (chain_after three_scene_script [] [] failing_second three_prompts 3))) =
       Some ''AAAA''
   \<and> inline_images
        (request_parts (final_prompt [] (CohesivePrompt.prompt (three_prompts ! 2)))
           (characterImagesForGen [] (CohesivePrompt.characters (three_prompts ! 2)))
           (last_image (finalGeneratedImages
              (chain_after three_scene_script [] [] continuity_checking three_prompts 2)))) =
       [(''AAAA'', ''image/png'')]
   \<and> map GeneratedImage.base64
        (finalGeneratedImages (chain_after three_scene_script [] [] continuity_checking three_prompts 3)) =
       [''AAAA'', ''CCCC'']"
proof -
  have len: "2 < length three_prompts" by (simp add: three_prompts_def)
  have same: "finalGeneratedImages (chain_after three_scene_script [] [] failing_second three_prompts 2) =
       finalGeneratedImages (chain_after three_scene_script [] [] failing_second three_prompts 1)"
    by code_simp
  have li: "last_image (finalGeneratedImages
      (chain_after three_scene_script [] [] failing_second three_prompts 2)) = Some ''AAAA''"
    by code_simp
  have grown: "requests (chain_after three_scene_script [] [] failing_second three_prompts (Suc 2)) \<noteq>
      requests (chain_after three_scene_script [] [] failing_second three_prompts 2)"
    by code_simp
  note at2 = continuity_reference_is_last_success
    [of three_scene_script "[]" "[]" failing_second three_prompts, THEN conjunct2, THEN conjunct1,
     THEN spec, THEN mp, OF len]
  from at2
  have prev: "previousImageBase64 (chain_after three_scene_script [] [] failing_second three_prompts 2) =
      last_image (finalGeneratedImages (chain_after three_scene_script [] [] failing_second three_prompts 2))"
    by (rule conjunct1)
  from at2 [THEN conjunct2, THEN conjunct1]
  have req: "requests (chain_after three_scene_script [] [] failing_second three_prompts (Suc 2)) =
        requests (chain_after three_scene_script [] [] failing_second three_prompts 2)
      \<or> requests (chain_after three_scene_script [] [] failing_second three_prompts (Suc 2)) =
        requests (chain_after three_scene_script [] [] failing_second three_prompts 2) @
          [\<lparr>imagePromptText = CohesivePrompt.prompt (three_prompts ! 2),
            characterImagesSent = characterImagesForGen [] (CohesivePrompt.characters (three_prompts ! 2)),
            continuityReference = last_image (finalGeneratedImages
              (chain_after three_scene_script [] [] failing_second three_prompts 2))\<rparr>]" .
  from req grown have "continuityReference
        (last (requests (chain_after three_scene_script [] [] failing_second three_prompts (Suc 2)))) =
       last_image (finalGeneratedImages
              (chain_after three_scene_script [] [] failing_second three_prompts 2))"
    by auto
  moreover have "Suc 2 = (3::nat)" by simp
  ultimately have r3: "continuityReference
        (last (requests (chain_after three_scene_script [] [] failing_second three_prompts 3))) =
       Some ''AAAA''"
    using li by metis
  from prev li have p2: "previousImageBase64
      (chain_after three_scene_script [] [] failing_second three_prompts 2) = Some ''AAAA''"
    by (rule trans)
  note ck2 = continuity_reference_is_last_success
    [of three_scene_script "[]" "[]" continuity_checking three_prompts, THEN conjunct2, THEN conjunct1,
     THEN spec, THEN mp, OF len]
  have cli: "last_image (finalGeneratedImages
      (chain_after three_scene_script [] [] continuity_checking three_prompts 2)) = Some ''AAAA''"
    by code_simp
  from ck2 [THEN conjunct2, THEN conjunct2, THEN conjunct2, THEN conjunct2]
  have sent: "inline_images
        (request_parts (final_prompt [] (CohesivePrompt.prompt (three_prompts ! 2)))
           (characterImagesForGen [] (CohesivePrompt.characters (three_prompts ! 2)))
           (last_image (finalGeneratedImages
              (chain_after three_scene_script [] [] continuity_checking three_prompts 2)))) =
       map (\<lambda>img. (ImageData.base64 img, mimeType img))
         (characterImagesForGen [] (CohesivePrompt.characters (three_prompts ! 2))) @
       (case last_image (finalGeneratedImages
              (chain_after three_scene_script [] [] continuity_checking three_prompts 2)) of
          Some b \<Rightarrow> [(b, ''image/png'')]
        | None \<Rightarrow> [])" .
  have nochars: "characterImagesForGen [] (CohesivePrompt.characters (three_prompts ! 2)) = []"
    by code_simp
  from sent have s2: "inline_images
        (request_parts (final_prompt [] (CohesivePrompt.prompt (three_prompts ! 2)))
           (characterImagesForGen [] (CohesivePrompt.characters (three_prompts ! 2)))
           (last_image (finalGeneratedImages
              (chain_after three_scene_script [] [] continuity_checking three_prompts 2)))) =
       [(''AAAA'', ''image/png'')]"
    unfolding cli nochars by simp
  have reply: "returned_image
      (continuity_checking 2
         (request_parts (final_prompt [] (CohesivePrompt.prompt (three_prompts ! 2)))
            (characterImagesForGen [] (CohesivePrompt.characters (three_prompts ! 2)))
            (Some ''AAAA''))) = Some ''CCCC''"
    by code_simp
  have inside: "CohesivePrompt.sceneIndex (three_prompts ! 2) < length (scene_elements three_scene_script)"
    by code_simp
  have before: "map GeneratedImage.base64 (finalGeneratedImages
      (chain_after three_scene_script [] [] continuity_checking three_prompts 2)) = [''AAAA'']"
    by code_simp
  from ck2 [THEN conjunct2, THEN conjunct2, THEN conjunct2, THEN conjunct1]
  have "map GeneratedImage.base64 (finalGeneratedImages
      (chain_after three_scene_script [] [] continuity_checking three_prompts (Suc 2))) =
    map GeneratedImage.base64 (finalGeneratedImages
      (chain_after three_scene_script [] [] continuity_checking three_prompts 2)) @ [''CCCC'']"
    unfolding cli by (simp add: inside reply)
  then have c3: "map GeneratedImage.base64
        (finalGeneratedImages (chain_after three_scene_script [] [] continuity_checking three_prompts 3)) =
       [''AAAA'', ''CCCC'']"
    unfolding before by (simp add: numeral_3_eq_3)
  from len same p2 r3 s2 c3 show ?thesis by (intro conjI)
qed

text \<open>
  Claim C3, as amended. The generated scene images are, in order, those of the cohesive
  prompts whose pass succeeded: the images follow the order in which the service returned
  the cohesive prompts. They are strictly ascending by \<open>sceneIndex\<close> whenever the cohesive
  prompts are, as the scenes sent with the request for the prompts are (at most 20 of
  them).
\<close>

theorem scene_images_follow_prompt_order:
  "map GeneratedImage.sceneIndex
     (finalGeneratedImages (generate_scene_images script refs style service prompts)) =
   map (\<lambda>k. CohesivePrompt.sceneIndex (prompts ! k))
     (filter (succeeded script refs style service prompts) [0..<length prompts])
   \<and> (sorted_wrt (<) (map CohesivePrompt.sceneIndex prompts) \<longrightarrow>
        sorted_wrt (<) (map GeneratedImage.sceneIndex
          (finalGeneratedImages (generate_scene_images script refs style service prompts))))
   \<and> sorted_wrt (<) (map fst (scenesToGenerate script))
   \<and> length (scenesToGenerate script) \<le> 20"
proof -
  have a: "map GeneratedImage.sceneIndex
     (finalGeneratedImages (generate_scene_images script refs style service prompts)) =
   map (\<lambda>k. CohesivePrompt.sceneIndex (prompts ! k))
     (filter (succeeded script refs style service prompts) [0..<length prompts])"
    unfolding chain_after_all by (rule chain_images_are_successes) simp
  have b: "sorted_wrt (<) (map CohesivePrompt.sceneIndex prompts) \<longrightarrow>
        sorted_wrt (<) (map GeneratedImage.sceneIndex
          (finalGeneratedImages (generate_scene_images script refs style service prompts)))"
    unfolding a by (intro impI sorted_wrt_picked)
  have c: "length (scenesToGenerate script) \<le> 20"
    by (simp add: scenesToGenerate_def)
  from a b scenesToGenerate_ascending [of script] c show ?thesis by (intro conjI)
qed

text \<open>The statement at the run of three scenes, whose prompts are in ascending order.\<close>

theorem scene_images_follow_prompt_order_witness:
  "sorted_wrt (<) (map CohesivePrompt.sceneIndex three_prompts)
   \<and> sorted_wrt (<) (map GeneratedImage.sceneIndex
        (finalGeneratedImages (generate_scene_images three_scene_script [] [] failing_second three_prompts)))
   \<and> map GeneratedImage.sceneIndex
        (finalGeneratedImages (generate_scene_images three_scene_script [] [] failing_second three_prompts)) =
      [0, 2]"
proof -
  have s: "sorted_wrt (<) (map CohesivePrompt.sceneIndex three_prompts)"
    by (simp add: three_prompts_def)
  have v: "map GeneratedImage.sceneIndex
        (finalGeneratedImages (generate_scene_images three_scene_script [] [] failing_second three_prompts)) =
      [0, 2]"
    by code_simp
  from scene_images_follow_prompt_order [of three_scene_script "[]" "[]" failing_second three_prompts] s
  have "sorted_wrt (<) (map GeneratedImage.sceneIndex
        (finalGeneratedImages (generate_scene_images three_scene_script [] [] failing_second three_prompts)))"
    by blast
  with s v show ?thesis by (intro conjI)
qed

text \<open>
  When the service returns the prompt of scene 2 before that of scene 0, so are the
  images generated.
\<close>

theorem scene_images_unordered_counterexample:
  "map GeneratedImage.sceneIndex
     (finalGeneratedImages (generate_scene_images three_scene_script [] [] never_failing swapped_prompts)) =
   [2, 0]"
  by code_simp

section \<open>The runs of the orchestrator\<close>

lemma generate_scene_images_in_script:
  "list_all (\<lambda>img. GeneratedImage.sceneIndex img < length (scene_elements script))
     (finalGeneratedImages (generate_scene_images script refs style service prompts))"
  unfolding chain_after_all by (rule chain_images_in_script) simp

lemma collect_dialogue_returns:
  assumes "\<forall>img \<in> set images. getDialogueForScene (GeneratedImage.sceneIndex img) script \<noteq> Inl TypeError"
  shows "collect_dialogue script images ([], {}) =
     Inr (flagged {} (associations script images), elementIndex ` set (associations script images))"
  using collect_dialogue_flagged [OF assms, of "[]" "{}"] by simp

text \<open>A script each of whose dialogue blocks has its \<open>elements\<close> and its \<open>character\<close>.\<close>

lemma readable_names:
  assumes "list_all (\<lambda>el. SceneElement.type el = dialogue_block \<longrightarrow>
             elements el \<noteq> None \<and> SceneElement.character el \<noteq> None) (scene_elements script)"
  shows "\<exists>names. charactersInScriptDialogue script = Inr names"
proof -
  from assms have "\<not> list_ex (\<lambda>el. SceneElement.character el = None)
      (filter (\<lambda>el. SceneElement.type el = dialogue_block) (scene_elements script))"
    by (auto simp: list_all_iff list_ex_iff)
  then show ?thesis by (simp add: charactersInScriptDialogue_def Let_def)
qed

lemma readable_associations:
  assumes "list_all (\<lambda>el. SceneElement.type el = dialogue_block \<longrightarrow>
             elements el \<noteq> None \<and> SceneElement.character el \<noteq> None) (scene_elements script)"
    and "list_all (\<lambda>img. GeneratedImage.sceneIndex img < length (scene_elements script)) images"
  shows "\<forall>img \<in> set images. getDialogueForScene (GeneratedImage.sceneIndex img) script \<noteq> Inl TypeError"
proof
  fix img assume "img \<in> set images"
  with assms(2) have "GeneratedImage.sceneIndex img \<le> length (scene_elements script)"
    by (auto simp: list_all_iff intro: less_imp_le)
  moreover from assms(1) have "\<And>j. j < length (scene_elements script) \<Longrightarrow> \<not> unreadable (scene_elements script ! j)"
    by (rule readable_script)
  ultimately obtain r where "getDialogueForScene (GeneratedImage.sceneIndex img) script = Inr r"
    using getDialogueForScene_returns [of script "GeneratedImage.sceneIndex img"] by blast
  then show "getDialogueForScene (GeneratedImage.sceneIndex img) script \<noteq> Inl TypeError" by simp
qed

lemma dialogue_stage_completes:
  assumes "\<forall>img \<in> set (finalGeneratedImages chain).
      getDialogueForScene (GeneratedImage.sceneIndex img) script \<noteq> Inl TypeError"
    and "hs3000Lines st = []"
  shows "\<exists>report'. dialogue_stage sv script st report chain =
     Inr (st\<lparr>generatedImages := generatedImages st @ finalGeneratedImages chain,
             hs3000Lines := run_lines sv script (finalGeneratedImages chain),
             generationReport := report @ report',
             generationComplete := True\<rparr>)"
proof (cases "associations script (finalGeneratedImages chain) = []")
  case True
  then show ?thesis
    using assms(2)
    by (intro exI [of _ "imageReports chain"])
      (simp add: dialogue_stage_def collect_dialogue_returns [OF assms(1)] run_lines_def)
next
  case False
  then have "flagged {} (associations script (finalGeneratedImages chain)) \<noteq> []"
    by (cases "associations script (finalGeneratedImages chain)") simp_all
  then show ?thesis
    by (intro exI [of _ "imageReports chain @ [DialogueGenerated (run_lines sv script (finalGeneratedImages chain))]"])
      (simp add: dialogue_stage_def collect_dialogue_returns [OF assms(1)] run_lines_def Let_def)
qed

lemma dialogue_stage_throws:
  assumes "\<exists>img \<in> set (finalGeneratedImages chain).
      getDialogueForScene (GeneratedImage.sceneIndex img) script = Inl TypeError"
  shows "dialogue_stage sv script st report chain =
     Inl (TypeError, st\<lparr>generatedImages := generatedImages st @ finalGeneratedImages chain\<rparr>)"
  by (simp add: dialogue_stage_def Let_def collect_dialogue_throws [OF assms])

lemma handleGenerate_story_elements_fail:
  assumes "story_elements_stage sv inp = Inl e"
  shows "handleGenerate sv inp = failed_state e initial_state"
  using assms by (simp add: handleGenerate_def try_block_def failed_state_def Let_def)

lemma handleGenerate_script_fail:
  assumes "story_elements_stage sv inp = Inr storyElements"
    and "generateStory (script_reply sv) = Inl e"
  shows "handleGenerate sv inp = failed_state e initial_state"
  using assms
  by (simp add: handleGenerate_def try_block_def script_stage_def failed_state_def Let_def)

lemma handleGenerate_characters_fail:
  assumes "story_elements_stage sv inp = Inr storyElements"
    and "generateStory (script_reply sv) = Inr script"
    and "analyzeCharacterDescriptions (characters_reply sv) = Inl e"
  shows "handleGenerate sv inp = failed_state e (initial_state\<lparr>scriptData := Some script\<rparr>)"
  using assms
  by (simp add: handleGenerate_def try_block_def script_stage_def characters_stage_def
      failed_state_def Let_def)

lemma handleGenerate_names_fail:
  assumes "story_elements_stage sv inp = Inr storyElements"
    and "generateStory (script_reply sv) = Inr script"
    and "analyzeCharacterDescriptions (characters_reply sv) = Inr analyzedCharacters"
    and "charactersInScriptDialogue script = Inl e"
  shows "handleGenerate sv inp =
     failed_state e (initial_state\<lparr>scriptData := Some script,
       generatedCharacterPortraits := run_portraits sv inp analyzedCharacters\<rparr>)"
  using assms
  by (simp add: handleGenerate_def try_block_def script_stage_def characters_stage_def
      portraits_stage_def scenes_stage_def run_portraits_def
      failed_state_def Let_def)

lemma handleGenerate_prompts_fail:
  assumes "story_elements_stage sv inp = Inr storyElements"
    and "generateStory (script_reply sv) = Inr script"
    and "analyzeCharacterDescriptions (characters_reply sv) = Inr analyzedCharacters"
    and "charactersInScriptDialogue script = Inr names"
    and "run_prompts sv script = Inl e"
  shows "handleGenerate sv inp =
     failed_state e (initial_state\<lparr>scriptData := Some script,
       generatedCharacterPortraits := run_portraits sv inp analyzedCharacters\<rparr>)"
  using assms
  by (simp add: handleGenerate_def try_block_def script_stage_def characters_stage_def
      portraits_stage_def scenes_stage_def run_prompts_def run_portraits_def
      failed_state_def Let_def)

lemma try_block_reaches_dialogue_stage:
  assumes "story_elements_stage sv inp = Inr storyElements"
    and "generateStory (script_reply sv) = Inr script"
    and "analyzeCharacterDescriptions (characters_reply sv) = Inr analyzedCharacters"
    and "charactersInScriptDialogue script = Inr names"
    and "run_prompts sv script = Inr cohesivePrompts"
  shows "\<exists>report. try_block sv inp st [ReportHeader, GenerationDate (currentDate sv)] =
     dialogue_stage sv script
       (st\<lparr>scriptData := Some script,
           generatedCharacterPortraits := run_portraits sv inp analyzedCharacters\<rparr>)
       (ReportHeader # report)
       (run_chain sv inp script analyzedCharacters cohesivePrompts)"
proof -
  have scenes: "scenes_stage sv inp script (run_portraits sv inp analyzedCharacters)
      (final_style_prompt inp) st' report =
    dialogue_stage sv script st'
      (report @ [SceneLogHeader]
         @ (if length (scenesWithAction script) > 20
            then [SceneLimitNote (length (scenesWithAction script))] else []))
      (run_chain sv inp script analyzedCharacters cohesivePrompts)" for st' report
    using assms(4,5) by (simp add: scenes_stage_def run_prompts_def run_chain_def Let_def)
  have portraits: "portraits_stage sv inp script (final_style_prompt inp) st' report analyzedCharacters =
    scenes_stage sv inp script (run_portraits sv inp analyzedCharacters) (final_style_prompt inp)
      (st'\<lparr>generatedCharacterPortraits := run_portraits sv inp analyzedCharacters\<rparr>)
      (report @ [CharacterAnalysisResult analyzedCharacters, PortraitGenerationHeader]
         @ snd (generate_portraits (final_style_prompt inp) (portrait_service sv) (portrait_arrival sv)
                  (charactersToGenerate inp analyzedCharacters)))" for st' report
    by (simp add: portraits_stage_def run_portraits_def Let_def)
  have characters: "characters_stage sv inp script (final_style_prompt inp) st' report =
    portraits_stage sv inp script (final_style_prompt inp) st' (report @ [CharacterAnalysisHeader])
      analyzedCharacters" for st' report
    using assms(3) by (simp add: characters_stage_def)
  have script: "script_stage sv inp (final_style_prompt inp) st' report =
    characters_stage sv inp script (final_style_prompt inp) (st'\<lparr>scriptData := Some script\<rparr>)
      (report @ [ScriptGenerated])" for st' report
    using assms(2) by (simp add: script_stage_def)
  have "\<exists>report. try_block sv inp st (ReportHeader # [GenerationDate (currentDate sv)]) =
      script_stage sv inp (final_style_prompt inp) st (ReportHeader # report)"
    unfolding try_block_def Let_def assms(1) sum.case append_assoc append_Cons
    by (rule exI, rule refl)
  then obtain report where "try_block sv inp st [ReportHeader, GenerationDate (currentDate sv)] =
      script_stage sv inp (final_style_prompt inp) st (ReportHeader # report)" ..
  then show ?thesis
    unfolding script characters portraits scenes by (simp only: append_Cons) blast
qed

lemma handleGenerate_completes:
  assumes "story_elements_stage sv inp = Inr storyElements"
    and "generateStory (script_reply sv) = Inr script"
    and "analyzeCharacterDescriptions (characters_reply sv) = Inr analyzedCharacters"
    and "charactersInScriptDialogue script = Inr names"
    and "run_prompts sv script = Inr cohesivePrompts"
    and "\<forall>img \<in> set (finalGeneratedImages (run_chain sv inp script analyzedCharacters cohesivePrompts)).
      getDialogueForScene (GeneratedImage.sceneIndex img) script \<noteq> Inl TypeError"
  shows "\<exists>report. handleGenerate sv inp =
     initial_state\<lparr>scriptData := Some script,
       generatedCharacterPortraits := run_portraits sv inp analyzedCharacters,
       generatedImages := finalGeneratedImages (run_chain sv inp script analyzedCharacters cohesivePrompts),
       hs3000Lines := run_lines sv script
         (finalGeneratedImages (run_chain sv inp script analyzedCharacters cohesivePrompts)),
       generationReport := ReportHeader # report,
       generationComplete := True, isGenerating := False, isReadyForDownload := True\<rparr>"
proof -
  let ?st = "initial_state\<lparr>scriptData := Some script,
       generatedCharacterPortraits := run_portraits sv inp analyzedCharacters\<rparr>"
  let ?chain = "run_chain sv inp script analyzedCharacters cohesivePrompts"
  have empty: "hs3000Lines ?st = []" by (simp add: initial_state_def)
  from try_block_reaches_dialogue_stage [OF assms(1-5), of initial_state]
  obtain report where t: "try_block sv inp initial_state [ReportHeader, GenerationDate (currentDate sv)] =
     dialogue_stage sv script ?st (ReportHeader # report) ?chain" ..
  from dialogue_stage_completes [OF assms(6) empty, of sv "ReportHeader # report"]
  obtain report' where d: "dialogue_stage sv script ?st (ReportHeader # report) ?chain =
     Inr (?st\<lparr>generatedImages := generatedImages ?st @ finalGeneratedImages ?chain,
             hs3000Lines := run_lines sv script (finalGeneratedImages ?chain),
             generationReport := (ReportHeader # report) @ report',
             generationComplete := True\<rparr>)" ..
  show ?thesis
    unfolding handleGenerate_def t d
    by (rule exI [of _ "report @ report'"]) (simp add: initial_state_def)
qed

lemma handleGenerate_association_fail:
  assumes "story_elements_stage sv inp = Inr storyElements"
    and "generateStory (script_reply sv) = Inr script"
    and "analyzeCharacterDescriptions (characters_reply sv) = Inr analyzedCharacters"
    and "charactersInScriptDialogue script = Inr names"
    and "run_prompts sv script = Inr cohesivePrompts"
    and "\<exists>img \<in> set (finalGeneratedImages (run_chain sv inp script analyzedCharacters cohesivePrompts)).
      getDialogueForScene (GeneratedImage.sceneIndex img) script = Inl TypeError"
  shows "handleGenerate sv inp =
     failed_state TypeError (initial_state\<lparr>scriptData := Some script,
       generatedCharacterPortraits := run_portraits sv inp analyzedCharacters,
       generatedImages := finalGeneratedImages (run_chain sv inp script analyzedCharacters cohesivePrompts)\<rparr>)"
proof -
  let ?st = "initial_state\<lparr>scriptData := Some script,
       generatedCharacterPortraits := run_portraits sv inp analyzedCharacters\<rparr>"
  let ?chain = "run_chain sv inp script analyzedCharacters cohesivePrompts"
  from try_block_reaches_dialogue_stage [OF assms(1-5), of initial_state]
  obtain report where t: "try_block sv inp initial_state [ReportHeader, GenerationDate (currentDate sv)] =
     dialogue_stage sv script ?st (ReportHeader # report) ?chain" ..
  show ?thesis
    unfolding handleGenerate_def t dialogue_stage_throws [OF assms(6)]
    by (simp add: initial_state_def failed_state_def Let_def)
qed

lemma run_cases [case_names story script characters names prompts association completes]:
  obtains
    (story) e where "story_elements_stage sv inp = Inl e"
      "handleGenerate sv inp = failed_state e initial_state"
  | (script) storyElements e where "story_elements_stage sv inp = Inr storyElements"
      "generateStory (script_reply sv) = Inl e"
      "handleGenerate sv inp = failed_state e initial_state"
  | (characters) storyElements script e where "story_elements_stage sv inp = Inr storyElements"
      "generateStory (script_reply sv) = Inr script"
      "analyzeCharacterDescriptions (characters_reply sv) = Inl e"
      "handleGenerate sv inp = failed_state e (initial_state\<lparr>scriptData := Some script\<rparr>)"
  | (names) storyElements script analyzedCharacters e where
      "story_elements_stage sv inp = Inr storyElements"
      "generateStory (script_reply sv) = Inr script"
      "analyzeCharacterDescriptions (characters_reply sv) = Inr analyzedCharacters"
      "charactersInScriptDialogue script = Inl e"
      "handleGenerate sv inp =
         failed_state e (initial_state\<lparr>scriptData := Some script,
           generatedCharacterPortraits := run_portraits sv inp analyzedCharacters\<rparr>)"
  | (prompts) storyElements script analyzedCharacters names e where
      "story_elements_stage sv inp = Inr storyElements"
      "generateStory (script_reply sv) = Inr script"
      "analyzeCharacterDescriptions (characters_reply sv) = Inr analyzedCharacters"
      "charactersInScriptDialogue script = Inr names"
      "run_prompts sv script = Inl e"
      "handleGenerate sv inp =
         failed_state e (initial_state\<lparr>scriptData := Some script,
           generatedCharacterPortraits := run_portraits sv inp analyzedCharacters\<rparr>)"
  | (association) storyElements script analyzedCharacters names cohesivePrompts where
      "story_elements_stage sv inp = Inr storyElements"
      "generateStory (script_reply sv) = Inr script"
      "analyzeCharacterDescriptions (characters_reply sv) = Inr analyzedCharacters"
      "charactersInScriptDialogue script = Inr names"
      "run_prompts sv script = Inr cohesivePrompts"
      "\<exists>img \<in> set (finalGeneratedImages (run_chain sv inp script analyzedCharacters cohesivePrompts)).
         getDialogueForScene (GeneratedImage.sceneIndex img) script = Inl TypeError"
      "handleGenerate sv inp =
         failed_state TypeError (initial_state\<lparr>scriptData := Some script,
           generatedCharacterPortraits := run_portraits sv inp analyzedCharacters,
           generatedImages := finalGeneratedImages (run_chain sv inp script analyzedCharacters cohesivePrompts)\<rparr>)"
  | (completes) storyElements script analyzedCharacters names cohesivePrompts report where
      "story_elements_stage sv inp = Inr storyElements"
      "generateStory (script_reply sv) = Inr script"
      "analyzeCharacterDescriptions (characters_reply sv) = Inr analyzedCharacters"
      "charactersInScriptDialogue script = Inr names"
      "run_prompts sv script = Inr cohesivePrompts"
      "handleGenerate sv inp =
         initial_state\<lparr>scriptData := Some script,
           generatedCharacterPortraits := run_portraits sv inp analyzedCharacters,
           generatedImages := finalGeneratedImages (run_chain sv inp script analyzedCharacters cohesivePrompts),
           hs3000Lines := run_lines sv script
             (finalGeneratedImages (run_chain sv inp script analyzedCharacters cohesivePrompts)),
           generationReport := ReportHeader # report,
           generationComplete := True, isGenerating := False, isReadyForDownload := True\<rparr>"
proof (cases "story_elements_stage sv inp")
  case (Inl e)
  then show ?thesis by (intro story handleGenerate_story_elements_fail)
next
  case se: (Inr storyElements)
  show ?thesis
  proof (cases "generateStory (script_reply sv)")
    case (Inl e)
    with se show ?thesis by (intro script handleGenerate_script_fail)
  next
    case sc: (Inr script)
    show ?thesis
    proof (cases "analyzeCharacterDescriptions (characters_reply sv)")
      case (Inl e)
      with se sc show ?thesis by (intro characters handleGenerate_characters_fail)
    next
      case ch: (Inr analyzedCharacters)
      show ?thesis
      proof (cases "charactersInScriptDialogue script")
        case (Inl e)
        with se sc ch show ?thesis by (intro names handleGenerate_names_fail)
      next
        case nm: (Inr names)
        show ?thesis
        proof (cases "run_prompts sv script")
          case (Inl e)
          with se sc ch nm show ?thesis by (intro prompts handleGenerate_prompts_fail)
        next
          case pr: (Inr cohesivePrompts)
          show ?thesis
          proof (cases "\<exists>img \<in> set (finalGeneratedImages (run_chain sv inp script analyzedCharacters cohesivePrompts)).
              getDialogueForScene (GeneratedImage.sceneIndex img) script = Inl TypeError")
            case True
            with se sc ch nm pr show ?thesis
              by (intro association handleGenerate_association_fail)
          next
            case False
            then have ok: "\<forall>img \<in> set (finalGeneratedImages (run_chain sv inp script analyzedCharacters cohesivePrompts)).
                getDialogueForScene (GeneratedImage.sceneIndex img) script \<noteq> Inl TypeError"
              by simp
            from handleGenerate_completes [OF se sc ch nm pr ok] obtain report where
              "handleGenerate sv inp =
                 initial_state\<lparr>scriptData := Some script,
                   generatedCharacterPortraits := run_portraits sv inp analyzedCharacters,
                   generatedImages := finalGeneratedImages (run_chain sv inp script analyzedCharacters cohesivePrompts),
                   hs3000Lines := run_lines sv script
                     (finalGeneratedImages (run_chain sv inp script analyzedCharacters cohesivePrompts)),
                   generationReport := ReportHeader # report,
                   generationComplete := True, isGenerating := False, isReadyForDownload := True\<rparr>" ..
            with se sc ch nm pr show ?thesis by (intro completes)
          qed
        qed
      qed
    qed
  qed
qed

lemma failed_state_fields:
  "error (failed_state e st) = Some (error_message e)"
  "generationReport (failed_state e st) = generationReport st @ [GenerationFailed (error_message e)]"
  "generatedImages (failed_state e st) = generatedImages st"
  "generatedCharacterPortraits (failed_state e st) = generatedCharacterPortraits st"
  "scriptData (failed_state e st) = scriptData st"
  "hs3000Lines (failed_state e st) = hs3000Lines st"
  "generationComplete (failed_state e st) = generationComplete st"
  "isReadyForDownload (failed_state e st)"
  "\<not> isGenerating (failed_state e st)"
  by (simp_all add: failed_state_def)

lemma initial_state_fields:
  "error initial_state = None" "scriptData initial_state = None"
  "generatedImages initial_state = []" "generatedCharacterPortraits initial_state = []"
  "generationReport initial_state = []" "\<not> generationComplete initial_state"
  "hs3000Lines initial_state = []"
  by (simp_all add: initial_state_def)

text \<open>What a run leaves that ends where \<open>e\<close> is thrown before the first request for a scene image.\<close>

lemma failed_before_images:
  assumes "handleGenerate sv inp = failed_state e (initial_state\<lparr>scriptData := sd,
       generatedCharacterPortraits := ps\<rparr>)"
  shows "error (handleGenerate sv inp) = Some (error_message e) \<and>
     generatedImages (handleGenerate sv inp) = [] \<and> hs3000Lines (handleGenerate sv inp) = [] \<and>
     generationReport (handleGenerate sv inp) \<noteq> [] \<and>
     last (generationReport (handleGenerate sv inp)) = GenerationFailed (error_message e) \<and>
     \<not> generationComplete (handleGenerate sv inp) \<and> isReadyForDownload (handleGenerate sv inp) \<and>
     \<not> isGenerating (handleGenerate sv inp) \<and>
     scriptData (handleGenerate sv inp) = sd \<and>
     generatedCharacterPortraits (handleGenerate sv inp) = ps"
  unfolding assms by (simp add: failed_state_fields initial_state_fields)

text \<open>
  A run that ends with an error ends with the failure entry, not complete, ready for
  download; it has no dialogue line.
\<close>

lemma failed_run:
  assumes "error (handleGenerate sv inp) = Some m"
  shows "hs3000Lines (handleGenerate sv inp) = [] \<and>
     generationReport (handleGenerate sv inp) = [GenerationFailed m] \<and>
     \<not> generationComplete (handleGenerate sv inp) \<and> isReadyForDownload (handleGenerate sv inp) \<and>
     \<not> isGenerating (handleGenerate sv inp)"
proof (cases rule: run_cases [of sv inp])
  case (story e)
  with assms show ?thesis by (simp add: failed_state_fields initial_state_fields)
next
  case (script storyElements e)
  with assms show ?thesis by (simp add: failed_state_fields initial_state_fields)
next
  case (characters storyElements script e)
  with assms show ?thesis by (simp add: failed_state_fields initial_state_fields)
next
  case (names storyElements script analyzedCharacters e)
  with assms show ?thesis by (simp add: failed_state_fields initial_state_fields)
next
  case (prompts storyElements script analyzedCharacters names e)
  with assms show ?thesis by (simp add: failed_state_fields initial_state_fields)
next
  case (association storyElements script analyzedCharacters names cohesivePrompts)
  with assms show ?thesis by (simp add: failed_state_fields initial_state_fields)
next
  case (completes storyElements script analyzedCharacters names cohesivePrompts report)
  with assms show ?thesis by (simp add: initial_state_fields)
qed

text \<open>
  A run on a script with a dialogue block without \<open>elements\<close>: the image of the action is
  generated and published, then the association of its dialogue throws, and the run ends
  with the error and the image.
\<close>

lemma unreadable_script_run:
  "error (handleGenerate elements_missing example_inputs) = Some (error_message TypeError)
   \<and> map GeneratedImage.sceneIndex (generatedImages (handleGenerate elements_missing example_inputs)) = [0]
   \<and> generationReport (handleGenerate elements_missing example_inputs) =
       [GenerationFailed (error_message TypeError)]
   \<and> \<not> generationComplete (handleGenerate elements_missing example_inputs)"
  by code_simp

text \<open>
  Claim C1, as amended. A run in which the story analysis, the script, the character
  analysis or the request for cohesive prompts fails ends with the error of that stage
  exposed, with no generated scene image and no dialogue line, not marked complete,
  ready for download, and its published report is not empty and ends with the failure
  entry of that error. There is no character portrait when the stage that failed is the
  story analysis, the script or the character analysis; when it is the request for
  cohesive prompts, the portraits generated before it are kept. A run in which none of
  these stages fails, on a script each of whose dialogue blocks has its \<open>elements\<close> and
  its \<open>character\<close>, ends without an error, complete, with a report.
\<close>

theorem fatal_failure_outcome:
  "(story_elements_stage sv inp = Inl e \<longrightarrow>
       error (handleGenerate sv inp) = Some (error_message e) \<and>
       generatedImages (handleGenerate sv inp) = [] \<and> hs3000Lines (handleGenerate sv inp) = [] \<and>
       generationReport (handleGenerate sv inp) \<noteq> [] \<and>
       last (generationReport (handleGenerate sv inp)) = GenerationFailed (error_message e) \<and>
       \<not> generationComplete (handleGenerate sv inp) \<and> isReadyForDownload (handleGenerate sv inp) \<and>
       \<not> isGenerating (handleGenerate sv inp) \<and>
       scriptData (handleGenerate sv inp) = None \<and>
       generatedCharacterPortraits (handleGenerate sv inp) = [])
   \<and> (story_elements_stage sv inp = Inr storyElements \<and> generateStory (script_reply sv) = Inl e \<longrightarrow>
       error (handleGenerate sv inp) = Some (error_message e) \<and>
       generatedImages (handleGenerate sv inp) = [] \<and> hs3000Lines (handleGenerate sv inp) = [] \<and>
       generationReport (handleGenerate sv inp) \<noteq> [] \<and>
       last (generationReport (handleGenerate sv inp)) = GenerationFailed (error_message e) \<and>
       \<not> generationComplete (handleGenerate sv inp) \<and> isReadyForDownload (handleGenerate sv inp) \<and>
       \<not> isGenerating (handleGenerate sv inp) \<and>
       scriptData (handleGenerate sv inp) = None \<and>
       generatedCharacterPortraits (handleGenerate sv inp) = [])
   \<and> (story_elements_stage sv inp = Inr storyElements \<and> generateStory (script_reply sv) = Inr script \<and>
      analyzeCharacterDescriptions (characters_reply sv) = Inl e \<longrightarrow>
       error (handleGenerate sv inp) = Some (error_message e) \<and>
       generatedImages (handleGenerate sv inp) = [] \<and> hs3000Lines (handleGenerate sv inp) = [] \<and>
       generationReport (handleGenerate sv inp) \<noteq> [] \<and>
       last (generationReport (handleGenerate sv inp)) = GenerationFailed (error_message e) \<and>
       \<not> generationComplete (handleGenerate sv inp) \<and> isReadyForDownload (handleGenerate sv inp) \<and>
       \<not> isGenerating (handleGenerate sv inp) \<and>
       scriptData (handleGenerate sv inp) = Some script \<and>
       generatedCharacterPortraits (handleGenerate sv inp) = [])
   \<and> (story_elements_stage sv inp = Inr storyElements \<and> generateStory (script_reply sv) = Inr script \<and>
      analyzeCharacterDescriptions (characters_reply sv) = Inr analyzedCharacters \<and>
      charactersInScriptDialogue script = Inr names \<and>
      run_prompts sv script = Inl e \<longrightarrow>
       error (handleGenerate sv inp) = Some (error_message e) \<and>
       generatedImages (handleGenerate sv inp) = [] \<and> hs3000Lines (handleGenerate sv inp) = [] \<and>
       generationReport (handleGenerate sv inp) \<noteq> [] \<and>
       last (generationReport (handleGenerate sv inp)) = GenerationFailed (error_message e) \<and>
       \<not> generationComplete (handleGenerate sv inp) \<and> isReadyForDownload (handleGenerate sv inp) \<and>
       \<not> isGenerating (handleGenerate sv inp) \<and>
       scriptData (handleGenerate sv inp) = Some script \<and>
       generatedCharacterPortraits (handleGenerate sv inp) = run_portraits sv inp analyzedCharacters)
   \<and> (story_elements_stage sv inp = Inr storyElements \<and> generateStory (script_reply sv) = Inr script \<and>
      analyzeCharacterDescriptions (characters_reply sv) = Inr analyzedCharacters \<and>
      run_prompts sv script = Inr cohesivePrompts \<and>
      list_all (\<lambda>el. SceneElement.type el = dialogue_block \<longrightarrow>
                  elements el \<noteq> None \<and> SceneElement.character el \<noteq> None) (scene_elements script) \<longrightarrow>
       error (handleGenerate sv inp) = None \<and> generationComplete (handleGenerate sv inp) \<and>
       generationReport (handleGenerate sv inp) \<noteq> [] \<and>
       scriptData (handleGenerate sv inp) = Some script \<and>
       generatedCharacterPortraits (handleGenerate sv inp) = run_portraits sv inp analyzedCharacters \<and>
       generatedImages (handleGenerate sv inp) =
         finalGeneratedImages (run_chain sv inp script analyzedCharacters cohesivePrompts))"
proof (intro conjI; intro impI; (elim conjE)?)
  assume "story_elements_stage sv inp = Inl e"
  from handleGenerate_story_elements_fail [OF this]
  have "handleGenerate sv inp = failed_state e (initial_state\<lparr>scriptData := None,
       generatedCharacterPortraits := []\<rparr>)"
    by (simp add: initial_state_def)
  from failed_before_images [OF this]
  show "error (handleGenerate sv inp) = Some (error_message e) \<and>
       generatedImages (handleGenerate sv inp) = [] \<and> hs3000Lines (handleGenerate sv inp) = [] \<and>
       generationReport (handleGenerate sv inp) \<noteq> [] \<and>
       last (generationReport (handleGenerate sv inp)) = GenerationFailed (error_message e) \<and>
       \<not> generationComplete (handleGenerate sv inp) \<and> isReadyForDownload (handleGenerate sv inp) \<and>
       \<not> isGenerating (handleGenerate sv inp) \<and>
       scriptData (handleGenerate sv inp) = None \<and>
       generatedCharacterPortraits (handleGenerate sv inp) = []" .
next
  assume "story_elements_stage sv inp = Inr storyElements" "generateStory (script_reply sv) = Inl e"
  from handleGenerate_script_fail [OF this]
  have "handleGenerate sv inp = failed_state e (initial_state\<lparr>scriptData := None,
       generatedCharacterPortraits := []\<rparr>)"
    by (simp add: initial_state_def)
  from failed_before_images [OF this]
  show "error (handleGenerate sv inp) = Some (error_message e) \<and>
       generatedImages (handleGenerate sv inp) = [] \<and> hs3000Lines (handleGenerate sv inp) = [] \<and>
       generationReport (handleGenerate sv inp) \<noteq> [] \<and>
       last (generationReport (handleGenerate sv inp)) = GenerationFailed (error_message e) \<and>
       \<not> generationComplete (handleGenerate sv inp) \<and> isReadyForDownload (handleGenerate sv inp) \<and>
       \<not> isGenerating (handleGenerate sv inp) \<and>
       scriptData (handleGenerate sv inp) = None \<and>
       generatedCharacterPortraits (handleGenerate sv inp) = []" .
next
  assume "story_elements_stage sv inp = Inr storyElements" "generateStory (script_reply sv) = Inr script"
    "analyzeCharacterDescriptions (characters_reply sv) = Inl e"
  from handleGenerate_characters_fail [OF this]
  have "handleGenerate sv inp = failed_state e (initial_state\<lparr>scriptData := Some script,
       generatedCharacterPortraits := []\<rparr>)"
    by (simp add: initial_state_def)
  from failed_before_images [OF this]
  show "error (handleGenerate sv inp) = Some (error_message e) \<and>
       generatedImages (handleGenerate sv inp) = [] \<and> hs3000Lines (handleGenerate sv inp) = [] \<and>
       generationReport (handleGenerate sv inp) \<noteq> [] \<and>
       last (generationReport (handleGenerate sv inp)) = GenerationFailed (error_message e) \<and>
       \<not> generationComplete (handleGenerate sv inp) \<and> isReadyForDownload (handleGenerate sv inp) \<and>
       \<not> isGenerating (handleGenerate sv inp) \<and>
       scriptData (handleGenerate sv inp) = Some script \<and>
       generatedCharacterPortraits (handleGenerate sv inp) = []" .
next
  assume "story_elements_stage sv inp = Inr storyElements" "generateStory (script_reply sv) = Inr script"
    "analyzeCharacterDescriptions (characters_reply sv) = Inr analyzedCharacters"
    "charactersInScriptDialogue script = Inr names"
    "run_prompts sv script = Inl e"
  from handleGenerate_prompts_fail [OF this]
  have "handleGenerate sv inp = failed_state e (initial_state\<lparr>scriptData := Some script,
       generatedCharacterPortraits := run_portraits sv inp analyzedCharacters\<rparr>)" .
  from failed_before_images [OF this]
  show "error (handleGenerate sv inp) = Some (error_message e) \<and>
       generatedImages (handleGenerate sv inp) = [] \<and> hs3000Lines (handleGenerate sv inp) = [] \<and>
       generationReport (handleGenerate sv inp) \<noteq> [] \<and>
       last (generationReport (handleGenerate sv inp)) = GenerationFailed (error_message e) \<and>
       \<not> generationComplete (handleGenerate sv inp) \<and> isReadyForDownload (handleGenerate sv inp) \<and>
       \<not> isGenerating (handleGenerate sv inp) \<and>
       scriptData (handleGenerate sv inp) = Some script \<and>
       generatedCharacterPortraits (handleGenerate sv inp) = run_portraits sv inp analyzedCharacters" .
next
  assume st: "story_elements_stage sv inp = Inr storyElements" "generateStory (script_reply sv) = Inr script"
    "analyzeCharacterDescriptions (characters_reply sv) = Inr analyzedCharacters"
    and pr: "run_prompts sv script = Inr cohesivePrompts"
    and wf: "list_all (\<lambda>el. SceneElement.type el = dialogue_block \<longrightarrow>
                  elements el \<noteq> None \<and> SceneElement.character el \<noteq> None) (scene_elements script)"
  from readable_names [OF wf] obtain names where nm: "charactersInScriptDialogue script = Inr names" ..
  have "list_all (\<lambda>img. GeneratedImage.sceneIndex img < length (scene_elements script))
     (finalGeneratedImages (run_chain sv inp script analyzedCharacters cohesivePrompts))"
    unfolding run_chain_def by (rule generate_scene_images_in_script)
  from readable_associations [OF wf this]
  have ok: "\<forall>img \<in> set (finalGeneratedImages (run_chain sv inp script analyzedCharacters cohesivePrompts)).
      getDialogueForScene (GeneratedImage.sceneIndex img) script \<noteq> Inl TypeError" .
  from handleGenerate_completes [OF st nm pr ok] obtain report where
    r: "handleGenerate sv inp =
         initial_state\<lparr>scriptData := Some script,
           generatedCharacterPortraits := run_portraits sv inp analyzedCharacters,
           generatedImages := finalGeneratedImages (run_chain sv inp script analyzedCharacters cohesivePrompts),
           hs3000Lines := run_lines sv script
             (finalGeneratedImages (run_chain sv inp script analyzedCharacters cohesivePrompts)),
           generationReport := ReportHeader # report,
           generationComplete := True, isGenerating := False, isReadyForDownload := True\<rparr>" ..
  show "error (handleGenerate sv inp) = None \<and> generationComplete (handleGenerate sv inp) \<and>
       generationReport (handleGenerate sv inp) \<noteq> [] \<and>
       scriptData (handleGenerate sv inp) = Some script \<and>
       generatedCharacterPortraits (handleGenerate sv inp) = run_portraits sv inp analyzedCharacters \<and>
       generatedImages (handleGenerate sv inp) =
         finalGeneratedImages (run_chain sv inp script analyzedCharacters cohesivePrompts)"
    unfolding r by (simp add: initial_state_fields)
qed

text \<open>The statement at a run whose script request fails.\<close>

theorem fatal_failure_outcome_witness:
  "generateStory (script_reply script_failing) =
     Inl (Error ''Failed to generate script. Details: 500 Internal Server Error'')
   \<and> error (handleGenerate script_failing example_inputs) =
       Some ''Failed to generate script. Details: 500 Internal Server Error''
   \<and> generatedImages (handleGenerate script_failing example_inputs) = []
   \<and> generatedCharacterPortraits (handleGenerate script_failing example_inputs) = []
   \<and> last (generationReport (handleGenerate script_failing example_inputs)) =
       GenerationFailed ''Failed to generate script. Details: 500 Internal Server Error''"
proof -
  let ?e = "Error ''Failed to generate script. Details: 500 Internal Server Error''"
  have se: "story_elements_stage script_failing example_inputs =
      Inr \<lparr>StoryElements.characters = ''To be determined by the writer based on the story prompt.'',
           story = ''To be determined by the writer based on the story prompt.'',
           today = ''To be determined by the writer based on the story prompt.''\<rparr>"
    by (simp add: story_elements_stage_def example_inputs_def)
  have gs: "generateStory (script_reply script_failing) = Inl ?e"
    by code_simp
  have msg: "error_message ?e = ''Failed to generate script. Details: 500 Internal Server Error''"
    by (simp add: error_message_def)
  note t = fatal_failure_outcome [of script_failing example_inputs ?e _ twice_script example_characters "[]" "[]",
      THEN conjunct2, THEN conjunct1, THEN mp, OF conjI, OF se gs]
  from t have err: "error (handleGenerate script_failing example_inputs) = Some (error_message ?e)"
    and img: "generatedImages (handleGenerate script_failing example_inputs) = []"
    and rep: "last (generationReport (handleGenerate script_failing example_inputs)) =
       GenerationFailed (error_message ?e)"
    and por: "generatedCharacterPortraits (handleGenerate script_failing example_inputs) = []"
    by simp_all
  from gs err img por rep show ?thesis unfolding msg by (intro conjI)
qed

text \<open>
  A run whose request for cohesive prompts fails: the portrait of Ann is there, and the
  report published holds the failure entry only.
\<close>

theorem fatal_failure_after_portraits_counterexample:
  "error (handleGenerate prompts_failing example_inputs) =
     Some ''Failed to generate cohesive image prompts. Details: 500 Internal Server Error''
   \<and> map fst (generatedCharacterPortraits (handleGenerate prompts_failing example_inputs)) = [''Ann'']
   \<and> generationReport (handleGenerate prompts_failing example_inputs) =
     [GenerationFailed ''Failed to generate cohesive image prompts. Details: 500 Internal Server Error'']"
  by code_simp










lemma first_sentence_segment:
  "\<exists>segment rest. first_sentence original = segment @ ''.'' \<and> original = segment @ rest \<and>
     list_all (\<lambda>c. c \<notin> set ''.!?'') segment \<and> (rest = [] \<or> hd rest \<in> set ''.!?'')"
proof (intro exI conjI)
  show "first_sentence original = takeWhile (\<lambda>c. c \<notin> set ''.!?'') original @ ''.''"
    by (simp add: first_sentence_def)
  show "original = takeWhile (\<lambda>c. c \<notin> set ''.!?'') original @ dropWhile (\<lambda>c. c \<notin> set ''.!?'') original"
    by simp
  show "list_all (\<lambda>c. c \<notin> set ''.!?'') (takeWhile (\<lambda>c. c \<notin> set ''.!?'') original)"
    unfolding list_all_iff by (blast dest: set_takeWhileD)
  show "dropWhile (\<lambda>c. c \<notin> set ''.!?'') original = [] \<or>
      hd (dropWhile (\<lambda>c. c \<notin> set ''.!?'') original) \<in> set ''.!?''"
    using hd_dropWhile [of "\<lambda>c. c \<notin> set ''.!?''" original] by blast
qed


lemma fallback_length:
  assumes "response = Rejects msg \<or> response = Resolves None"
  shows "length (generateHS3000Dialogue response inputs) = length inputs"
  using assms by (auto simp: generateHS3000Dialogue_def)

lemma unavailable_run_lines:
  assumes "\<forall>inputs. (\<exists>msg. dialogue_service sv inputs = Rejects msg) \<or> dialogue_service sv inputs = Resolves None"
  shows "length (run_lines sv script images) = length (associations script images)"
proof -
  let ?inputs = "flagged {} (associations script images)"
  from assms have "(\<exists>msg. dialogue_service sv ?inputs = Rejects msg) \<or> dialogue_service sv ?inputs = Resolves None"
    by (rule allE)
  then have "length (generateHS3000Dialogue (dialogue_service sv ?inputs) ?inputs) = length ?inputs"
    by (auto simp: generateHS3000Dialogue_def)
  moreover have "?inputs = [] \<longleftrightarrow> associations script images = []"
    by (cases "associations script images") simp_all
  ultimately show ?thesis by (simp add: run_lines_def Let_def)
qed

text \<open>
  Claim C8. When the dialogue request fails, by rejection or by an empty reply,
  \<open>generateHS3000Dialogue\<close> returns one line for each input, of the character of the input
  and of the text of its original dialogue up to the first of the characters
  \<open>.\<close>, \<open>!\<close> and \<open>?\<close>, followed by a full stop. A run that completes while the dialogue
  service is unavailable has as many dialogue lines as generated images with an
  associated dialogue.
\<close>

theorem dialogue_fallback_one_line_per_input:
  "(response = Rejects msg \<or> response = Resolves None \<longrightarrow>
      length (generateHS3000Dialogue response inputs) = length inputs
      \<and> (\<forall>k < length inputs.
            HS3000Line.character (generateHS3000Dialogue response inputs ! k) =
              DialogueInput.character (inputs ! k)
            \<and> HS3000Line.dialogue (generateHS3000Dialogue response inputs ! k) =
              first_sentence (originalDialogue (inputs ! k))))
   \<and> (\<exists>segment rest. first_sentence original = segment @ ''.'' \<and> original = segment @ rest \<and>
         list_all (\<lambda>c. c \<notin> set ''.!?'') segment \<and> (rest = [] \<or> hd rest \<in> set ''.!?''))
   \<and> ((\<forall>inputs. (\<exists>msg. dialogue_service sv inputs = Rejects msg) \<or>
                 dialogue_service sv inputs = Resolves None) \<and>
       error (handleGenerate sv inp) = None \<and> scriptData (handleGenerate sv inp) = Some script
       \<longrightarrow> length (hs3000Lines (handleGenerate sv inp)) =
           length (associations script (generatedImages (handleGenerate sv inp))))
   \<and> first_sentence ''Hello there. How are you?'' = ''Hello there.''"
proof -
  have a: "response = Rejects msg \<or> response = Resolves None \<longrightarrow>
      length (generateHS3000Dialogue response inputs) = length inputs
      \<and> (\<forall>k < length inputs.
            HS3000Line.character (generateHS3000Dialogue response inputs ! k) =
              DialogueInput.character (inputs ! k)
            \<and> HS3000Line.dialogue (generateHS3000Dialogue response inputs ! k) =
              first_sentence (originalDialogue (inputs ! k)))"
    by (auto simp: generateHS3000Dialogue_def)
  have b: "(\<forall>inputs. (\<exists>msg. dialogue_service sv inputs = Rejects msg) \<or>
                 dialogue_service sv inputs = Resolves None) \<and>
       error (handleGenerate sv inp) = None \<and> scriptData (handleGenerate sv inp) = Some script
       \<longrightarrow> length (hs3000Lines (handleGenerate sv inp)) =
           length (associations script (generatedImages (handleGenerate sv inp)))"
  proof (intro impI, elim conjE)
    assume un: "\<forall>inputs. (\<exists>msg. dialogue_service sv inputs = Rejects msg) \<or>
                 dialogue_service sv inputs = Resolves None"
      and ok: "error (handleGenerate sv inp) = None"
      and sd: "scriptData (handleGenerate sv inp) = Some script"
    show "length (hs3000Lines (handleGenerate sv inp)) =
           length (associations script (generatedImages (handleGenerate sv inp)))"
    proof (cases rule: run_cases [of sv inp])
      case (story e)
      with ok show ?thesis by (simp add: failed_state_fields)
    next
      case (script storyElements e)
      with ok show ?thesis by (simp add: failed_state_fields)
    next
      case (characters storyElements script e)
      with ok show ?thesis by (simp add: failed_state_fields)
    next
      case (names storyElements script analyzedCharacters e)
      with ok show ?thesis by (simp add: failed_state_fields)
    next
      case (prompts storyElements script analyzedCharacters names e)
      with ok show ?thesis by (simp add: failed_state_fields)
    next
      case (association storyElements script analyzedCharacters names cohesivePrompts)
      with ok show ?thesis by (simp add: failed_state_fields)
    next
      case (completes storyElements script' analyzedCharacters names cohesivePrompts report)
      from completes(6) sd have "script' = script" by simp
      with completes(6) unavailable_run_lines [OF un] show ?thesis by simp
    qed
  qed
  have c: "first_sentence ''Hello there. How are you?'' = ''Hello there.''"
    by code_simp
  from a first_sentence_segment [of original] b c show ?thesis by (intro conjI)
qed

text \<open>The statement at a run whose dialogue request is refused.\<close>

theorem dialogue_fallback_one_line_per_input_witness:
  "dialogue_service key_refused = (\<lambda>inputs. Rejects ''403 PERMISSION_DENIED'')
   \<and> error (handleGenerate key_refused example_inputs) = None
   \<and> scriptData (handleGenerate key_refused example_inputs) = Some twice_script
   \<and> length (associations twice_script (generatedImages (handleGenerate key_refused example_inputs))) = 2
   \<and> length (hs3000Lines (handleGenerate key_refused example_inputs)) = 2"
proof -
  have ds: "dialogue_service key_refused = (\<lambda>inputs. Rejects ''403 PERMISSION_DENIED'')"
    by (simp add: key_refused_def)
  then have un: "\<forall>inputs. (\<exists>msg. dialogue_service key_refused inputs = Rejects msg) \<or>
                 dialogue_service key_refused inputs = Resolves None"
    by simp
  have ok: "error (handleGenerate key_refused example_inputs) = None" by code_simp
  have sd: "scriptData (handleGenerate key_refused example_inputs) = Some twice_script" by code_simp
  have n: "length (associations twice_script (generatedImages (handleGenerate key_refused example_inputs))) = 2"
    by code_simp
  from dialogue_fallback_one_line_per_input [of _ _ _ _ key_refused example_inputs twice_script] un ok sd
  have "length (hs3000Lines (handleGenerate key_refused example_inputs)) =
      length (associations twice_script (generatedImages (handleGenerate key_refused example_inputs)))"
    by blast
  with ds ok sd n show ?thesis by simp
qed

section \<open>The presentation player\<close>

text \<open>
  Claim C10. The storyboard items of the player are a permutation of the items given,
  each with the element of the script at its \<open>sceneIndex\<close>, in ascending order of
  \<open>sceneIndex\<close>, whatever the order in which they were given.
\<close>

theorem storyboardItems_sorted_permutation:
  "mset (storyboardItems initialItems script) =
     mset (map (\<lambda>it. \<lparr>StoryboardInput.sceneIndex = StoryboardInput.sceneIndex it, item = item it,
                       sceneElement = element_at script (StoryboardInput.sceneIndex it)\<rparr>) initialItems)
   \<and> mset (map (\<lambda>it. (StoryboardInput.sceneIndex it, item it)) (storyboardItems initialItems script)) =
     mset (map (\<lambda>it. (StoryboardInput.sceneIndex it, item it)) initialItems)
   \<and> sorted (map StoryboardInput.sceneIndex (storyboardItems initialItems script))
   \<and> map sceneElement (storyboardItems initialItems script) =
     map (\<lambda>it. element_at script (StoryboardInput.sceneIndex it)) (storyboardItems initialItems script)
   \<and> element_at script i = (if i < length (scene_elements script) then Some (scene_elements script ! i) else None)
   \<and> map item (storyboardItems example_items three_scene_script) = [''a'', ''c'', ''d'']
   \<and> map sceneElement (storyboardItems example_items three_scene_script) =
       [Some (action_of ''She enters.''), Some (action_of ''She leaves.''),
        Some (action_of ''She leaves.'')]"
proof -
  let ?pair = "\<lambda>it. \<lparr>StoryboardInput.sceneIndex = StoryboardInput.sceneIndex it, item = item it,
                       sceneElement = element_at script (StoryboardInput.sceneIndex it)\<rparr>"
  have a: "mset (storyboardItems initialItems script) = mset (map ?pair initialItems)"
    by (simp add: storyboardItems_def)
  have "mset (map (\<lambda>it. (StoryboardInput.sceneIndex it, item it)) (storyboardItems initialItems script)) =
      image_mset (\<lambda>it. (StoryboardInput.sceneIndex it, item it)) (mset (map ?pair initialItems))"
    unfolding a [symmetric] by simp
  also have "\<dots> = mset (map (\<lambda>it. (StoryboardInput.sceneIndex it, item it)) initialItems)"
    by (simp add: multiset.map_comp o_def)
  finally have b: "mset (map (\<lambda>it. (StoryboardInput.sceneIndex it, item it)) (storyboardItems initialItems script)) =
     mset (map (\<lambda>it. (StoryboardInput.sceneIndex it, item it)) initialItems)" .
  have c: "sorted (map StoryboardInput.sceneIndex (storyboardItems initialItems script))"
    by (simp add: storyboardItems_def)
  have "\<forall>x \<in> set (storyboardItems initialItems script).
      sceneElement x = element_at script (StoryboardInput.sceneIndex x)"
    by (auto simp: storyboardItems_def)
  then have d: "map sceneElement (storyboardItems initialItems script) =
     map (\<lambda>it. element_at script (StoryboardInput.sceneIndex it)) (storyboardItems initialItems script)"
    by simp
  have e: "element_at script i = (if i < length (scene_elements script) then Some (scene_elements script ! i) else None)"
    by (simp add: element_at_def)
  have f: "map item (storyboardItems example_items three_scene_script) = [''a'', ''c'', ''d'']"
    by code_simp
  have g: "map sceneElement (storyboardItems example_items three_scene_script) =
       [Some (action_of ''She enters.''), Some (action_of ''She leaves.''),
        Some (action_of ''She leaves.'')]"
    by code_simp
  from a b c d e f g show ?thesis by (intro conjI)
qed

end
